theory Spec2Isabelle
  imports Complex_Main "HOL-Library.Sublist" "HOL-Library.AList"
begin

section \<open>Values, errors and tables\<close>

text \<open>
  A cell of a table: a missing value (pandas' NaN), a text, an integer or a float.
  Floats that are not NaN are finite rationals here; infinities are not modelled.
\<close>

datatype cell = NaN | StrV string | IntV int | FltV rat

text \<open>
  The Python exceptions that can leave the code of the two notebooks. \<open>Propagated\<close> is
  an exception of \<open>requests.get\<close> that the handler of \<open>build_request_param\<close> does not
  name.
\<close>

datatype error = ValueError | KeyError | AttributeError | EmptyDataError | ParserError
  | OverflowError | OutOfBoundsDatetime | Propagated

text \<open>
  A row is an association list from column names to cells; a column that a row does not
  mention reads as NaN. A data frame has its column names in order, its index (an optional
  name and one label per row) and its rows.
\<close>

type_synonym row = "(string \<times> cell) list"

record dataframe =
  columns :: "string list"
  index_name :: "string option"
  index :: "cell list"
  rows :: "row list"

definition cell_at :: "row \<Rightarrow> string \<Rightarrow> cell" where
  "cell_at r c = (case map_of r c of None \<Rightarrow> NaN | Some v \<Rightarrow> v)"

definition column_values :: "dataframe \<Rightarrow> string \<Rightarrow> cell list" where
  "column_values df c = map (\<lambda>r. cell_at r c) (rows df)"

text \<open>\<open>pd.DataFrame()\<close>: no columns, no rows.\<close>

definition DataFrame :: dataframe where
  "DataFrame = \<lparr>columns = [], index_name = None, index = [], rows = []\<rparr>"

text \<open>\<open>RangeIndex(n)\<close>: the labels 0, ..., n - 1.\<close>

definition RangeIndex :: "nat \<Rightarrow> cell list" where
  "RangeIndex n = map (\<lambda>i. IntV (int i)) [0..<n]"

section \<open>Timestamps\<close>

text \<open>
  A pandas Timestamp by its calendar fields and the nanoseconds since midnight. The
  notebook parses both date columns with \<open>errors = 'coerce'\<close>, so a value may be missing
  (NaT): \<open>None\<close>.
\<close>

record timestamp =
  year :: nat
  month :: nat
  day :: nat
  nanos :: int

definition is_leap :: "nat \<Rightarrow> bool" where
  "is_leap y = (y mod 4 = 0 \<and> (y mod 100 \<noteq> 0 \<or> y mod 400 = 0))"

definition days_in_month :: "nat \<Rightarrow> nat \<Rightarrow> nat" where
  "days_in_month y m =
     (if m = 2 then (if is_leap y then 29 else 28)
      else if m = 4 \<or> m = 6 \<or> m = 9 \<or> m = 11 then 30 else 31)"

definition valid_timestamp :: "timestamp \<Rightarrow> bool" where
  "valid_timestamp t =
     (1 \<le> year t \<and> 1 \<le> month t \<and> month t \<le> 12 \<and>
      1 \<le> day t \<and> day t \<le> days_in_month (year t) (month t) \<and>
      0 \<le> nanos t \<and> nanos t < 86400000000000)"

definition days_before_year :: "nat \<Rightarrow> int" where
  "days_before_year y =
     (let y1 = int y - 1 in y1 * 365 + y1 div 4 - y1 div 100 + y1 div 400)"

definition days_before_month :: "nat \<Rightarrow> nat \<Rightarrow> int" where
  "days_before_month y m = int (sum_list (map (days_in_month y) [1..<m]))"

text \<open>The proleptic Gregorian ordinal of a date (1 is 0001-01-01).\<close>

definition ymd2ord :: "nat \<Rightarrow> nat \<Rightarrow> nat \<Rightarrow> int" where
  "ymd2ord y m d = days_before_year y + days_before_month y m + int d"

definition day_ns :: int where
  "day_ns = 86400000000000"

text \<open>The instant of a timestamp, in nanoseconds.\<close>

definition ts_ns :: "timestamp \<Rightarrow> int" where
  "ts_ns t = ymd2ord (year t) (month t) (day t) * day_ns + nanos t"

text \<open>\<open>timedelta(days=n)\<close>, in nanoseconds.\<close>

definition timedelta_days :: "int \<Rightarrow> int" where
  "timedelta_days n = n * day_ns"

text \<open>
  The difference of two timestamps is a Timedelta: a signed 64-bit count of nanoseconds.
  It is missing when either timestamp is; the subtraction raises OverflowError when the
  difference is no 64-bit number.
\<close>

definition ts_minus :: "timestamp option \<Rightarrow> timestamp option \<Rightarrow> error + int option" where
  "ts_minus a b =
     (case a of None \<Rightarrow> Inr None
      | Some x \<Rightarrow>
          (case b of None \<Rightarrow> Inr None
           | Some y \<Rightarrow>
               (let d = ts_ns x - ts_ns y
                in if d < - 9223372036854775808 \<or> 9223372036854775807 < d then Inl OverflowError
                   else Inr (Some d))))"

text \<open>
  The difference of two timestamp columns, element by element; an overflow in any element
  makes the whole subtraction raise.
\<close>

fun series_minus :: "timestamp option list \<Rightarrow> timestamp option list \<Rightarrow> error + int option list" where
  "series_minus (a # as) (b # bs) =
     (case ts_minus a b of
        Inl e \<Rightarrow> Inl e
      | Inr d \<Rightarrow> (case series_minus as bs of Inl e \<Rightarrow> Inl e | Inr ds \<Rightarrow> Inr (d # ds)))"
| "series_minus as bs = Inr []"

text \<open>A comparison with a missing value is false.\<close>

definition gt_timedelta :: "int option \<Rightarrow> int \<Rightarrow> bool" where
  "gt_timedelta d t = (case d of None \<Rightarrow> False | Some x \<Rightarrow> t < x)"

definition gt_float :: "rat option \<Rightarrow> rat \<Rightarrow> bool" where
  "gt_float v t = (case v of None \<Rightarrow> False | Some x \<Rightarrow> t < x)"

text \<open>
  A Timestamp counts the nanoseconds since 1970-01-01 (the day with ordinal 719163) in a
  signed 64-bit number whose least value stands for NaT: it holds the instants from
  1677-09-21 00:12:43.145224193 to 2262-04-11 23:47:16.854775807.
\<close>

definition in_bounds :: "timestamp \<Rightarrow> bool" where
  "in_bounds t =
     (let v = ts_ns t - 719163 * day_ns
      in - 9223372036854775807 \<le> v \<and> v \<le> 9223372036854775807)"

text \<open>
  \<open>ts - pd.tseries.offsets.DateOffset(months=n)\<close> for \<open>1 \<le> n \<le> 12\<close>. The calendar
  arithmetic: the month moves back by n, borrowing a year below January; the day is
  clipped to the length of the month reached; the time of day stays.
\<close>

definition minus_months :: "timestamp \<Rightarrow> nat \<Rightarrow> timestamp" where
  "minus_months t n =
     (let m = int (month t) - int n;
          y' = (if m < 1 then year t - 1 else year t);
          m' = nat (if m < 1 then m + 12 else m)
      in \<lparr>year = y', month = m', day = min (days_in_month y' m') (day t), nanos = nanos t\<rparr>)"

text \<open>
  The subtraction itself: a missing timestamp stays missing; the date reached has to be a
  Timestamp again, otherwise the subtraction raises OutOfBoundsDatetime.
\<close>

definition sub_DateOffset_months :: "timestamp option \<Rightarrow> nat \<Rightarrow> error + timestamp option" where
  "sub_DateOffset_months ts n =
     (case ts of
        None \<Rightarrow> Inr None
      | Some t \<Rightarrow> if in_bounds (minus_months t n) then Inr (Some (minus_months t n))
                  else Inl OutOfBoundsDatetime)"

definition digit :: "nat \<Rightarrow> char" where
  "digit n = ''0123456789'' ! (n mod 10)"

text \<open>The last w decimal digits of n, zero padded.\<close>

fun zero_pad :: "nat \<Rightarrow> nat \<Rightarrow> string" where
  "zero_pad 0 n = []"
| "zero_pad (Suc w) n = zero_pad w (n div 10) @ [digit n]"

text \<open>
  \<open>strftime\<close> for the directives the notebook uses (\<open>%Y\<close>, \<open>%m\<close>, \<open>%d\<close>); every other
  character of the format is copied.
\<close>

fun strftime :: "timestamp \<Rightarrow> string \<Rightarrow> string" where
  "strftime t [] = []"
| "strftime t [c] = [c]"
| "strftime t (c # d # fs) =
     (if c = CHR ''%'' \<and> d = CHR ''Y'' then zero_pad 4 (year t) @ strftime t fs
      else if c = CHR ''%'' \<and> d = CHR ''m'' then zero_pad 2 (month t) @ strftime t fs
      else if c = CHR ''%'' \<and> d = CHR ''d'' then zero_pad 2 (day t) @ strftime t fs
      else c # strftime t (d # fs))"

section \<open>The wildfire table of the collection notebook\<close>

text \<open>
  A row of \<open>wildfire.csv\<close> with the columns the notebook reads, and the label of the row
  in the index of \<open>df\<close>.
\<close>

record incident =
  label :: int
  id_num :: int
  InitialLatitude :: cell
  InitialLongitude :: cell
  FireDiscoveryDateTime :: "timestamp option"
  ControlDateTime :: "timestamp option"
  DailyAcres :: "rat option"

text \<open>
  \<^verbatim>\<open>filtered_df = (df[df['DailyAcres'] > 1])\<close>
  \<^verbatim>\<open>filtered_df = filtered_df[((filtered_df['ControlDateTime'] - filtered_df['FireDiscoveryDateTime']) > timedelta(days=1))]\<close>
\<close>

text \<open>
  The second statement subtracts the two columns of the rows the first one kept and keeps
  the rows at which the mask is true; it raises when the subtraction does.
\<close>

definition filtered_df :: "incident list \<Rightarrow> error + incident list" where
  "filtered_df df =
     (let filtered = filter (\<lambda>r. gt_float (DailyAcres r) 1) df
      in (case series_minus (map ControlDateTime filtered) (map FireDiscoveryDateTime filtered) of
            Inl e \<Rightarrow> Inl e
          | Inr ds \<Rightarrow>
              Inr (map fst (filter (\<lambda>(r, d). gt_timedelta d (timedelta_days 1))
                                   (zip filtered ds)))))"

section \<open>Strings\<close>

text \<open>\<open>s.find(sep)\<close>: the first position at which sep occurs in s, if any.\<close>

fun str_find :: "string \<Rightarrow> string \<Rightarrow> nat option" where
  "str_find [] sep = (if sep = [] then Some 0 else None)"
| "str_find (c # cs) sep =
     (if prefix sep (c # cs) then Some 0 else map_option Suc (str_find cs sep))"

lemma str_find_bound: "str_find s sep = Some i \<Longrightarrow> i + length sep \<le> length s"
proof (induction s arbitrary: i)
  case Nil
  then show ?case by (simp split: if_splits)
next
  case (Cons c cs)
  show ?case
  proof (cases "prefix sep (c # cs)")
    case True
    with Cons.prems have "i = 0" by simp
    with prefix_length_le [OF True] show ?thesis by simp
  next
    case False
    with Cons.prems obtain j where j: "str_find cs sep = Some j" "i = Suc j" by auto
    from Cons.IH [OF j(1)] j(2) show ?thesis by simp
  qed
qed

text \<open>
  \<open>s.split(sep)\<close>: the pieces of s between the occurrences of sep, found from the left
  and not overlapping. Python raises ValueError for an empty separator; the notebook
  only splits at literal, non-empty separators.
\<close>

function str_split :: "string \<Rightarrow> string \<Rightarrow> string list" where
  "str_split s sep =
     (if sep = [] then [s]
      else (case str_find s sep of
              None \<Rightarrow> [s]
            | Some i \<Rightarrow> take i s # str_split (drop (i + length sep) s) sep))"
  by pat_completeness auto
termination
proof (relation "measure (\<lambda>(s, sep). length s)")
  show "wf (measure (\<lambda>(s, sep). length s))" by simp
next
  fix s sep :: string and i :: nat
  assume "sep \<noteq> []" and "str_find s sep = Some i"
  then have "i + length sep \<le> length s" and "0 < length sep"
    by (simp_all add: str_find_bound)
  then have "length s - (i + length sep) < length s"
    by arith
  then show "((drop (i + length sep) s, sep), (s, sep)) \<in> measure (\<lambda>(s, sep). length s)"
    by simp
qed

declare str_split.simps [simp del]

definition END_HEADER :: string where
  "END_HEADER = ''-END HEADER-''"

section \<open>The pandas operations of the collection notebook\<close>

text \<open>A field of a CSV line: the empty field is a missing value, any other is kept as text.\<close>

definition field :: "string \<Rightarrow> cell" where
  "field f = (if f = [] then NaN else StrV f)"

text \<open>
  \<open>pd.read_csv(io.StringIO(text))\<close> with the default options, as far as the notebook
  depends on it: blank lines are skipped; a text with no line left has no columns to
  parse (EmptyDataError); the first line names the columns; every other line is a row,
  its fields padded with missing values up to the number of columns; a row with more
  fields than columns is reported as a tokenizing error (pandas reads one surplus
  leading field as an index; that case is left out). Fields are kept as text (no dtype
  inference), and repeated column names are not renamed.
\<close>

definition read_csv :: "string \<Rightarrow> error + dataframe" where
  "read_csv text =
     (case filter (\<lambda>l. l \<noteq> []) (str_split text [CHR 0x0A]) of
        [] \<Rightarrow> Inl EmptyDataError
      | h # ls \<Rightarrow>
          (let cols = str_split h '','';
               recs = map (\<lambda>l. str_split l '','') ls
           in if list_ex (\<lambda>fs. length cols < length fs) recs then Inl ParserError
              else Inr \<lparr>columns = cols, index_name = None, index = RangeIndex (length recs),
                        rows = map (\<lambda>fs. zip cols (map field fs @ replicate (length cols - length fs) NaN))
                                 recs\<rparr>))"

text \<open>\<open>df[c] = v\<close> with a scalar v: the column is overwritten, or added as the last one.\<close>

definition setitem :: "dataframe \<Rightarrow> string \<Rightarrow> cell \<Rightarrow> dataframe" where
  "setitem df c v =
     df\<lparr>columns := (if c \<in> set (columns df) then columns df else columns df @ [c]),
        rows := map (AList.update c v) (rows df)\<rparr>"

definition union_columns :: "string list \<Rightarrow> string list \<Rightarrow> string list" where
  "union_columns xs ys = xs @ filter (\<lambda>c. c \<notin> set xs) (remdups ys)"

text \<open>
  \<open>pd.concat(objs)\<close> along the rows: \<open>None\<close> objects are dropped silently; if all are
  \<open>None\<close> it raises ValueError. The columns are the union in order of first appearance,
  the rows and the index labels follow each other in the order of the objects.
\<close>

definition pd_concat :: "dataframe option list \<Rightarrow> error + dataframe" where
  "pd_concat objs =
     (case List.map_filter (\<lambda>x. x) objs of
        [] \<Rightarrow> Inl ValueError
      | d # ds \<Rightarrow>
          Inr \<lparr>columns = foldl union_columns [] (map columns (d # ds)),
               index_name = None,
               index = concat (map index (d # ds)),
               rows = concat (map rows (d # ds))\<rparr>)"

text \<open>
  A CSV file as its fields: the header row and the data rows. \<open>to_csv\<close> writes the index
  as the first field of every row only when \<open>index\<close> is true.
\<close>

record csv_file =
  header :: "string list"
  records :: "cell list list"

definition to_csv :: "dataframe \<Rightarrow> bool \<Rightarrow> csv_file" where
  "to_csv df with_index =
     \<lparr>header = (if with_index then [case index_name df of None \<Rightarrow> [] | Some n \<Rightarrow> n] else [])
                 @ columns df,
      records = map (\<lambda>(i, r). (if with_index then [i] else []) @ map (cell_at r) (columns df))
                  (zip (index df) (rows df))\<rparr>"

section \<open>The remote request\<close>

text \<open>
  What \<open>requests.get\<close> does for one call: it raises an instance of the built-in
  \<open>ConnectionError\<close> (the class the handler names), it raises anything else, or it
  returns a response with this text.
\<close>

datatype raised = ConnectionError | OtherException

datatype outcome = Raises raised | Response string

text \<open>The fields of \<^verbatim>\<open>params = f"latitude={lat}&longitude={long}&start={...}&end={...}"\<close>.\<close>

record query =
  latitude :: cell
  longitude :: cell
  q_start :: string
  q_end :: string

text \<open>
  The address a call requests: the base address with the parameters attached
  (\<^verbatim>\<open>base_uri += params\<close>).
\<close>

type_synonym request = "string \<times> query"

text \<open>\<open>strftime\<close> of a missing timestamp (NaT) raises ValueError.\<close>

definition params :: "cell \<Rightarrow> cell \<Rightarrow> timestamp option \<Rightarrow> timestamp option \<Rightarrow> string
    \<Rightarrow> error + query" where
  "params lat long start_date end_date date_filter =
     (case start_date of None \<Rightarrow> Inl ValueError
      | Some s \<Rightarrow>
          (case end_date of None \<Rightarrow> Inl ValueError
           | Some e \<Rightarrow> Inr \<lparr>latitude = lat, longitude = long,
                             q_start = strftime s date_filter, q_end = strftime e date_filter\<rparr>))"

text \<open>
  \<open>build_request_param\<close>, with \<open>requests.get\<close> as the last argument: what the remote
  service does, at the time of the call, with a request to each address. The function
  builds its address and makes one request to it. The result is the value the function
  returns: a data frame, or Python's \<open>None\<close> when the handler of \<open>ConnectionError\<close> has
  printed its message and the function ends without a \<open>return\<close>.
\<close>

definition build_request_param ::
  "int \<Rightarrow> cell \<Rightarrow> cell \<Rightarrow> timestamp option \<Rightarrow> timestamp option \<Rightarrow> dataframe option
    \<Rightarrow> string \<Rightarrow> string \<Rightarrow> (request \<Rightarrow> outcome) \<Rightarrow> error + dataframe option" where
  "build_request_param ident lat long start_date end_date result_df base_uri date_filter get =
     (case params lat long start_date end_date date_filter of
        Inl e \<Rightarrow> Inl e
      | Inr q \<Rightarrow>
          (case get (base_uri, q) of
             Raises ConnectionError \<Rightarrow> Inr None
           | Raises OtherException \<Rightarrow> Inl Propagated
           | Response text \<Rightarrow>
               (let split_text = str_split text END_HEADER in
                if 2 \<le> length split_text then
                  (case read_csv (split_text ! 1) of
                     Inl e \<Rightarrow> Inl e
                   | Inr response_df \<Rightarrow>
                       (let response_df = setitem response_df ''LAT'' lat;
                            response_df = setitem response_df ''LONG'' long;
                            response_df = setitem response_df ''PID'' (IntV ident)
                        in (case pd_concat [result_df, Some response_df] of
                              Inl e \<Rightarrow> Inl e
                            | Inr result_df \<Rightarrow> Inr (Some result_df))))
                else Inr result_df)))"

section \<open>The three campaigns\<close>

text \<open>The arguments of one call of \<open>build_request_param\<close> in a campaign loop.\<close>

record call_args =
  a_id :: int
  a_lat :: cell
  a_long :: cell
  a_start_date :: "timestamp option"
  a_end_date :: "timestamp option"
  a_base_uri :: string
  a_date_filter :: string

text \<open>
  A campaign loop: one call per record, in order, each call given the data frame the
  previous one returned; an exception that leaves a call ends the loop. Every call is
  paired with what the remote service does at the time of the call.
\<close>

fun run_calls :: "(call_args \<times> (request \<Rightarrow> outcome)) list \<Rightarrow> dataframe option
    \<Rightarrow> error + dataframe option" where
  "run_calls [] result_df = Inr result_df"
| "run_calls ((a, get) # rest) result_df =
     (case build_request_param (a_id a) (a_lat a) (a_long a) (a_start_date a) (a_end_date a)
             result_df (a_base_uri a) (a_date_filter a) get of
        Inl e \<Rightarrow> Inl e
      | Inr result_df' \<Rightarrow> run_calls rest result_df')"

definition basic_base_uri :: string where
  "basic_base_uri = ''https://power.larc.nasa.gov/api/temporal/daily/point?time-standard=lst&header=true&format=csv&community=sb&parameters=T2M,T2M_MAX,QV2M,PRECTOTCORR,WS2M,WS2M_MAX,WS10M,WS10M_MAX,GWETTOP,GWETPROF&''"

definition big_fire_base_uri :: string where
  "big_fire_base_uri = ''https://power.larc.nasa.gov/api/temporal/daily/point?time-standard=lst&header=true&format=csv&community=sb&parameters=T2MDEW,T2MWET,RH2M,CLRSKY_SFC_PAR_TOT,ALLSKY_SFC_PAR_TOT,ALLSKY_SFC_UV_INDEX&''"

definition last_180_prec_base_uri :: string where
  "last_180_prec_base_uri = ''https://power.larc.nasa.gov/api/temporal/monthly/point?header=true&format=csv&community=sb&parameters=PRECTOTCORR_SUM,PRECSNO&''"

text \<open>The basic campaign passes the index label of the row as the identifier.\<close>

definition basic_args :: "incident \<Rightarrow> call_args" where
  "basic_args r =
     \<lparr>a_id = label r, a_lat = InitialLatitude r, a_long = InitialLongitude r,
      a_start_date = FireDiscoveryDateTime r, a_end_date = ControlDateTime r,
      a_base_uri = basic_base_uri, a_date_filter = ''%Y%m%d''\<rparr>"

definition big_fire_args :: "incident \<Rightarrow> call_args" where
  "big_fire_args r =
     \<lparr>a_id = id_num r, a_lat = InitialLatitude r, a_long = InitialLongitude r,
      a_start_date = FireDiscoveryDateTime r, a_end_date = ControlDateTime r,
      a_base_uri = big_fire_base_uri, a_date_filter = ''%Y%m%d''\<rparr>"

text \<open>
  The historical campaign computes its start date in the loop, and that can raise before
  the call is made.
\<close>

definition last_180_prec_args :: "incident \<Rightarrow> error + call_args" where
  "last_180_prec_args r =
     (case sub_DateOffset_months (FireDiscoveryDateTime r) 6 of
        Inl e \<Rightarrow> Inl e
      | Inr start \<Rightarrow>
          Inr \<lparr>a_id = id_num r, a_lat = InitialLatitude r, a_long = InitialLongitude r,
               a_start_date = start, a_end_date = FireDiscoveryDateTime r,
               a_base_uri = last_180_prec_base_uri, a_date_filter = ''%Y''\<rparr>)"

text \<open>
  The remote service during a loop: what it does with a request at the time of the k-th
  call (counted from 0). The calls of a loop are paired with it in that order.
\<close>

definition paired :: "(nat \<Rightarrow> request \<Rightarrow> outcome) \<Rightarrow> call_args list
    \<Rightarrow> (call_args \<times> (request \<Rightarrow> outcome)) list" where
  "paired net calls = zip calls (map net [0..<length calls])"

text \<open>
  The loop of the historical campaign, its records paired with the remote service in the
  same way: for each record the arguments are computed, then the call is made; an
  exception in either ends the loop.
\<close>

fun run_records :: "(incident \<Rightarrow> error + call_args) \<Rightarrow> (incident \<times> (request \<Rightarrow> outcome)) list
    \<Rightarrow> dataframe option \<Rightarrow> error + dataframe option" where
  "run_records args [] result_df = Inr result_df"
| "run_records args ((r, get) # rest) result_df =
     (case args r of
        Inl e \<Rightarrow> Inl e
      | Inr a \<Rightarrow>
          (case build_request_param (a_id a) (a_lat a) (a_long a) (a_start_date a) (a_end_date a)
                  result_df (a_base_uri a) (a_date_filter a) get of
             Inl e \<Rightarrow> Inl e
           | Inr result_df' \<Rightarrow> run_records args rest result_df'))"

text \<open>
  The three loops. Each starts from \<open>pd.DataFrame()\<close>; the first runs over \<open>df\<close>, the
  second and the third over \<open>filtered_df\<close>, and so do not start when the filter raises.
\<close>

definition nasa_df :: "(nat \<Rightarrow> request \<Rightarrow> outcome) \<Rightarrow> incident list \<Rightarrow> error + dataframe option" where
  "nasa_df net df = run_calls (paired net (map basic_args df)) (Some DataFrame)"

definition nasa_big_fire_df :: "(nat \<Rightarrow> request \<Rightarrow> outcome) \<Rightarrow> incident list
    \<Rightarrow> error + dataframe option" where
  "nasa_big_fire_df net df =
     (case filtered_df df of
        Inl e \<Rightarrow> Inl e
      | Inr filtered \<Rightarrow> run_calls (paired net (map big_fire_args filtered)) (Some DataFrame))"

definition nasa_last_180_prec_df :: "(nat \<Rightarrow> request \<Rightarrow> outcome) \<Rightarrow> incident list
    \<Rightarrow> error + dataframe option" where
  "nasa_last_180_prec_df net df =
     (case filtered_df df of
        Inl e \<Rightarrow> Inl e
      | Inr filtered \<Rightarrow>
          run_records last_180_prec_args (zip filtered (map net [0..<length filtered]))
            (Some DataFrame))"

text \<open>
  \<^verbatim>\<open>nasa_df.to_csv(path, index=False)\<close> after the loop; on \<open>None\<close> the attribute lookup
  fails.
\<close>

definition store :: "dataframe option \<Rightarrow> error + csv_file" where
  "store result_df =
     (case result_df of None \<Rightarrow> Inl AttributeError | Some d \<Rightarrow> Inr (to_csv d False))"

section \<open>The pandas operations of the merging notebook\<close>

text \<open>
  \<open>left.merge(right, left_on=..., right_on=...)\<close> with the default \<open>how='inner'\<close> and
  the default suffixes. A key that is not a column raises KeyError. A column name that
  both tables have gets the suffix \<open>_x\<close> on the left and \<open>_y\<close> on the right; the one
  exception is the key when both sides name it alike (as with \<open>on=\<close>): then it stays
  once, unsuffixed. The rows are the pairs of a left and a right row with equal keys
  (missing keys match each other), in the order of the left rows; the index is a fresh
  RangeIndex. The dtype check of the keys is not modelled.
\<close>

definition left_name :: "string list \<Rightarrow> string \<Rightarrow> string \<Rightarrow> string \<Rightarrow> string" where
  "left_name right_columns left_on right_on c =
     (if c \<in> set right_columns \<and> \<not> (c = left_on \<and> c = right_on) then c @ ''_x'' else c)"

definition right_kept :: "string list \<Rightarrow> string \<Rightarrow> string \<Rightarrow> string list" where
  "right_kept right_columns left_on right_on =
     filter (\<lambda>c. \<not> (c = right_on \<and> left_on = right_on)) right_columns"

definition right_name :: "string list \<Rightarrow> string \<Rightarrow> string" where
  "right_name left_columns c = (if c \<in> set left_columns then c @ ''_y'' else c)"

definition merged_row :: "dataframe \<Rightarrow> dataframe \<Rightarrow> string \<Rightarrow> string \<Rightarrow> row \<Rightarrow> row \<Rightarrow> row" where
  "merged_row left right left_on right_on l r =
     map (\<lambda>c. (left_name (columns right) left_on right_on c, cell_at l c)) (columns left)
     @ map (\<lambda>c. (right_name (columns left) c, cell_at r c))
         (right_kept (columns right) left_on right_on)"

definition merge :: "dataframe \<Rightarrow> dataframe \<Rightarrow> string \<Rightarrow> string \<Rightarrow> error + dataframe" where
  "merge left right left_on right_on =
     (if left_on \<notin> set (columns left) \<or> right_on \<notin> set (columns right) then Inl KeyError
      else
        (let matched =
               concat (map (\<lambda>l. map (merged_row left right left_on right_on l)
                                   (filter (\<lambda>r. cell_at l left_on = cell_at r right_on)
                                      (rows right)))
                         (rows left))
         in Inr \<lparr>columns = map (left_name (columns right) left_on right_on) (columns left)
                          @ map (right_name (columns left))
                              (right_kept (columns right) left_on right_on),
                  index_name = None,
                  index = RangeIndex (length matched),
                  rows = matched\<rparr>))"

text \<open>
  \<open>df.drop(columns = labels)\<close> with the default \<open>errors='raise'\<close>: a label that is not
  a column raises KeyError.
\<close>

definition drop_columns :: "dataframe \<Rightarrow> string list \<Rightarrow> error + dataframe" where
  "drop_columns df labels =
     (if list_ex (\<lambda>c. c \<notin> set (columns df)) labels then Inl KeyError
      else Inr (df\<lparr>columns := filter (\<lambda>c. c \<notin> set labels) (columns df),
                   rows := map (filter (\<lambda>p. fst p \<notin> set labels)) (rows df)\<rparr>))"

text \<open>
  \<open>df.set_index(key, inplace = True)\<close>: the column becomes the index and leaves the
  columns; a key that is not a column raises KeyError.
\<close>

definition set_index :: "dataframe \<Rightarrow> string \<Rightarrow> error + dataframe" where
  "set_index df key =
     (if key \<notin> set (columns df) then Inl KeyError
      else Inr (df\<lparr>columns := filter (\<lambda>c. c \<noteq> key) (columns df),
                   index_name := Some key,
                   index := map (\<lambda>r. cell_at r key) (rows df),
                   rows := map (filter (\<lambda>p. fst p \<noteq> key)) (rows df)\<rparr>))"

section \<open>The two master tables\<close>

definition cols :: "string list" where
  "cols = [''UniqueFireIdentifier'', ''X'', ''Y'', ''ContainmentDateTime'', ''ControlDateTime'',
     ''DailyAcres'', ''FireCause'', ''FireDiscoveryDateTime'', ''IncidentTypeCategory'',
     ''IncidentTypeKind'', ''InitialLatitude'', ''InitialLongitude'', ''IrwinID'',
     ''LocalIncidentIdentifier'', ''POOCounty'', ''POODispatchCenterID'', ''POOFips'', ''POOState'',
     ''fire_id_x'', ''x'', ''y'', ''firecause'', ''firediscoverydatetime'', ''incidenttypecategory'',
     ''containmentdatetime'', ''controldatetime'', ''dailyacres'', ''discoveryacres'',
     ''incidenttypekind'', ''initiallatitude'', ''initiallongitude'', ''rain_sum'', ''fire_id_y'',
     ''irwinid'', ''localincidentidentifier'', ''poocounty'', ''poodispatchcenterid'', ''poofips'',
     ''poostate'', ''uniquefireidentifier'', ''wind_speed_2m_mean'', ''wind_speed_2m_max_mean'',
     ''wind_speed_10m_mean'', ''wind_speed_10m_max_mean'', ''humidity_mean'', ''temp_2m_mean'']"

text \<open>
  The last two steps of either path:
  \<^verbatim>\<open>master_dataset = data2.drop(columns = cols)\<close>
  \<^verbatim>\<open>master_dataset.set_index('id', inplace = True)\<close>
\<close>

definition drop_and_set_index :: "dataframe \<Rightarrow> string list \<Rightarrow> error + dataframe" where
  "drop_and_set_index df labels =
     (case drop_columns df labels of
        Inl e \<Rightarrow> Inl e
      | Inr d \<Rightarrow> set_index d ''id'')"

text \<open>
  \<^verbatim>\<open>data = historical_precip.merge(wildfires, on='UniqueFireIdentifier')\<close>
  \<^verbatim>\<open>data1 = data.merge(weather, left_on = 'id', right_on = 'id')\<close>
  \<^verbatim>\<open>data2 = data1.merge(landcover, left_on = 'id', right_on = 'fire_id')\<close>
\<close>

definition data2 :: "dataframe \<Rightarrow> dataframe \<Rightarrow> dataframe \<Rightarrow> dataframe \<Rightarrow> error + dataframe" where
  "data2 wildfires landcover historical_precip weather =
     (case merge historical_precip wildfires ''UniqueFireIdentifier'' ''UniqueFireIdentifier'' of
        Inl e \<Rightarrow> Inl e
      | Inr data \<Rightarrow>
          (case merge data weather ''id'' ''id'' of
             Inl e \<Rightarrow> Inl e
           | Inr data1 \<Rightarrow> merge data1 landcover ''id'' ''fire_id''))"

definition master_dataset :: "dataframe \<Rightarrow> dataframe \<Rightarrow> dataframe \<Rightarrow> dataframe
    \<Rightarrow> error + dataframe" where
  "master_dataset wildfires landcover historical_precip weather =
     (case data2 wildfires landcover historical_precip weather of
        Inl e \<Rightarrow> Inl e
      | Inr d \<Rightarrow> drop_and_set_index d cols)"

text \<open>
  \<^verbatim>\<open>data_1 = wildfires.merge(weather, left_on = 'fire_id', right_on = 'id')\<close>
  \<^verbatim>\<open>data_2 = data_1.merge(landcover, left_on = 'id', right_on = 'fire_id')\<close>
\<close>

definition data_2 :: "dataframe \<Rightarrow> dataframe \<Rightarrow> dataframe \<Rightarrow> error + dataframe" where
  "data_2 wildfires landcover weather =
     (case merge wildfires weather ''fire_id'' ''id'' of
        Inl e \<Rightarrow> Inl e
      | Inr data_1 \<Rightarrow> merge data_1 landcover ''id'' ''fire_id'')"

definition master_dataset_allfires :: "dataframe \<Rightarrow> dataframe \<Rightarrow> dataframe \<Rightarrow> error + dataframe" where
  "master_dataset_allfires wildfires landcover weather =
     (case data_2 wildfires landcover weather of
        Inl e \<Rightarrow> Inl e
      | Inr d \<Rightarrow> drop_and_set_index d cols)"

text \<open>
  The two exports, both \<^verbatim>\<open>to_csv(path, index = False)\<close>.
\<close>

definition master_dataset_csv :: "dataframe \<Rightarrow> dataframe \<Rightarrow> dataframe \<Rightarrow> dataframe
    \<Rightarrow> error + csv_file" where
  "master_dataset_csv wildfires landcover historical_precip weather =
     (case master_dataset wildfires landcover historical_precip weather of
        Inl e \<Rightarrow> Inl e
      | Inr m \<Rightarrow> Inr (to_csv m False))"

definition master_dataset_allfires_csv :: "dataframe \<Rightarrow> dataframe \<Rightarrow> dataframe
    \<Rightarrow> error + csv_file" where
  "master_dataset_allfires_csv wildfires landcover weather =
     (case master_dataset_allfires wildfires landcover weather of
        Inl e \<Rightarrow> Inl e
      | Inr m \<Rightarrow> Inr (to_csv m False))"

section \<open>Notions the properties are stated with\<close>

text \<open>
  The record filter as the specification words it: a record qualifies iff its area metric
  is present and greater than 1, both timestamps are present, and control minus discovery
  is more than one day.
\<close>

definition select_spec :: "incident \<Rightarrow> bool" where
  "select_spec r =
     (case DailyAcres r of None \<Rightarrow> False
      | Some a \<Rightarrow>
          (case ControlDateTime r of None \<Rightarrow> False
           | Some c \<Rightarrow>
               (case FireDiscoveryDateTime r of None \<Rightarrow> False
                | Some d \<Rightarrow> 1 < a \<and> day_ns < ts_ns c - ts_ns d)))"

text \<open>
  A record whose area metric is greater than 1 and whose two timestamps lie further apart
  than a Timedelta can hold (2 to the power 63 nanoseconds, about 292 years).
\<close>

definition beyond_timedelta :: "incident \<Rightarrow> bool" where
  "beyond_timedelta r =
     (case DailyAcres r of None \<Rightarrow> False
      | Some a \<Rightarrow>
          (case ControlDateTime r of None \<Rightarrow> False
           | Some c \<Rightarrow>
               (case FireDiscoveryDateTime r of None \<Rightarrow> False
                | Some d \<Rightarrow> 1 < a \<and> (ts_ns c - ts_ns d < - (2 ^ 63) \<or> 2 ^ 63 \<le> ts_ns c - ts_ns d))))"

text \<open>
  The timestamp s lies n calendar months before d: the month count (twelve per year) is
  n less, the day of the month is that of d unless the month of s is shorter, and the
  time of day is the same.
\<close>

definition calendar_months_before :: "nat \<Rightarrow> timestamp \<Rightarrow> timestamp \<Rightarrow> bool" where
  "calendar_months_before n d s =
     (12 * year s + month s + n = 12 * year d + month d \<and>
      1 \<le> month s \<and> month s \<le> 12 \<and>
      day s = min (day d) (days_in_month (year s) (month s)) \<and>
      nanos s = nanos d)"

text \<open>
  The timestamp n calendar months before d, counted on the months since year 0 (twelve
  per year, January of year 0 being month 0); for a date from year 1 on and n up to 12
  the count stays positive.
\<close>

definition months_before :: "nat \<Rightarrow> timestamp \<Rightarrow> timestamp" where
  "months_before n d =
     (let k = 12 * year d + (month d - 1) - n;
          y = k div 12;
          m = k mod 12 + 1
      in \<lparr>year = y, month = m, day = min (day d) (days_in_month y m), nanos = nanos d\<rparr>)"

text \<open>A year below 10000 as its four decimal digits.\<close>

definition decimal_digit :: "nat \<Rightarrow> char" where
  "decimal_digit d =
     (if d = 0 then CHR ''0'' else if d = 1 then CHR ''1'' else if d = 2 then CHR ''2''
      else if d = 3 then CHR ''3'' else if d = 4 then CHR ''4'' else if d = 5 then CHR ''5''
      else if d = 6 then CHR ''6'' else if d = 7 then CHR ''7'' else if d = 8 then CHR ''8''
      else CHR ''9'')"

definition year4 :: "nat \<Rightarrow> string" where
  "year4 y = [decimal_digit (y div 1000 mod 10), decimal_digit (y div 100 mod 10),
              decimal_digit (y div 10 mod 10), decimal_digit (y mod 10)]"

text \<open>
  The tabular payload of a response text: the text after the first marker, up to the
  second marker if there is one; none when the text has no marker.
\<close>

definition payload_of :: "string \<Rightarrow> string option" where
  "payload_of body =
     (case str_find body END_HEADER of
        None \<Rightarrow> None
      | Some i \<Rightarrow>
          (let rest = drop (i + length END_HEADER) body
           in (case str_find rest END_HEADER of
                 None \<Rightarrow> Some rest
               | Some j \<Rightarrow> Some (take j rest))))"

text \<open>
  The rows a response text holds for a record: the rows of its payload read as CSV, each
  with the record's latitude, longitude and identifier; none when the text has no marker.
\<close>

definition tagged :: "int \<Rightarrow> cell \<Rightarrow> cell \<Rightarrow> row \<Rightarrow> row" where
  "tagged ident lat long r =
     AList.update ''PID'' (IntV ident) (AList.update ''LONG'' long (AList.update ''LAT'' lat r))"

definition response_rows :: "int \<Rightarrow> cell \<Rightarrow> cell \<Rightarrow> string \<Rightarrow> row list" where
  "response_rows ident lat long body =
     (case payload_of body of
        None \<Rightarrow> []
      | Some p \<Rightarrow>
          (case read_csv p of Inl e \<Rightarrow> [] | Inr d \<Rightarrow> map (tagged ident lat long) (rows d)))"

text \<open>A response text is usable when it has no marker or its payload reads as CSV.\<close>

definition usable :: "string \<Rightarrow> bool" where
  "usable body =
     (case payload_of body of
        None \<Rightarrow> True
      | Some p \<Rightarrow> (case read_csv p of Inl e \<Rightarrow> False | Inr d \<Rightarrow> True))"

text \<open>
  The request a call sends (none when a date is missing), whether the service answers it
  with a usable response, and the rows that response holds for the call.
\<close>

definition sent_request :: "call_args \<Rightarrow> request option" where
  "sent_request a =
     (case a_start_date a of None \<Rightarrow> None
      | Some s \<Rightarrow>
          (case a_end_date a of None \<Rightarrow> None
           | Some e \<Rightarrow>
               Some (a_base_uri a,
                     \<lparr>latitude = a_lat a, longitude = a_long a,
                      q_start = strftime s (a_date_filter a),
                      q_end = strftime e (a_date_filter a)\<rparr>)))"

definition answered :: "call_args \<times> (request \<Rightarrow> outcome) \<Rightarrow> bool" where
  "answered c =
     (case sent_request (fst c) of
        None \<Rightarrow> False
      | Some rq \<Rightarrow> (case snd c rq of Raises x \<Rightarrow> False | Response body \<Rightarrow> usable body))"

definition fetched_rows :: "call_args \<times> (request \<Rightarrow> outcome) \<Rightarrow> row list" where
  "fetched_rows c =
     (case sent_request (fst c) of
        None \<Rightarrow> []
      | Some rq \<Rightarrow>
          (case snd c rq of
             Raises x \<Rightarrow> []
           | Response body \<Rightarrow> response_rows (a_id (fst c)) (a_lat (fst c)) (a_long (fst c)) body))"

text \<open>
  The request of the historical-precipitation campaign for a record discovered at D: the
  monthly address, the record's coordinates, and the years of the day six calendar
  months before D and of D. Whether the service answers it usably at some call, and the
  rows the answer holds for the record.
\<close>

definition historical_request :: "incident \<Rightarrow> timestamp \<Rightarrow> request" where
  "historical_request r D =
     (last_180_prec_base_uri,
      \<lparr>latitude = InitialLatitude r, longitude = InitialLongitude r,
       q_start = year4 (year (months_before 6 D)), q_end = year4 (year D)\<rparr>)"

definition historical_answered :: "(request \<Rightarrow> outcome) \<Rightarrow> incident \<Rightarrow> bool" where
  "historical_answered get r =
     (case FireDiscoveryDateTime r of
        None \<Rightarrow> False
      | Some D \<Rightarrow>
          (case get (historical_request r D) of
             Raises x \<Rightarrow> False
           | Response body \<Rightarrow> usable body))"

definition historical_rows :: "(request \<Rightarrow> outcome) \<Rightarrow> incident \<Rightarrow> row list" where
  "historical_rows get r =
     (case FireDiscoveryDateTime r of
        None \<Rightarrow> []
      | Some D \<Rightarrow>
          (case get (historical_request r D) of
             Raises x \<Rightarrow> []
           | Response body \<Rightarrow>
               response_rows (id_num r) (InitialLatitude r) (InitialLongitude r) body))"

section \<open>Example data\<close>

text \<open>The incident of the specification's example scenario, and variants of it.\<close>

definition ex_disc :: timestamp where
  "ex_disc = \<lparr>year = 2020, month = 7, day = 19, nanos = 82800000000000\<rparr>"

definition ex_ctrl :: timestamp where
  "ex_ctrl = \<lparr>year = 2020, month = 9, day = 2, nanos = 54000000000000\<rparr>"

definition ex_ctrl_soon :: timestamp where
  "ex_ctrl_soon = \<lparr>year = 2020, month = 7, day = 20, nanos = 82800000000000\<rparr>"

definition ex_fire :: incident where
  "ex_fire = \<lparr>label = 1, id_num = 1, InitialLatitude = FltV (40602563 / 1000000),
     InitialLongitude = FltV (- (115719777 / 1000000)),
     FireDiscoveryDateTime = Some ex_disc, ControlDateTime = Some ex_ctrl,
     DailyAcres = Some (59859 / 10)\<rparr>"

definition ex_no_control :: incident where
  "ex_no_control = ex_fire\<lparr>label := 4, id_num := 4, ControlDateTime := None\<rparr>"

definition ex_no_acres :: incident where
  "ex_no_acres = ex_fire\<lparr>label := 5, id_num := 5, DailyAcres := None\<rparr>"

definition ex_df :: "incident list" where
  "ex_df = [ex_fire,
     ex_fire\<lparr>label := 2, id_num := 2, DailyAcres := Some 1\<rparr>,
     ex_fire\<lparr>label := 3, id_num := 3, ControlDateTime := Some ex_ctrl_soon\<rparr>,
     ex_no_control,
     ex_no_acres]"

definition ex_three_fires :: "incident list" where
  "ex_three_fires = [ex_fire\<lparr>label := 0\<rparr>, ex_fire\<lparr>label := 1\<rparr>, ex_fire\<lparr>label := 2\<rparr>]"

definition ex_payload_two_rows :: string where
  "ex_payload_two_rows = ''\<newline>YEAR,T2M\<newline>2020,25.1\<newline>2020,26.3\<newline>''"

definition ex_payload_one_row :: string where
  "ex_payload_one_row = ''\<newline>YEAR,T2M\<newline>2021,30.2\<newline>''"

definition ex_body_two_rows :: string where
  "ex_body_two_rows = ''POWER-END HEADER-'' @ ex_payload_two_rows"

definition ex_body_one_row :: string where
  "ex_body_one_row = ''POWER-END HEADER-'' @ ex_payload_one_row"

definition ex_body_no_marker :: string where
  "ex_body_no_marker = ''No data for this point''"

definition ex_body_empty_segment :: string where
  "ex_body_empty_segment = ''POWER-END HEADER-''"

definition ex_body_two_markers :: string where
  "ex_body_two_markers =
     ''POWER-END HEADER-'' @ ex_payload_one_row @ ''-END HEADER-'' @ ex_payload_two_rows"

text \<open>Three requests that are all answered; the second answer has no marker.\<close>

definition ex_net_ok :: "nat \<Rightarrow> request \<Rightarrow> outcome" where
  "ex_net_ok k rq = (if k = 0 then Response ex_body_two_rows
                     else if k = 1 then Response ex_body_no_marker
                     else Response ex_body_one_row)"

text \<open>Three requests of which the second raises \<open>ConnectionError\<close>.\<close>

definition ex_net_fail :: "nat \<Rightarrow> request \<Rightarrow> outcome" where
  "ex_net_fail k rq = (if k = 0 then Response ex_body_two_rows
                       else if k = 1 then Raises ConnectionError
                       else Response ex_body_one_row)"

text \<open>
  A fire discovered on 31 March 2021 and controlled two weeks later, and the table of it
  and the first example fire. Six months before its discovery is 30 September 2020.
\<close>

definition ex_spring_disc :: timestamp where
  "ex_spring_disc = \<lparr>year = 2021, month = 3, day = 31, nanos = 36000000000000\<rparr>"

definition ex_spring_ctrl :: timestamp where
  "ex_spring_ctrl = \<lparr>year = 2021, month = 4, day = 15, nanos = 36000000000000\<rparr>"

definition ex_spring_fire :: incident where
  "ex_spring_fire = ex_fire\<lparr>label := 6, id_num := 6, FireDiscoveryDateTime := Some ex_spring_disc,
     ControlDateTime := Some ex_spring_ctrl\<rparr>"

text \<open>The days six calendar months before the two discovery dates.\<close>

definition ex_start :: timestamp where
  "ex_start = \<lparr>year = 2020, month = 1, day = 19, nanos = 82800000000000\<rparr>"

definition ex_spring_start :: timestamp where
  "ex_spring_start = \<lparr>year = 2020, month = 9, day = 30, nanos = 36000000000000\<rparr>"

definition ex_two_fires :: "incident list" where
  "ex_two_fires = [ex_fire, ex_spring_fire]"

text \<open>
  A record whose control date (1 January 2200) lies five hundred years after its
  discovery date (1 January 1700); both are dates a Timestamp can hold.
\<close>

definition ex_long_disc :: timestamp where
  "ex_long_disc = \<lparr>year = 1700, month = 1, day = 1, nanos = 0\<rparr>"

definition ex_long_ctrl :: timestamp where
  "ex_long_ctrl = \<lparr>year = 2200, month = 1, day = 1, nanos = 0\<rparr>"

definition ex_long_fire :: incident where
  "ex_long_fire = ex_fire\<lparr>label := 7, id_num := 7,
     FireDiscoveryDateTime := Some ex_long_disc, ControlDateTime := Some ex_long_ctrl\<rparr>"

text \<open>
  A record discovered on 1 December 1677 and controlled on 15 January 1678, and the day
  six calendar months before its discovery.
\<close>

definition ex_early_disc :: timestamp where
  "ex_early_disc = \<lparr>year = 1677, month = 12, day = 1, nanos = 0\<rparr>"

definition ex_early_start :: timestamp where
  "ex_early_start = \<lparr>year = 1677, month = 6, day = 1, nanos = 0\<rparr>"

definition ex_early_ctrl :: timestamp where
  "ex_early_ctrl = \<lparr>year = 1678, month = 1, day = 15, nanos = 0\<rparr>"

definition ex_early_fire :: incident where
  "ex_early_fire = ex_fire\<lparr>label := 8, id_num := 8,
     FireDiscoveryDateTime := Some ex_early_disc, ControlDateTime := Some ex_early_ctrl\<rparr>"

definition ex_lat :: cell where
  "ex_lat = FltV (40602563 / 1000000)"

definition ex_long :: cell where
  "ex_long = FltV (- (115719777 / 1000000))"

text \<open>The rows a response yields for the identifier i.\<close>

definition ex_rows_two :: "int \<Rightarrow> row list" where
  "ex_rows_two i =
     [[(''YEAR'', StrV ''2020''), (''T2M'', StrV ''25.1''), (''LAT'', ex_lat), (''LONG'', ex_long),
       (''PID'', IntV i)],
      [(''YEAR'', StrV ''2020''), (''T2M'', StrV ''26.3''), (''LAT'', ex_lat), (''LONG'', ex_long),
       (''PID'', IntV i)]]"

definition ex_rows_one :: "int \<Rightarrow> row list" where
  "ex_rows_one i =
     [[(''YEAR'', StrV ''2021''), (''T2M'', StrV ''30.2''), (''LAT'', ex_lat), (''LONG'', ex_long),
       (''PID'', IntV i)]]"

definition ex_columns :: "string list" where
  "ex_columns = [''YEAR'', ''T2M'', ''LAT'', ''LONG'', ''PID'']"

definition ex_table :: dataframe where
  "ex_table = \<lparr>columns = ex_columns, index_name = None, index = [IntV 0, IntV 1],
                rows = ex_rows_two 0\<rparr>"


text \<open>
  A service that answers the monthly address for the example coordinates only: the request
  for the years 2020 to 2020 at the first call, the request for the years 2020 to 2021 at
  the second; every other request fails.
\<close>

definition ex_net_hist :: "nat \<Rightarrow> request \<Rightarrow> outcome" where
  "ex_net_hist k rq =
     (if k = 0 \<and> rq = (last_180_prec_base_uri,
                          \<lparr>latitude = ex_lat, longitude = ex_long,
                           q_start = ''2020'', q_end = ''2020''\<rparr>)
      then Response ex_body_two_rows
      else if k = 1 \<and> rq = (last_180_prec_base_uri,
                               \<lparr>latitude = ex_lat, longitude = ex_long,
                                q_start = ''2020'', q_end = ''2021''\<rparr>)
      then Response ex_body_one_row
      else Raises OtherException)"

section \<open>Notions and example tables for the merging notebook\<close>

text \<open>
  The pairs of a left and a right row with equal keys, in the order in which \<open>merge\<close>
  produces its rows.
\<close>

definition match_pairs :: "(row \<Rightarrow> cell) \<Rightarrow> (row \<Rightarrow> cell) \<Rightarrow> row list \<Rightarrow> row list
    \<Rightarrow> (row \<times> row) list" where
  "match_pairs kl kr ls rs = concat (map (\<lambda>l. map (Pair l) (filter (\<lambda>r. kl l = kr r) rs)) ls)"

text \<open>A table is keyed by a column when no value occurs twice in it.\<close>

definition keyed_by :: "dataframe \<Rightarrow> string \<Rightarrow> bool" where
  "keyed_by df c = distinct (column_values df c)"

text \<open>All cells of a table, row by row.\<close>

definition table_cells :: "dataframe \<Rightarrow> cell list" where
  "table_cells df = concat (map (\<lambda>r. map (cell_at r) (columns df)) (rows df))"

text \<open>
  Four small source tables with the column names the drop list expects. Fires 1 and 2
  have historical precipitation, fires 1, 2 and 3 have weather, fires 1 and 3 have a land
  cover; rows list only the cells that are not missing.
\<close>

definition ex_historical_precip :: dataframe where
  "ex_historical_precip =
     \<lparr>columns = [''id'', ''UniqueFireIdentifier'', ''rain_sum'', ''snow_sum''],
      index_name = None, index = RangeIndex 2,
      rows = [[(''id'', IntV 1), (''UniqueFireIdentifier'', StrV ''2020-A''), (''snow_sum'', FltV 3)],
              [(''id'', IntV 2), (''UniqueFireIdentifier'', StrV ''2020-B''), (''snow_sum'', FltV 0)]]\<rparr>"

definition ex_wildfires :: dataframe where
  "ex_wildfires =
     \<lparr>columns = [''X'', ''Y'', ''ContainmentDateTime'', ''ControlDateTime'', ''DailyAcres'',
        ''DiscoveryAcres'', ''FireCause'', ''FireDiscoveryDateTime'', ''IncidentTypeCategory'',
        ''IncidentTypeKind'', ''InitialLatitude'', ''InitialLongitude'', ''IrwinID'',
        ''LocalIncidentIdentifier'', ''POOCounty'', ''POODispatchCenterID'', ''POOFips'', ''POOState'',
        ''UniqueFireIdentifier'', ''fire_id''],
      index_name = None, index = RangeIndex 3,
      rows = [[(''DiscoveryAcres'', FltV 5), (''UniqueFireIdentifier'', StrV ''2020-A''),
               (''fire_id'', IntV 1)],
              [(''DiscoveryAcres'', FltV 2), (''UniqueFireIdentifier'', StrV ''2020-B''),
               (''fire_id'', IntV 2)],
              [(''DiscoveryAcres'', FltV 1), (''UniqueFireIdentifier'', StrV ''2020-C''),
               (''fire_id'', IntV 3)]]\<rparr>"

definition ex_weather_columns :: "string list" where
  "ex_weather_columns = [''id'', ''x'', ''y'', ''firecause'', ''firediscoverydatetime'',
     ''incidenttypecategory'', ''containmentdatetime'', ''controldatetime'', ''dailyacres'',
     ''discoveryacres'', ''incidenttypekind'', ''initiallatitude'', ''initiallongitude'',
     ''irwinid'', ''localincidentidentifier'', ''poocounty'', ''poodispatchcenterid'', ''poofips'',
     ''poostate'', ''uniquefireidentifier'', ''wind_speed_2m_mean'', ''wind_speed_2m_max_mean'',
     ''wind_speed_10m_mean'', ''wind_speed_10m_max_mean'', ''humidity_mean'', ''temp_2m_mean'',
     ''temp_2m_max'']"

definition ex_weather_rows :: "row list" where
  "ex_weather_rows = [[(''id'', IntV 1), (''temp_2m_max'', FltV 31)],
                      [(''id'', IntV 2), (''temp_2m_max'', FltV 28)],
                      [(''id'', IntV 3), (''temp_2m_max'', FltV 25)]]"

definition ex_weather :: dataframe where
  "ex_weather = \<lparr>columns = ex_weather_columns, index_name = None, index = RangeIndex 3,
                  rows = ex_weather_rows\<rparr>"

text \<open>The same weather with a column \<open>rain_sum\<close>, which the all-fires path has no other source for.\<close>

definition ex_weather_rain :: dataframe where
  "ex_weather_rain = \<lparr>columns = ex_weather_columns @ [''rain_sum''], index_name = None,
                       index = RangeIndex 3, rows = ex_weather_rows\<rparr>"

definition ex_landcover :: dataframe where
  "ex_landcover =
     \<lparr>columns = [''fire_id'', ''landcover''], index_name = None, index = RangeIndex 2,
      rows = [[(''fire_id'', IntV 1), (''landcover'', StrV ''forest'')],
              [(''fire_id'', IntV 3), (''landcover'', StrV ''shrub'')]]\<rparr>"

text \<open>
  Source tables in which a fire is numbered 99 in the precipitation, weather and land-cover
  tables, while the wildfire table knows the same fire (by its unique fire identifier)
  under the number 1.
\<close>

definition ex_historical_precip_99 :: dataframe where
  "ex_historical_precip_99 =
     \<lparr>columns = [''id'', ''UniqueFireIdentifier'', ''rain_sum'', ''snow_sum''],
      index_name = None, index = RangeIndex 1,
      rows = [[(''id'', IntV 99), (''UniqueFireIdentifier'', StrV ''2020-A''),
               (''snow_sum'', FltV 3)]]\<rparr>"

definition ex_weather_99 :: dataframe where
  "ex_weather_99 = \<lparr>columns = ex_weather_columns, index_name = None, index = RangeIndex 1,
                     rows = [[(''id'', IntV 99), (''temp_2m_max'', FltV 31)]]\<rparr>"

definition ex_landcover_99 :: dataframe where
  "ex_landcover_99 =
     \<lparr>columns = [''fire_id'', ''landcover''], index_name = None, index = RangeIndex 1,
      rows = [[(''fire_id'', IntV 99), (''landcover'', StrV ''forest'')]]\<rparr>"

text \<open>A table to project, with the identifier, one redundant and one kept column.\<close>

definition ex_small :: dataframe where
  "ex_small =
     \<lparr>columns = [''id'', ''X'', ''landcover''], index_name = None, index = RangeIndex 2,
      rows = [[(''id'', IntV 7), (''X'', FltV 1), (''landcover'', StrV ''forest'')],
              [(''id'', IntV 9), (''X'', FltV 2), (''landcover'', StrV ''shrub'')]]\<rparr>"

text \<open>The files the two exports write for the example tables.\<close>

definition ex_master_file :: csv_file where
  "ex_master_file =
     \<lparr>header = [''snow_sum'', ''DiscoveryAcres'', ''temp_2m_max'', ''landcover''],
      records = [[FltV 3, FltV 5, FltV 31, StrV ''forest'']]\<rparr>"

definition ex_master_allfires_file :: csv_file where
  "ex_master_allfires_file =
     \<lparr>header = [''DiscoveryAcres'', ''temp_2m_max'', ''landcover''],
      records = [[FltV 5, FltV 31, StrV ''forest''], [FltV 1, FltV 25, StrV ''shrub'']]\<rparr>"

section \<open>The record filter\<close>

text \<open>The subtraction of the two columns: where it raises, and what it gives where it does not.\<close>

lemma series_minus_raises:
  assumes "r \<in> set xs" and "ts_minus (f r) (g r) = Inl OverflowError"
    and "\<forall>x\<in>set xs. \<forall>e. ts_minus (f x) (g x) = Inl e \<longrightarrow> e = OverflowError"
  shows "series_minus (map f xs) (map g xs) = Inl OverflowError"
  using assms
proof (induction xs)
  case Nil
  then show ?case by simp
next
  case (Cons x xs)
  show ?case
  proof (cases "ts_minus (f x) (g x)")
    case (Inl e)
    with Cons.prems(3) have "e = OverflowError" by simp
    with Inl show ?thesis by simp
  next
    case (Inr d)
    with Cons.prems(1,2) have "r \<in> set xs" by auto
    from Cons.IH [OF this Cons.prems(2)] Cons.prems(3)
    have "series_minus (map f xs) (map g xs) = Inl OverflowError" by simp
    with Inr show ?thesis by simp
  qed
qed

lemma series_minus_returns:
  assumes "\<forall>x\<in>set xs. ts_minus (f x) (g x) = Inr (h x)"
  shows "series_minus (map f xs) (map g xs) = Inr (map h xs)"
  using assms by (induction xs) simp_all

lemma mask_filter:
  "map fst (filter (\<lambda>(r, d). P d) (zip xs (map h xs))) = filter (\<lambda>r. P (h r)) xs"
  by (induction xs) simp_all

lemma ts_minus_error: "ts_minus a b = Inl e \<Longrightarrow> e = OverflowError"
  by (auto simp: ts_minus_def Let_def split: option.splits if_splits)

lemma filtered_df_conv:
  "filtered_df df = (if list_ex beyond_timedelta df then Inl OverflowError
                     else Inr (filter select_spec df))"
proof (cases "list_ex beyond_timedelta df")
  case True
  then obtain r where r: "r \<in> set df" and b: "beyond_timedelta r"
    by (auto simp: list_ex_iff)
  let ?F = "filter (\<lambda>r. gt_float (DailyAcres r) 1) df"
  from r b have m: "r \<in> set ?F"
    by (auto simp: beyond_timedelta_def gt_float_def split: option.splits)
  from b have o: "ts_minus (ControlDateTime r) (FireDiscoveryDateTime r) = Inl OverflowError"
    by (auto simp: beyond_timedelta_def ts_minus_def Let_def split: option.splits)
  have "series_minus (map ControlDateTime ?F) (map FireDiscoveryDateTime ?F) = Inl OverflowError"
    by (rule series_minus_raises [where f = ControlDateTime and g = FireDiscoveryDateTime, OF m o])
       (blast dest: ts_minus_error)
  with True show ?thesis
    by (simp add: filtered_df_def Let_def)
next
  case False
  let ?F = "filter (\<lambda>r. gt_float (DailyAcres r) 1) df"
  let ?h = "\<lambda>r. case ControlDateTime r of None \<Rightarrow> None
                 | Some c \<Rightarrow> (case FireDiscoveryDateTime r of None \<Rightarrow> None
                             | Some d \<Rightarrow> Some (ts_ns c - ts_ns d))"
  have "\<forall>x\<in>set ?F. ts_minus (ControlDateTime x) (FireDiscoveryDateTime x) = Inr (?h x)"
  proof
    fix x assume x: "x \<in> set ?F"
    with False have "\<not> beyond_timedelta x"
      by (auto simp: list_ex_iff)
    with x show "ts_minus (ControlDateTime x) (FireDiscoveryDateTime x) = Inr (?h x)"
      by (auto simp: beyond_timedelta_def gt_float_def ts_minus_def Let_def split: option.splits)
  qed
  then have s: "series_minus (map ControlDateTime ?F) (map FireDiscoveryDateTime ?F)
                = Inr (map ?h ?F)"
    by (rule series_minus_returns)
  have "filter (\<lambda>r. gt_timedelta (?h r) (timedelta_days 1)) ?F = filter select_spec df"
    unfolding filter_filter
    by (rule filter_cong)
       (auto simp: select_spec_def gt_float_def gt_timedelta_def timedelta_days_def
             split: option.splits)
  with s False show ?thesis
    by (simp add: filtered_df_def Let_def mask_filter)
qed

lemma filtered_df_Inr:
  "filtered_df df = Inr fs \<Longrightarrow> fs = filter select_spec df"
  by (simp add: filtered_df_conv split: if_splits)

lemma beyond_timedelta_subset:
  "\<not> list_ex beyond_timedelta df \<Longrightarrow> \<not> list_ex beyond_timedelta (filter P df)"
  by (auto simp: list_ex_iff)

lemma ts_ns_ex_disc: "ts_ns ex_disc = 737625 * day_ns + 82800000000000"
  by (simp add: ts_ns_def ex_disc_def ymd2ord_def days_before_month_def days_before_year_def
      days_in_month_def is_leap_def upt_rec)

lemma ts_ns_ex_ctrl: "ts_ns ex_ctrl = 737670 * day_ns + 54000000000000"
  by (simp add: ts_ns_def ex_ctrl_def ymd2ord_def days_before_month_def days_before_year_def
      days_in_month_def is_leap_def upt_rec)

lemma ts_ns_ex_ctrl_soon: "ts_ns ex_ctrl_soon = 737626 * day_ns + 82800000000000"
  by (simp add: ts_ns_def ex_ctrl_soon_def ymd2ord_def days_before_month_def
      days_before_year_def days_in_month_def is_leap_def upt_rec)

lemma ts_ns_ex_spring_disc: "ts_ns ex_spring_disc = 737880 * day_ns + 36000000000000"
  by (simp add: ts_ns_def ex_spring_disc_def ymd2ord_def days_before_month_def
      days_before_year_def days_in_month_def is_leap_def upt_rec)

lemma ts_ns_ex_spring_ctrl: "ts_ns ex_spring_ctrl = 737895 * day_ns + 36000000000000"
  by (simp add: ts_ns_def ex_spring_ctrl_def ymd2ord_def days_before_month_def
      days_before_year_def days_in_month_def is_leap_def upt_rec)

lemma ts_ns_1700: "ts_ns ex_long_disc = 620548 * day_ns"
  by (simp add: ts_ns_def ex_long_disc_def ymd2ord_def days_before_month_def days_before_year_def)

lemma ts_ns_2200: "ts_ns ex_long_ctrl = 803169 * day_ns"
  by (simp add: ts_ns_def ex_long_ctrl_def ymd2ord_def days_before_month_def days_before_year_def)

lemma filtered_df_ex_df: "filtered_df ex_df = Inr [ex_fire]"
  by (simp add: filtered_df_conv select_spec_def beyond_timedelta_def ex_df_def ex_fire_def
      ex_no_control_def ex_no_acres_def ts_ns_ex_disc ts_ns_ex_ctrl ts_ns_ex_ctrl_soon day_ns_def)

lemma filtered_df_ex_two_fires: "filtered_df ex_two_fires = Inr ex_two_fires"
  by (simp add: filtered_df_conv select_spec_def beyond_timedelta_def ex_two_fires_def
      ex_fire_def ex_spring_fire_def ts_ns_ex_disc ts_ns_ex_ctrl ts_ns_ex_spring_disc
      ts_ns_ex_spring_ctrl day_ns_def)

text \<open>
  C7, as amended: for every record set in which no record with DailyAcres greater than 1
  has its two timestamps further apart than a Timedelta holds, the filter selects exactly
  the records whose DailyAcres is greater than 1 and whose control timestamp lies more
  than one day after the discovery timestamp; a record with a missing control or
  discovery timestamp is left out, and records with a missing timestamp alone raise no
  error; and filtering twice gives what filtering once gives. For every other record set
  the filter raises OverflowError.
\<close>

theorem record_filter_exact:
  "(\<not> list_ex beyond_timedelta df \<longrightarrow>
      (\<exists>rs. filtered_df df = Inr rs \<and> rs = filter select_spec df \<and> filtered_df rs = Inr rs \<and>
            (\<forall>r\<in>set df. ControlDateTime r = None \<or> FireDiscoveryDateTime r = None
                \<longrightarrow> r \<notin> set rs))) \<and>
   (list_ex beyond_timedelta df \<longrightarrow> filtered_df df = Inl OverflowError) \<and>
   filtered_df (filter (\<lambda>r. ControlDateTime r = None \<or> FireDiscoveryDateTime r = None) df)
     = Inr []"
proof (intro conjI impI)
  assume n: "\<not> list_ex beyond_timedelta df"
  then have 1: "filtered_df df = Inr (filter select_spec df)"
    by (simp add: filtered_df_conv)
  from beyond_timedelta_subset [OF n, of select_spec]
  have 2: "filtered_df (filter select_spec df) = Inr (filter select_spec df)"
    by (simp add: filtered_df_conv)
  have 3: "\<forall>r\<in>set df. ControlDateTime r = None \<or> FireDiscoveryDateTime r = None
       \<longrightarrow> r \<notin> set (filter select_spec df)"
    by (auto simp: select_spec_def split: option.splits)
  from 1 2 3
  show "\<exists>rs. filtered_df df = Inr rs \<and> rs = filter select_spec df \<and> filtered_df rs = Inr rs \<and>
            (\<forall>r\<in>set df. ControlDateTime r = None \<or> FireDiscoveryDateTime r = None
                \<longrightarrow> r \<notin> set rs)"
    by blast
next
  assume "list_ex beyond_timedelta df"
  then show "filtered_df df = Inl OverflowError"
    by (simp add: filtered_df_conv)
next
  let ?M = "filter (\<lambda>r. ControlDateTime r = None \<or> FireDiscoveryDateTime r = None) df"
  have "\<not> list_ex beyond_timedelta ?M"
    by (auto simp: list_ex_iff beyond_timedelta_def split: option.splits)
  moreover have "filter select_spec ?M = []"
    by (auto simp: filter_empty_conv select_spec_def split: option.splits)
  ultimately show "filtered_df ?M = Inr []"
    by (simp add: filtered_df_conv)
qed

theorem record_filter_exact_witness:
  "\<not> list_ex beyond_timedelta ex_df \<and>
   filtered_df ex_df = Inr [ex_fire] \<and>
   filter select_spec ex_df = [ex_fire] \<and>
   filtered_df [ex_fire] = Inr [ex_fire] \<and>
   ex_no_control \<in> set ex_df \<and> ControlDateTime ex_no_control = None \<and>
   ex_no_control \<notin> set [ex_fire] \<and>
   filtered_df [ex_no_control] = Inr [] \<and>
   list_ex beyond_timedelta [ex_long_fire] \<and>
   filtered_df [ex_long_fire] = Inl OverflowError"
proof -
  note t = record_filter_exact [of ex_df]
  note t' = record_filter_exact [of "[ex_long_fire]"]
  have 0: "\<not> list_ex beyond_timedelta ex_df"
    by (simp add: beyond_timedelta_def ex_df_def ex_fire_def ex_no_control_def ex_no_acres_def
        ts_ns_ex_disc ts_ns_ex_ctrl ts_ns_ex_ctrl_soon day_ns_def)
  with t obtain rs where rs: "filtered_df ex_df = Inr rs" "rs = filter select_spec ex_df"
    "filtered_df rs = Inr rs"
    and m: "\<forall>r\<in>set ex_df. ControlDateTime r = None \<or> FireDiscoveryDateTime r = None
                \<longrightarrow> r \<notin> set rs"
    by blast
  from rs(1) filtered_df_ex_df have e: "rs = [ex_fire]"
    by simp
  have 3: "ex_no_control \<in> set ex_df"
    by (simp add: ex_df_def)
  have 4: "ControlDateTime ex_no_control = None"
    by (simp add: ex_no_control_def)
  from m 3 4 have 5: "ex_no_control \<notin> set rs"
    by blast
  have "filter (\<lambda>r. ControlDateTime r = None \<or> FireDiscoveryDateTime r = None) ex_df
        = [ex_no_control]"
    by (simp add: ex_df_def ex_fire_def ex_no_control_def ex_no_acres_def)
  with t have 6: "filtered_df [ex_no_control] = Inr []"
    by simp
  have 7: "list_ex beyond_timedelta [ex_long_fire]"
    by (simp add: beyond_timedelta_def ex_long_fire_def ex_fire_def ts_ns_1700 ts_ns_2200
        day_ns_def)
  with t' have 8: "filtered_df [ex_long_fire] = Inl OverflowError"
    by blast
  from 0 rs e 3 4 5 6 7 8 show ?thesis by simp
qed

text \<open>
  The claim as stated fails on a record set with a record whose control date lies five
  hundred years after its discovery date, both of them dates a Timestamp holds: the
  record has an area greater than 1 and a control date more than one day after its
  discovery, so the claim has the filter select it; the subtraction of the two columns
  overflows and the filter raises OverflowError.
\<close>

theorem record_filter_overflow_counterexample:
  "in_bounds ex_long_disc \<and> in_bounds ex_long_ctrl \<and>
   select_spec ex_long_fire \<and>
   filter select_spec [ex_long_fire] = [ex_long_fire] \<and>
   filtered_df [ex_long_fire] = Inl OverflowError \<and>
   filtered_df [ex_long_fire] \<noteq> Inr (filter select_spec [ex_long_fire]) \<and>
   ts_ns ex_long_ctrl - ts_ns ex_long_disc = timedelta_days 182621 \<and>
   (9223372036854775807 :: int) < timedelta_days 182621"
proof -
  have s: "select_spec ex_long_fire"
    by (simp add: select_spec_def ex_long_fire_def ex_fire_def ts_ns_1700 ts_ns_2200 day_ns_def)
  have b: "beyond_timedelta ex_long_fire"
    by (simp add: beyond_timedelta_def ex_long_fire_def ex_fire_def ts_ns_1700 ts_ns_2200
        day_ns_def)
  have f: "filtered_df [ex_long_fire] = Inl OverflowError"
    by (simp add: filtered_df_def Let_def gt_float_def ts_minus_def ex_long_fire_def ex_fire_def
        ts_ns_1700 ts_ns_2200 day_ns_def)
  have d: "ts_ns ex_long_ctrl - ts_ns ex_long_disc = timedelta_days 182621"
    by (simp add: ts_ns_1700 ts_ns_2200 timedelta_days_def day_ns_def)
  have m: "(9223372036854775807 :: int) < timedelta_days 182621"
    by (simp add: timedelta_days_def day_ns_def)
  have i: "in_bounds ex_long_disc" "in_bounds ex_long_ctrl"
    by (simp_all add: in_bounds_def ts_ns_1700 ts_ns_2200 day_ns_def)
  from i s f d m show ?thesis by simp
qed

text \<open>
  C9: a record whose DailyAcres is missing never passes the filter, so the input without
  such records gives the same filtered set and the same extended and historical
  campaigns.
\<close>

theorem missing_acres_excluded:
  "(DailyAcres r = None \<longrightarrow> (\<forall>rs. filtered_df df = Inr rs \<longrightarrow> r \<notin> set rs)) \<and>
   filtered_df (filter (\<lambda>r. DailyAcres r \<noteq> None) df) = filtered_df df \<and>
   nasa_big_fire_df net (filter (\<lambda>r. DailyAcres r \<noteq> None) df) = nasa_big_fire_df net df \<and>
   nasa_last_180_prec_df net (filter (\<lambda>r. DailyAcres r \<noteq> None) df)
     = nasa_last_180_prec_df net df"
proof -
  have a: "DailyAcres r = None \<longrightarrow> (\<forall>rs. filtered_df df = Inr rs \<longrightarrow> r \<notin> set rs)"
    by (auto simp: select_spec_def dest!: filtered_df_Inr)
  have "list_ex beyond_timedelta (filter (\<lambda>r. DailyAcres r \<noteq> None) df)
        = list_ex beyond_timedelta df"
    by (auto simp: list_ex_iff beyond_timedelta_def split: option.splits)
  moreover have "filter select_spec (filter (\<lambda>r. DailyAcres r \<noteq> None) df) = filter select_spec df"
    unfolding filter_filter
    by (rule filter_cong) (auto simp: select_spec_def split: option.splits)
  ultimately have b: "filtered_df (filter (\<lambda>r. DailyAcres r \<noteq> None) df) = filtered_df df"
    by (simp add: filtered_df_conv)
  from a b show ?thesis
    by (simp add: nasa_big_fire_df_def nasa_last_180_prec_df_def)
qed

theorem missing_acres_excluded_witness:
  "DailyAcres ex_no_acres = None \<and> ex_no_acres \<in> set ex_df \<and>
   filtered_df ex_df = Inr [ex_fire] \<and> ex_no_acres \<notin> set [ex_fire] \<and>
   filtered_df (filter (\<lambda>r. DailyAcres r \<noteq> None) ex_df) = Inr [ex_fire]"
proof -
  note t = missing_acres_excluded [of ex_no_acres ex_df ex_net_ok]
  have 1: "DailyAcres ex_no_acres = None"
    by (simp add: ex_no_acres_def)
  have 2: "ex_no_acres \<in> set ex_df"
    by (simp add: ex_df_def)
  from t 1 filtered_df_ex_df have 3: "ex_no_acres \<notin> set [ex_fire]"
    by blast
  from t have "filtered_df (filter (\<lambda>r. DailyAcres r \<noteq> None) ex_df) = filtered_df ex_df"
    by blast
  with filtered_df_ex_df
  have 4: "filtered_df (filter (\<lambda>r. DailyAcres r \<noteq> None) ex_df) = Inr [ex_fire]"
    by simp
  from 1 2 3 4 filtered_df_ex_df show ?thesis by simp
qed

section \<open>Splitting a response at the marker\<close>

lemma str_find_append:
  "str_find s sep = Some i \<Longrightarrow> str_find (s @ t) sep = Some i"
proof (induction s arbitrary: i)
  case Nil
  then have "sep = []" and "i = 0" by (simp_all split: if_splits)
  then show ?case by (cases t) simp_all
next
  case (Cons c cs)
  show ?case
  proof (cases "prefix sep (c # cs)")
    case True
    then have "prefix sep ((c # cs) @ t)" by (rule prefix_prefix)
    with True Cons.prems show ?thesis by simp
  next
    case False
    with Cons.prems obtain j where j: "str_find cs sep = Some j" "i = Suc j" by auto
    from str_find_bound [OF j(1)] have len: "length sep \<le> length cs" by simp
    have "\<not> prefix sep ((c # cs) @ t)"
    proof
      assume "prefix sep ((c # cs) @ t)"
      then have "prefix sep (c # cs) \<or> (\<exists>us. sep = (c # cs) @ us \<and> prefix us t)"
        by (rule prefix_append [THEN iffD1])
      with False len show False by auto
    qed
    with Cons.IH [OF j(1)] j(2) show ?thesis by simp
  qed
qed

lemma str_find_first:
  assumes "str_find (a @ sep) sep = Some (length a)"
  shows "str_find (a @ sep @ rest) sep = Some (length a)"
  using str_find_append [OF assms, of rest] by simp

lemma str_split_first:
  assumes "str_find (a @ sep) sep = Some (length a)" and "sep \<noteq> []"
  shows "str_split (a @ sep @ rest) sep = a # str_split rest sep"
  using str_find_first [OF assms(1), of rest] assms(2)
  by (subst str_split.simps) simp

lemma str_split_none:
  "str_find s sep = None \<Longrightarrow> str_split s sep = [s]"
  by (subst str_split.simps) simp

lemma length_str_split_pos: "0 < length (str_split s sep)"
  by (subst str_split.simps) (simp split: option.splits)

lemma END_HEADER_nonempty: "END_HEADER \<noteq> []"
  by (simp add: END_HEADER_def)

lemma str_split_two_markers:
  assumes "str_find (a @ END_HEADER) END_HEADER = Some (length a)"
    and "str_find (b @ END_HEADER) END_HEADER = Some (length b)"
  shows "str_split (a @ END_HEADER @ b @ END_HEADER @ c) END_HEADER
         = a # b # str_split c END_HEADER"
  by (simp add: str_split_first [OF assms(1) END_HEADER_nonempty]
      str_split_first [OF assms(2) END_HEADER_nonempty])

text \<open>A string in which the separator is found splits around its first occurrence.\<close>

lemma str_find_occurs: "str_find s sep = Some i \<Longrightarrow> prefix sep (drop i s)"
proof (induction s arbitrary: i)
  case Nil
  then show ?case by (simp split: if_splits)
next
  case (Cons c cs)
  show ?case
  proof (cases "prefix sep (c # cs)")
    case True
    with Cons.prems show ?thesis by simp
  next
    case False
    with Cons.prems obtain j where "str_find cs sep = Some j" and "i = Suc j" by auto
    with Cons.IH show ?thesis by simp
  qed
qed

lemma str_find_prefix:
  "str_find (s @ t) sep = Some i \<Longrightarrow> i + length sep \<le> length s \<Longrightarrow> str_find s sep = Some i"
proof (induction s arbitrary: i)
  case Nil
  then show ?case by simp
next
  case (Cons c cs)
  show ?case
  proof (cases "prefix sep ((c # cs) @ t)")
    case True
    with Cons.prems(1) have i: "i = 0" by simp
    from True have "prefix sep (c # cs) \<or> (\<exists>us. sep = (c # cs) @ us \<and> prefix us t)"
      by (rule prefix_append [THEN iffD1])
    with Cons.prems(2) i have "prefix sep (c # cs)" by auto
    with i show ?thesis by simp
  next
    case False
    with Cons.prems(1) obtain j where j: "str_find (cs @ t) sep = Some j" "i = Suc j" by auto
    from False have "\<not> prefix sep (c # cs)"
      using prefix_prefix [of sep "c # cs" t] by blast
    moreover from Cons.IH [OF j(1)] Cons.prems(2) j(2) have "str_find cs sep = Some j" by simp
    ultimately show ?thesis using j(2) by simp
  qed
qed

lemma str_find_decompose:
  assumes "str_find s sep = Some i"
  shows "s = take i s @ sep @ drop (i + length sep) s"
    and "str_find (take i s @ sep) sep = Some (length (take i s))"
proof -
  from str_find_occurs [OF assms] obtain r where r: "drop i s = sep @ r"
    by (auto simp: prefix_def)
  then have "drop (i + length sep) s = r"
    by (metis add.commute append_eq_conv_conj drop_drop)
  with r show s: "s = take i s @ sep @ drop (i + length sep) s"
    by (metis append_take_drop_id)
  from str_find_bound [OF assms] have le: "i \<le> length s" by arith
  then have len: "length (take i s) = i" by simp
  from s assms have "str_find ((take i s @ sep) @ drop (i + length sep) s) sep = Some i"
    by simp
  then have "str_find (take i s @ sep) sep = Some i"
    by (rule str_find_prefix) (simp add: le)
  with len show "str_find (take i s @ sep) sep = Some (length (take i s))"
    by simp
qed

lemma two_markers_decompose:
  assumes "str_find body END_HEADER = Some i"
    and "str_find (drop (i + length END_HEADER) body) END_HEADER = Some j"
  defines "a \<equiv> take i body" and "b \<equiv> take j (drop (i + length END_HEADER) body)"
  shows "body = a @ END_HEADER @ b @ END_HEADER
                @ drop (i + length END_HEADER + j + length END_HEADER) body"
    and "take (i + length END_HEADER + j + length END_HEADER) body
         = a @ END_HEADER @ b @ END_HEADER"
    and "str_find (a @ END_HEADER) END_HEADER = Some (length a)"
    and "str_find (b @ END_HEADER) END_HEADER = Some (length b)"
proof -
  let ?r = "drop (i + length END_HEADER) body"
  note d1 = str_find_decompose [OF assms(1)]
  note d2 = str_find_decompose [OF assms(2)]
  have dd: "drop (j + length END_HEADER) ?r
            = drop (i + length END_HEADER + j + length END_HEADER) body"
    by (simp add: add.commute add.left_commute)
  from d1(1) d2(1) show body: "body = a @ END_HEADER @ b @ END_HEADER
                @ drop (i + length END_HEADER + j + length END_HEADER) body"
    unfolding a_def b_def dd [symmetric] by simp
  from str_find_bound [OF assms(1)] str_find_bound [OF assms(2)]
  have "length (a @ END_HEADER @ b @ END_HEADER) = i + length END_HEADER + j + length END_HEADER"
    by (simp add: a_def b_def)
  with body show "take (i + length END_HEADER + j + length END_HEADER) body
         = a @ END_HEADER @ b @ END_HEADER"
    by (metis append.assoc append_eq_conv_conj)
  from d1(2) show "str_find (a @ END_HEADER) END_HEADER = Some (length a)"
    by (simp add: a_def)
  from d2(2) show "str_find (b @ END_HEADER) END_HEADER = Some (length b)"
    by (simp add: b_def)
qed

lemma length_str_split_ge_2:
  assumes "sep \<noteq> []"
  shows "2 \<le> length (str_split s sep) \<longleftrightarrow> str_find s sep \<noteq> None"
proof (cases "str_find s sep")
  case None
  then show ?thesis by (simp add: str_split_none)
next
  case (Some i)
  with assms have "str_split s sep = take i s # str_split (drop (i + length sep) s) sep"
    by (subst str_split.simps) simp
  moreover from length_str_split_pos [of "drop (i + length sep) s" sep]
  have "Suc 0 \<le> length (str_split (drop (i + length sep) s) sep)"
    by arith
  ultimately show ?thesis
    using Some by simp
qed

text \<open>What a call does with a response depends on the second piece alone.\<close>

lemma build_request_param_Response:
  assumes "params la lo s e f = Inr q" and "get (u, q) = Response body"
    and "str_split body END_HEADER = x # y # zs"
  shows "build_request_param i la lo s e acc u f get
         = (case read_csv y of
              Inl err \<Rightarrow> Inl err
            | Inr response_df \<Rightarrow>
                (case pd_concat [acc, Some (setitem (setitem (setitem response_df ''LAT'' la)
                                              ''LONG'' lo) ''PID'' (IntV i))] of
                   Inl err \<Rightarrow> Inl err
                 | Inr d \<Rightarrow> Inr (Some d)))"
  using assms by (simp add: build_request_param_def Let_def split: sum.splits)

text \<open>The payload of a response is the second piece of the split.\<close>

lemma payload_of_None: "payload_of body = None \<longleftrightarrow> str_find body END_HEADER = None"
  by (simp add: payload_of_def Let_def split: option.splits)

lemma str_split_payload:
  assumes "payload_of body = Some p"
  shows "\<exists>x zs. str_split body END_HEADER = x # p # zs"
proof -
  from assms obtain i where i: "str_find body END_HEADER = Some i"
    by (auto simp: payload_of_def split: option.splits)
  let ?rest = "drop (i + length END_HEADER) body"
  have 1: "str_split body END_HEADER = take i body # str_split ?rest END_HEADER"
    using i END_HEADER_nonempty by (subst str_split.simps) simp
  show ?thesis
  proof (cases "str_find ?rest END_HEADER")
    case None
    with assms i have "p = ?rest"
      by (simp add: payload_of_def Let_def)
    with 1 str_split_none [OF None] show ?thesis by simp
  next
    case (Some j)
    with assms i have p: "p = take j ?rest"
      by (simp add: payload_of_def Let_def)
    have "str_split ?rest END_HEADER
          = take j ?rest # str_split (drop (j + length END_HEADER) ?rest) END_HEADER"
      using Some END_HEADER_nonempty by (subst str_split.simps) simp
    with 1 p show ?thesis by simp
  qed
qed

section \<open>Evaluating the examples\<close>

lemma split_ex_body_two_rows:
  "str_split ex_body_two_rows END_HEADER = [''POWER'', ex_payload_two_rows]"
  by (simp add: ex_body_two_rows_def ex_payload_two_rows_def END_HEADER_def str_split.simps)

lemma split_ex_body_one_row:
  "str_split ex_body_one_row END_HEADER = [''POWER'', ex_payload_one_row]"
  by (simp add: ex_body_one_row_def ex_payload_one_row_def END_HEADER_def str_split.simps)

lemma find_ex_body_no_marker: "str_find ex_body_no_marker END_HEADER = None"
  by (simp add: ex_body_no_marker_def END_HEADER_def)

lemma split_ex_body_empty_segment:
  "str_split ex_body_empty_segment END_HEADER = [''POWER'', []]"
  by (simp add: ex_body_empty_segment_def END_HEADER_def str_split.simps)

lemma payload_ex_body_two_rows: "payload_of ex_body_two_rows = Some ex_payload_two_rows"
  by (simp add: payload_of_def ex_body_two_rows_def ex_payload_two_rows_def END_HEADER_def)

lemma payload_ex_body_one_row: "payload_of ex_body_one_row = Some ex_payload_one_row"
  by (simp add: payload_of_def ex_body_one_row_def ex_payload_one_row_def END_HEADER_def)

lemma payload_ex_body_no_marker: "payload_of ex_body_no_marker = None"
  by (simp add: payload_of_None find_ex_body_no_marker)

lemma read_csv_empty: "read_csv [] = Inl EmptyDataError"
  by (simp add: read_csv_def str_split.simps)

lemma read_csv_ex_payload_two_rows:
  "read_csv ex_payload_two_rows
   = Inr \<lparr>columns = [''YEAR'', ''T2M''], index_name = None, index = [IntV 0, IntV 1],
          rows = [[(''YEAR'', StrV ''2020''), (''T2M'', StrV ''25.1'')],
                  [(''YEAR'', StrV ''2020''), (''T2M'', StrV ''26.3'')]]\<rparr>"
  by (simp add: read_csv_def ex_payload_two_rows_def str_split.simps Let_def field_def
      RangeIndex_def)

lemma read_csv_ex_payload_one_row:
  "read_csv ex_payload_one_row
   = Inr \<lparr>columns = [''YEAR'', ''T2M''], index_name = None, index = [IntV 0],
          rows = [[(''YEAR'', StrV ''2021''), (''T2M'', StrV ''30.2'')]]\<rparr>"
  by (simp add: read_csv_def ex_payload_one_row_def str_split.simps Let_def field_def
      RangeIndex_def)

lemma response_rows_ex_body_two_rows:
  "response_rows i ex_lat ex_long ex_body_two_rows = ex_rows_two i"
  by (simp add: response_rows_def payload_ex_body_two_rows read_csv_ex_payload_two_rows
      tagged_def ex_rows_two_def)

lemma response_rows_ex_body_one_row:
  "response_rows i ex_lat ex_long ex_body_one_row = ex_rows_one i"
  by (simp add: response_rows_def payload_ex_body_one_row read_csv_ex_payload_one_row
      tagged_def ex_rows_one_def)

lemma response_rows_ex_body_no_marker:
  "response_rows i la lo ex_body_no_marker = []"
  by (simp add: response_rows_def payload_ex_body_no_marker)

lemma usable_ex_bodies:
  "usable ex_body_two_rows" "usable ex_body_one_row" "usable ex_body_no_marker"
  by (simp_all add: usable_def payload_ex_body_two_rows payload_ex_body_one_row
      payload_ex_body_no_marker read_csv_ex_payload_two_rows read_csv_ex_payload_one_row)

text \<open>The three calls of the basic campaign over the three example fires.\<close>

lemma params_ex_fire:
  "params ex_lat ex_long (Some ex_disc) (Some ex_ctrl) f
   = Inr \<lparr>latitude = ex_lat, longitude = ex_long,
          q_start = strftime ex_disc f, q_end = strftime ex_ctrl f\<rparr>"
  by (simp add: params_def)

lemma call_two_rows:
  assumes "get (u, \<lparr>latitude = ex_lat, longitude = ex_long,
                    q_start = strftime ex_disc f, q_end = strftime ex_ctrl f\<rparr>)
           = Response ex_body_two_rows"
  shows "build_request_param i ex_lat ex_long (Some ex_disc) (Some ex_ctrl) (Some DataFrame) u f
           get
         = Inr (Some \<lparr>columns = ex_columns, index_name = None, index = [IntV 0, IntV 1],
                       rows = ex_rows_two i\<rparr>)"
  by (simp add: build_request_param_Response [where get = get and u = u, OF params_ex_fire assms
        split_ex_body_two_rows]
      read_csv_ex_payload_two_rows setitem_def pd_concat_def List.map_filter_simps
      union_columns_def DataFrame_def ex_columns_def ex_rows_two_def)

lemma call_one_row_on_None:
  assumes "get (u, \<lparr>latitude = ex_lat, longitude = ex_long,
                    q_start = strftime ex_disc f, q_end = strftime ex_ctrl f\<rparr>)
           = Response ex_body_one_row"
  shows "build_request_param i ex_lat ex_long (Some ex_disc) (Some ex_ctrl) None u f get
         = Inr (Some \<lparr>columns = ex_columns, index_name = None, index = [IntV 0],
                       rows = ex_rows_one i\<rparr>)"
  by (simp add: build_request_param_Response [where get = get and u = u, OF params_ex_fire assms
        split_ex_body_one_row]
      read_csv_ex_payload_one_row setitem_def pd_concat_def List.map_filter_simps
      union_columns_def ex_columns_def ex_rows_one_def)

lemma call_one_row:
  assumes "get (u, \<lparr>latitude = ex_lat, longitude = ex_long,
                    q_start = strftime ex_disc f, q_end = strftime ex_ctrl f\<rparr>)
           = Response ex_body_one_row"
  shows "build_request_param i ex_lat ex_long (Some ex_disc) (Some ex_ctrl) (Some DataFrame) u f
           get
         = Inr (Some \<lparr>columns = ex_columns, index_name = None, index = [IntV 0],
                       rows = ex_rows_one i\<rparr>)"
  by (simp add: build_request_param_Response [where get = get and u = u, OF params_ex_fire assms
        split_ex_body_one_row]
      read_csv_ex_payload_one_row setitem_def pd_concat_def List.map_filter_simps
      union_columns_def DataFrame_def ex_columns_def ex_rows_one_def)

lemma call_connection_error:
  assumes "get (u, \<lparr>latitude = ex_lat, longitude = ex_long,
                    q_start = strftime ex_disc f, q_end = strftime ex_ctrl f\<rparr>)
           = Raises ConnectionError"
  shows "build_request_param i ex_lat ex_long (Some ex_disc) (Some ex_ctrl) acc u f get
         = Inr None"
  using assms by (simp add: build_request_param_def params_ex_fire)

lemma basic_args_ex_fire:
  "basic_args (ex_fire\<lparr>label := i\<rparr>)
   = \<lparr>a_id = i, a_lat = ex_lat, a_long = ex_long, a_start_date = Some ex_disc,
      a_end_date = Some ex_ctrl, a_base_uri = basic_base_uri, a_date_filter = ''%Y%m%d''\<rparr>"
  by (simp add: basic_args_def ex_fire_def ex_lat_def ex_long_def)

lemma paired_three:
  "paired net [a, b, c] = [(a, net 0), (b, net (Suc 0)), (c, net (Suc (Suc 0)))]"
  by (simp add: paired_def upt_rec)

lemma paired_two:
  "paired net [a, b] = [(a, net 0), (b, net (Suc 0))]"
  by (simp add: paired_def upt_rec)

lemma paired_one:
  "paired net [a] = [(a, net 0)]"
  by (simp add: paired_def)

lemma ex_net_fail_simps:
  "ex_net_fail 0 rq = Response ex_body_two_rows"
  "ex_net_fail (Suc 0) rq = Raises ConnectionError"
  "ex_net_fail (Suc (Suc 0)) rq = Response ex_body_one_row"
  by (simp_all add: ex_net_fail_def)

lemma ex_net_ok_simps:
  "ex_net_ok 0 rq = Response ex_body_two_rows"
  "ex_net_ok (Suc 0) rq = Response ex_body_no_marker"
  "ex_net_ok (Suc (Suc 0)) rq = Response ex_body_one_row"
  by (simp_all add: ex_net_ok_def)

section \<open>Connectivity failures\<close>

text \<open>
  C1: the claim is that a connectivity failure is caught, the record is skipped and the
  loop goes on with the table accumulated so far. The handler of \<open>build_request_param\<close>
  does catch \<open>ConnectionError\<close>, but it ends without a \<open>return\<close>, so the call returns
  \<open>None\<close> and the loop stores that in place of the table. In the example the first
  request yields two rows, the second raises \<open>ConnectionError\<close> and the third yields
  one row: after two records the table is \<open>None\<close> (writing it out fails), and after
  three it holds the third record's row only.
\<close>

theorem connection_error_loses_table:
  "nasa_df ex_net_fail (take 1 ex_three_fires) = Inr (Some ex_table) \<and>
   nasa_df ex_net_fail (take 2 ex_three_fires) = Inr None \<and>
   store None = Inl AttributeError \<and>
   nasa_df ex_net_fail ex_three_fires
     = Inr (Some \<lparr>columns = ex_columns, index_name = None, index = [IntV 0],
                   rows = ex_rows_one 2\<rparr>)"
  by (simp add: nasa_df_def ex_three_fires_def basic_args_ex_fire paired_three paired_two
      paired_one call_two_rows [OF ex_net_fail_simps(1)]
      call_connection_error [OF ex_net_fail_simps(2)]
      call_one_row_on_None [OF ex_net_fail_simps(3)] ex_table_def store_def)

section \<open>Responses without data\<close>

text \<open>
  C2, as amended: when the marker is absent from the response, the call returns the
  running table as it was and the loop goes on with the next record. (With the marker
  present the text after it always goes to the CSV parser.)
\<close>

theorem no_marker_leaves_table:
  assumes "a_start_date a = Some s" and "a_end_date a = Some e"
    and "get (a_base_uri a,
              \<lparr>latitude = a_lat a, longitude = a_long a,
               q_start = strftime s (a_date_filter a), q_end = strftime e (a_date_filter a)\<rparr>)
         = Response body"
    and "str_find body END_HEADER = None"
  shows "build_request_param (a_id a) (a_lat a) (a_long a) (a_start_date a) (a_end_date a)
           result_df (a_base_uri a) (a_date_filter a) get = Inr result_df \<and>
         run_calls ((a, get) # rest) result_df = run_calls rest result_df"
  using assms by (simp add: build_request_param_def params_def str_split_none)


theorem no_marker_leaves_table_witness:
  "str_find ex_body_no_marker END_HEADER = None \<and>
   run_calls [(basic_args ex_fire, \<lambda>rq. Response ex_body_no_marker)] (Some ex_table)
     = Inr (Some ex_table)"
proof -
  have s: "a_start_date (basic_args ex_fire) = Some ex_disc"
    and e: "a_end_date (basic_args ex_fire) = Some ex_ctrl"
    by (simp_all add: basic_args_def ex_fire_def)
  from no_marker_leaves_table [of "basic_args ex_fire" ex_disc ex_ctrl
      "\<lambda>rq. Response ex_body_no_marker" ex_body_no_marker "Some ex_table" "[]",
      OF s e refl find_ex_body_no_marker]
  have "run_calls [(basic_args ex_fire, \<lambda>rq. Response ex_body_no_marker)] (Some ex_table)
        = run_calls [] (Some ex_table)"
    by blast
  with find_ex_body_no_marker show ?thesis by simp
qed

text \<open>
  The claim as stated fails where the marker is the end of the response: the segment
  after it is empty, the parser raises EmptyDataError, nothing catches it, and the call
  does not return the running table.
\<close>

theorem empty_segment_counterexample:
  "str_split ex_body_empty_segment END_HEADER = [''POWER'', []] \<and>
   build_request_param 1 ex_lat ex_long (Some ex_disc) (Some ex_ctrl) (Some ex_table)
     basic_base_uri ''%Y%m%d'' (\<lambda>rq. Response ex_body_empty_segment) = Inl EmptyDataError \<and>
   build_request_param 1 ex_lat ex_long (Some ex_disc) (Some ex_ctrl) (Some ex_table)
     basic_base_uri ''%Y%m%d'' (\<lambda>rq. Response ex_body_empty_segment) \<noteq> Inr (Some ex_table)"
  by (simp add: split_ex_body_empty_segment
      build_request_param_Response [where get = "\<lambda>rq. Response ex_body_empty_segment",
        OF params_ex_fire refl split_ex_body_empty_segment]
      read_csv_empty)

section \<open>Accumulation\<close>

lemma rows_pd_concat_two:
  "pd_concat [Some x, Some y] = Inr d \<Longrightarrow> rows d = rows x @ rows y"
  by (auto simp: pd_concat_def List.map_filter_simps)

lemma pd_concat_two_defined: "\<exists>d. pd_concat [Some x, Some y] = Inr d"
  by (simp add: pd_concat_def List.map_filter_simps)

lemma rows_tagged:
  "rows (setitem (setitem (setitem d ''LAT'' la) ''LONG'' lo) ''PID'' (IntV i))
   = map (tagged i la lo) (rows d)"
  by (simp add: setitem_def tagged_def comp_def)

text \<open>A call whose request gets a usable response appends the rows of that response.\<close>

lemma build_request_param_appends:
  assumes q: "params la lo s e f = Inr q" and g: "get (u, q) = Response body"
    and us: "usable body"
  shows "\<exists>t. build_request_param i la lo s e (Some acc) u f get = Inr (Some t) \<and>
             rows t = rows acc @ response_rows i la lo body"
proof (cases "payload_of body")
  case None
  then have n: "str_find body END_HEADER = None"
    by (simp add: payload_of_None)
  with q g have "build_request_param i la lo s e (Some acc) u f get = Inr (Some acc)"
    by (simp add: build_request_param_def str_split_none)
  with None show ?thesis
    by (simp add: response_rows_def)
next
  case (Some p)
  from str_split_payload [OF Some] obtain x zs
    where sp: "str_split body END_HEADER = x # p # zs"
    by blast
  from us Some obtain d where d: "read_csv p = Inr d"
    by (auto simp: usable_def split: sum.splits)
  let ?new = "setitem (setitem (setitem d ''LAT'' la) ''LONG'' lo) ''PID'' (IntV i)"
  obtain t where t: "pd_concat [Some acc, Some ?new] = Inr t"
    using pd_concat_two_defined by blast
  from build_request_param_Response [where get = get and u = u, OF q g sp, of i "Some acc"] d t
  have "build_request_param i la lo s e (Some acc) u f get = Inr (Some t)"
    by simp
  moreover from rows_pd_concat_two [OF t] Some d
  have "rows t = rows acc @ response_rows i la lo body"
    by (simp add: response_rows_def rows_tagged)
  ultimately show ?thesis by blast
qed

lemma call_answered:
  assumes "answered (a, get)"
  shows "\<exists>t. build_request_param (a_id a) (a_lat a) (a_long a) (a_start_date a) (a_end_date a)
                (Some acc) (a_base_uri a) (a_date_filter a) get = Inr (Some t) \<and>
             rows t = rows acc @ fetched_rows (a, get)"
proof -
  from assms obtain s e where s: "a_start_date a = Some s" and e: "a_end_date a = Some e"
    by (auto simp: answered_def sent_request_def split: option.splits)
  let ?q = "\<lparr>latitude = a_lat a, longitude = a_long a,
             q_start = strftime s (a_date_filter a), q_end = strftime e (a_date_filter a)\<rparr>"
  from s e have rq: "sent_request a = Some (a_base_uri a, ?q)"
    by (simp add: sent_request_def)
  from s e have q: "params (a_lat a) (a_long a) (a_start_date a) (a_end_date a) (a_date_filter a)
                    = Inr ?q"
    by (simp add: params_def)
  from assms rq obtain body where g: "get (a_base_uri a, ?q) = Response body"
    and us: "usable body"
    by (auto simp: answered_def split: outcome.splits)
  from rq g have "fetched_rows (a, get) = response_rows (a_id a) (a_lat a) (a_long a) body"
    by (simp add: fetched_rows_def)
  with build_request_param_appends [where get = get and u = "a_base_uri a", OF q g us,
      of "a_id a" acc] show ?thesis
    by simp
qed

lemma run_calls_rows:
  assumes "\<forall>c\<in>set calls. answered c"
  shows "\<exists>T. run_calls calls (Some acc) = Inr (Some T) \<and>
             rows T = rows acc @ concat (map fetched_rows calls)"
  using assms
proof (induction calls arbitrary: acc)
  case Nil
  then show ?case by simp
next
  case (Cons c calls)
  obtain a get where c: "c = (a, get)" by (cases c)
  from Cons.prems c have "answered (a, get)" by simp
  from call_answered [OF this, of acc] obtain t
    where t: "build_request_param (a_id a) (a_lat a) (a_long a) (a_start_date a) (a_end_date a)
                (Some acc) (a_base_uri a) (a_date_filter a) get = Inr (Some t)"
      and rows_t: "rows t = rows acc @ fetched_rows (a, get)"
    by blast
  from Cons.prems have "\<forall>c\<in>set calls. answered c"
    by simp
  from Cons.IH [OF this, of t] obtain T
    where T: "run_calls calls (Some t) = Inr (Some T)"
      and rows_T: "rows T = rows t @ concat (map fetched_rows calls)"
    by blast
  from T t c have "run_calls (c # calls) (Some acc) = Inr (Some T)" by simp
  moreover from rows_T rows_t c
  have "rows T = rows acc @ concat (map fetched_rows (c # calls))" by simp
  ultimately show ?case by blast
qed

text \<open>
  C8: when every request of a loop is answered with a usable response (one without the
  marker, or one whose payload reads as CSV), the loop returns a table whose rows are the
  rows it started with followed by the rows of the responses in the order of the records,
  each response's rows being the rows of its payload with the latitude, longitude and
  identifier of its record; the number of rows is the sum of the responses' numbers of
  rows.
\<close>

theorem rows_in_request_order:
  assumes "\<forall>c\<in>set calls. answered c"
  shows "\<exists>T. run_calls calls (Some acc) = Inr (Some T) \<and>
             rows T = rows acc @ concat (map fetched_rows calls) \<and>
             length (rows T) = length (rows acc) + sum_list (map (\<lambda>c. length (fetched_rows c)) calls)"
proof -
  from run_calls_rows [OF assms, of acc] obtain T
    where T: "run_calls calls (Some acc) = Inr (Some T)"
      and r: "rows T = rows acc @ concat (map fetched_rows calls)"
    by blast
  from r have "length (rows T)
               = length (rows acc) + sum_list (map (\<lambda>c. length (fetched_rows c)) calls)"
    by (simp add: length_concat comp_def)
  with T r show ?thesis by blast
qed


theorem rows_in_request_order_witness:
  "\<exists>T. nasa_df ex_net_ok ex_three_fires = Inr (Some T) \<and>
       rows T = ex_rows_two 0 @ ex_rows_one 2 \<and> length (rows T) = 3"
proof -
  define calls where "calls = paired ex_net_ok (map basic_args ex_three_fires)"
  have calls: "calls = [(basic_args (ex_fire\<lparr>label := 0\<rparr>), ex_net_ok 0),
                        (basic_args (ex_fire\<lparr>label := 1\<rparr>), ex_net_ok (Suc 0)),
                        (basic_args (ex_fire\<lparr>label := 2\<rparr>), ex_net_ok (Suc (Suc 0)))]"
    by (simp add: calls_def ex_three_fires_def paired_three)
  have h: "\<forall>c\<in>set calls. answered c"
    by (simp add: calls answered_def sent_request_def basic_args_ex_fire ex_net_ok_simps
        usable_ex_bodies)
  from rows_in_request_order [OF h, of DataFrame] obtain T
    where T: "run_calls calls (Some DataFrame) = Inr (Some T)"
      and r: "rows T = rows DataFrame @ concat (map fetched_rows calls)"
    by blast
  have "concat (map fetched_rows calls) = ex_rows_two 0 @ ex_rows_one 2"
    by (simp add: calls fetched_rows_def sent_request_def basic_args_ex_fire ex_net_ok_simps
        response_rows_ex_body_two_rows response_rows_ex_body_one_row
        response_rows_ex_body_no_marker)
  with r have "rows T = ex_rows_two 0 @ ex_rows_one 2"
    by (simp add: DataFrame_def)
  moreover from this have "length (rows T) = 3"
    by (simp add: ex_rows_two_def ex_rows_one_def)
  moreover from T have "nasa_df ex_net_ok ex_three_fires = Inr (Some T)"
    by (simp add: nasa_df_def calls_def)
  ultimately show ?thesis by blast
qed

section \<open>A marker that occurs twice\<close>

text \<open>
  C10: when the marker occurs in the response and again after that occurrence, the call
  parses the text between the first and the second occurrence: that text is the segment
  the split yields, what the call returns is computed from the CSV reading of that text
  alone, and whatever follows the second occurrence has no effect on what the call
  returns.
\<close>

theorem second_marker_ends_payload:
  assumes "str_find body END_HEADER = Some i"
    and "str_find (drop (i + length END_HEADER) body) END_HEADER = Some j"
    and "params lat long s e f = Inr q"
    and "get (u, q) = Response body"
    and "get' (u, q) = Response (take (i + length END_HEADER + j + length END_HEADER) body @ tail)"
  shows "str_split body END_HEADER ! 1 = take j (drop (i + length END_HEADER) body) \<and>
         build_request_param ident lat long s e acc u f get
         = (case read_csv (take j (drop (i + length END_HEADER) body)) of
              Inl err \<Rightarrow> Inl err
            | Inr d \<Rightarrow>
                (case pd_concat [acc, Some (setitem (setitem (setitem d ''LAT'' lat) ''LONG'' long)
                                              ''PID'' (IntV ident))] of
                   Inl err \<Rightarrow> Inl err
                 | Inr t \<Rightarrow> Inr (Some t))) \<and>
         build_request_param ident lat long s e acc u f get'
         = build_request_param ident lat long s e acc u f get"
proof -
  define a where "a = take i body"
  define b where "b = take j (drop (i + length END_HEADER) body)"
  note D = two_markers_decompose [OF assms(1,2), folded a_def b_def]
  have 1: "str_split body END_HEADER = a # b
             # str_split (drop (i + length END_HEADER + j + length END_HEADER) body) END_HEADER"
    by (subst D(1)) (rule str_split_two_markers [OF D(3) D(4)])
  have 2: "str_split (take (i + length END_HEADER + j + length END_HEADER) body @ tail) END_HEADER
           = a # b # str_split tail END_HEADER"
    unfolding D(2) using str_split_two_markers [OF D(3) D(4), of tail] by simp
  from 1 have "str_split body END_HEADER ! 1 = b" by simp
  then show ?thesis
    by (simp add: b_def build_request_param_Response [where get = get and u = u, OF assms(3,4) 1]
        build_request_param_Response [where get = get' and u = u, OF assms(3,5) 2])
qed


lemma split_ex_body_two_markers:
  "str_split ex_body_two_markers END_HEADER = [''POWER'', ex_payload_one_row, ex_payload_two_rows]"
  by (simp add: ex_body_two_markers_def ex_payload_one_row_def ex_payload_two_rows_def
      END_HEADER_def str_split.simps)

theorem second_marker_ends_payload_witness:
  "str_split ex_body_two_markers END_HEADER ! 1 = ex_payload_one_row \<and>
   build_request_param 1 ex_lat ex_long (Some ex_disc) (Some ex_ctrl) (Some DataFrame)
     basic_base_uri ''%Y%m%d'' (\<lambda>rq. Response ex_body_two_markers)
   = Inr (Some \<lparr>columns = ex_columns, index_name = None, index = [IntV 0],
                 rows = ex_rows_one 1\<rparr>) \<and>
   build_request_param 1 ex_lat ex_long (Some ex_disc) (Some ex_ctrl) (Some DataFrame)
     basic_base_uri ''%Y%m%d''
     (\<lambda>rq. Response (''POWER-END HEADER-'' @ ex_payload_one_row @ ''-END HEADER-''
                       @ ''anything else''))
   = Inr (Some \<lparr>columns = ex_columns, index_name = None, index = [IntV 0],
                 rows = ex_rows_one 1\<rparr>)"
proof -
  have a: "str_find ex_body_two_markers END_HEADER = Some 5"
    by (simp add: ex_body_two_markers_def END_HEADER_def)
  have b: "str_find (drop (5 + length END_HEADER) ex_body_two_markers) END_HEADER = Some 20"
    by (simp add: ex_body_two_markers_def ex_payload_one_row_def END_HEADER_def)
  have c: "take 20 (drop (5 + length END_HEADER) ex_body_two_markers) = ex_payload_one_row"
    by (simp add: ex_body_two_markers_def ex_payload_one_row_def END_HEADER_def)
  have d: "take (5 + length END_HEADER + 20 + length END_HEADER) ex_body_two_markers
           = ''POWER-END HEADER-'' @ ex_payload_one_row @ ''-END HEADER-''"
    by (simp add: ex_body_two_markers_def ex_payload_one_row_def END_HEADER_def)
  have e: "(case read_csv ex_payload_one_row of
              Inl err \<Rightarrow> Inl err
            | Inr d \<Rightarrow>
                (case pd_concat [Some DataFrame,
                                 Some (setitem (setitem (setitem d ''LAT'' ex_lat) ''LONG'' ex_long)
                                         ''PID'' (IntV 1))] of
                   Inl err \<Rightarrow> Inl err
                 | Inr t \<Rightarrow> Inr (Some t)))
           = Inr (Some \<lparr>columns = ex_columns, index_name = None, index = [IntV 0],
                         rows = ex_rows_one 1\<rparr>)"
    by (simp add: read_csv_ex_payload_one_row setitem_def pd_concat_def List.map_filter_simps
        union_columns_def DataFrame_def ex_columns_def ex_rows_one_def)
  from second_marker_ends_payload [of ex_body_two_markers 5 20 ex_lat ex_long "Some ex_disc"
      "Some ex_ctrl" "''%Y%m%d''" _ "\<lambda>rq. Response ex_body_two_markers" basic_base_uri
      "\<lambda>rq. Response (''POWER-END HEADER-'' @ ex_payload_one_row @ ''-END HEADER-''
                        @ ''anything else'')" "''anything else''" 1 "Some DataFrame",
      OF a b params_ex_fire refl]
  show ?thesis
    unfolding c d e by simp
qed

section \<open>The historical window\<close>

text \<open>The offset of the code is the calendar arithmetic of the specification.\<close>

lemma minus_months_6:
  assumes "valid_timestamp D"
  shows "minus_months D 6 = months_before 6 D"
proof -
  from assms have y: "1 \<le> year D" and m: "1 \<le> month D" "month D \<le> 12"
    by (simp_all add: valid_timestamp_def)
  show ?thesis
  proof (cases "month D \<le> 6")
    case True
    define j where "j = month D - 1"
    define z where "z = year D - 1"
    from True m y have j: "month D = j + 1" "j < 6" and z: "year D = z + 1"
      by (simp_all add: j_def z_def)
    from j have k: "12 * year D + (month D - 1) - 6 = 12 * z + (j + 6)"
      by (simp add: z)
    from j have d: "(12 * z + (j + 6)) div 12 = z" and r: "(12 * z + (j + 6)) mod 12 = j + 6"
      by simp_all
    have n: "nat (int (j + 1) - int 6 + 12) = j + 6 + 1"
      by arith
    from j(2) have l: "int (j + 1) - int 6 < 1"
      by arith
    show ?thesis
      unfolding months_before_def k Let_def d r minus_months_def
      unfolding j(1) z
      using l by (simp only: n if_True min.commute diff_add_inverse2)
  next
    case False
    define j where "j = month D - 7"
    from False m have j: "month D = j + 7" "j < 6"
      by (simp_all add: j_def)
    from j have k: "12 * year D + (month D - 1) - 6 = 12 * year D + j"
      by simp
    from j have d: "(12 * year D + j) div 12 = year D" and r: "(12 * year D + j) mod 12 = j"
      by simp_all
    have n: "nat (int (j + 7) - int 6) = j + 1"
      by arith
    have l: "\<not> int (j + 7) - int 6 < 1"
      by arith
    show ?thesis
      unfolding months_before_def k Let_def d r minus_months_def
      unfolding j(1)
      using l by (simp only: n if_False min.commute)
  qed
qed

lemma minus_months_6_calendar:
  assumes "valid_timestamp D"
  shows "calendar_months_before 6 D (minus_months D 6)"
proof -
  from assms have y: "1 \<le> year D" and m: "1 \<le> month D" "month D \<le> 12"
    by (simp_all add: valid_timestamp_def)
  show ?thesis
  proof (cases "month D \<le> 6")
    case True
    from y have "12 * (year D - 1) + 12 = 12 * year D" by arith
    with True m show ?thesis
      by (simp add: calendar_months_before_def minus_months_def Let_def min.commute
          nat_add_distrib)
  next
    case False
    with m have "1 \<le> month D - 6" and "month D - 6 + 6 = month D" and "month D - 6 \<le> 12"
      by arith+
    with False show ?thesis
      by (simp add: calendar_months_before_def minus_months_def Let_def min.commute
          nat_diff_distrib)
  qed
qed

text \<open>The format \<open>%Y\<close> gives the four digits of the year.\<close>

lemma digit_decimal: "digit n = decimal_digit (n mod 10)"
proof -
  have "\<forall>k\<in>set [0..<10]. ''0123456789'' ! k = decimal_digit k"
    by (simp add: upt_rec decimal_digit_def)
  moreover have "n mod 10 \<in> set [0..<10]"
    by simp
  ultimately show ?thesis
    unfolding digit_def by blast
qed

lemma zero_pad_4:
  "zero_pad (Suc (Suc (Suc (Suc 0)))) n
   = [digit (n div 10 div 10 div 10), digit (n div 10 div 10), digit (n div 10), digit n]"
  by simp

lemma zero_pad_year4: "zero_pad 4 n = year4 n"
proof -
  have 4: "(4 :: nat) = Suc (Suc (Suc (Suc 0)))" by simp
  have "n div 10 div 10 = n div 100" and "n div 10 div 10 div 10 = n div 1000"
    by (simp_all add: div_mult2_eq [symmetric])
  then show ?thesis
    unfolding year4_def 4 zero_pad_4 by (simp add: digit_decimal)
qed

lemma strftime_Y: "strftime t ''%Y'' = year4 (year t)"
  by (simp add: zero_pad_year4)

text \<open>The subtraction returns the calendar date where that is a Timestamp.\<close>

lemma sub_DateOffset_months_6:
  assumes "valid_timestamp D" and "in_bounds (months_before 6 D)"
  shows "sub_DateOffset_months (Some D) 6 = Inr (Some (months_before 6 D))"
  using assms by (simp add: sub_DateOffset_months_def minus_months_6)

lemma last_180_prec_args_Inr:
  assumes "FireDiscoveryDateTime r = Some D" and "valid_timestamp D"
    and "in_bounds (months_before 6 D)"
  shows "last_180_prec_args r
         = Inr \<lparr>a_id = id_num r, a_lat = InitialLatitude r, a_long = InitialLongitude r,
                a_start_date = Some (months_before 6 D), a_end_date = Some D,
                a_base_uri = last_180_prec_base_uri, a_date_filter = ''%Y''\<rparr>"
  using assms by (simp add: last_180_prec_args_def sub_DateOffset_months_6)

lemma historical_call:
  fixes r D
  defines "a \<equiv> \<lparr>a_id = id_num r, a_lat = InitialLatitude r, a_long = InitialLongitude r,
                a_start_date = Some (months_before 6 D), a_end_date = Some D,
                a_base_uri = last_180_prec_base_uri, a_date_filter = ''%Y''\<rparr>"
  assumes "FireDiscoveryDateTime r = Some D"
  shows "sent_request a = Some (historical_request r D)"
    and "answered (a, get) = historical_answered get r"
    and "fetched_rows (a, get) = historical_rows get r"
proof -
  show s: "sent_request a = Some (historical_request r D)"
    by (simp add: a_def sent_request_def historical_request_def zero_pad_year4)
  have i: "a_id a = id_num r" "a_lat a = InitialLatitude r" "a_long a = InitialLongitude r"
    by (simp_all add: a_def)
  from s assms(2) show "answered (a, get) = historical_answered get r"
    by (simp add: answered_def historical_answered_def)
  from s assms(2) show "fetched_rows (a, get) = historical_rows get r"
    by (simp add: fetched_rows_def historical_rows_def i split: outcome.splits)
qed

text \<open>A loop whose arguments can all be computed is the loop over these arguments.\<close>

lemma run_records_calls:
  assumes "\<forall>p\<in>set recs. args (fst p) = Inr (a (fst p))"
  shows "run_records args recs acc = run_calls (map (\<lambda>p. (a (fst p), snd p)) recs) acc"
  using assms
proof (induction recs arbitrary: acc)
  case Nil
  then show ?case by simp
next
  case (Cons p recs)
  obtain r get where p: "p = (r, get)" by (cases p)
  from Cons.prems p have r: "args r = Inr (a r)" by simp
  from Cons.prems have "\<forall>p\<in>set recs. args (fst p) = Inr (a (fst p))" by simp
  from Cons.IH [OF this] p r show ?case
    by (simp split: sum.splits)
qed

lemma zip_nth:
  "zip xs (map f [0..<length xs]) = map (\<lambda>k. (xs ! k, f k)) [0..<length xs]"
  by (rule nth_equalityI) simp_all

lemma select_spec_discovery: "select_spec r \<Longrightarrow> \<exists>D. FireDiscoveryDateTime r = Some D"
  by (auto simp: select_spec_def split: option.splits)

lemma valid_ex_disc: "valid_timestamp ex_disc"
  by (simp add: valid_timestamp_def ex_disc_def days_in_month_def)

lemma valid_ex_spring_disc: "valid_timestamp ex_spring_disc"
  by (simp add: valid_timestamp_def ex_spring_disc_def days_in_month_def)

lemma months_before_ex_disc: "months_before 6 ex_disc = ex_start"
  by (simp add: months_before_def ex_disc_def ex_start_def Let_def days_in_month_def)

lemma months_before_ex_spring_disc: "months_before 6 ex_spring_disc = ex_spring_start"
  by (simp add: months_before_def ex_spring_disc_def ex_spring_start_def Let_def
      days_in_month_def)

lemma ts_ns_ex_start: "ts_ns ex_start = 737443 * day_ns + 82800000000000"
  by (simp add: ts_ns_def ex_start_def ymd2ord_def days_before_month_def days_before_year_def)

lemma ts_ns_ex_spring_start: "ts_ns ex_spring_start = 737698 * day_ns + 36000000000000"
  by (simp add: ts_ns_def ex_spring_start_def ymd2ord_def days_before_month_def
      days_before_year_def days_in_month_def is_leap_def upt_rec)

lemma in_bounds_ex_starts: "in_bounds ex_start" "in_bounds ex_spring_start"
  by (simp_all add: in_bounds_def ts_ns_ex_start ts_ns_ex_spring_start day_ns_def)

lemma year4_2020: "year4 2020 = ''2020''"
  by (simp add: year4_def decimal_digit_def)

lemma year4_2021: "year4 2021 = ''2021''"
  by (simp add: year4_def decimal_digit_def)

text \<open>
  C6, as amended: the historical-precipitation campaign makes one call per record of the
  filtered table, in order. Every such record has a discovery date D; where the day six calendar
  months before D (month arithmetic with the day clipped to the month's length, not a
  number of days) is a Timestamp, the record's call is made with that day as the start
  date and D as the end date, and its request goes to the monthly address with the
  record's coordinates and the years of these two dates. When the service answers each
  of these requests usably, the table of the campaign holds the rows of the answers in
  the order of the records.
\<close>

theorem historical_window:
  assumes "filtered_df df = Inr fs"
    and "\<forall>r\<in>set fs. \<forall>D. FireDiscoveryDateTime r = Some D
           \<longrightarrow> valid_timestamp D \<and> in_bounds (months_before 6 D)"
  shows "(\<forall>r\<in>set fs. \<exists>D A. FireDiscoveryDateTime r = Some D \<and>
            last_180_prec_args r = Inr A \<and>
            a_start_date A = Some (months_before 6 D) \<and>
            calendar_months_before 6 D (months_before 6 D) \<and>
            a_end_date A = Some D \<and>
            a_base_uri A = last_180_prec_base_uri \<and>
            params (a_lat A) (a_long A) (a_start_date A) (a_end_date A) (a_date_filter A)
              = Inr \<lparr>latitude = InitialLatitude r, longitude = InitialLongitude r,
                     q_start = year4 (year (months_before 6 D)), q_end = year4 (year D)\<rparr>) \<and>
         ((\<forall>k<length fs. historical_answered (net k) (fs ! k)) \<longrightarrow>
            (\<exists>T. nasa_last_180_prec_df net df = Inr (Some T) \<and>
                 rows T = concat (map (\<lambda>k. historical_rows (net k) (fs ! k)) [0..<length fs])))"
proof (intro conjI impI ballI)
  fix r assume r: "r \<in> set fs"
  from filtered_df_Inr [OF assms(1)] r have "select_spec r" by simp
  from select_spec_discovery [OF this] obtain D where D: "FireDiscoveryDateTime r = Some D" ..
  with assms(2) r have v: "valid_timestamp D" and b: "in_bounds (months_before 6 D)"
    by blast+
  define A where "A = \<lparr>a_id = id_num r, a_lat = InitialLatitude r, a_long = InitialLongitude r,
                        a_start_date = Some (months_before 6 D), a_end_date = Some D,
                        a_base_uri = last_180_prec_base_uri, a_date_filter = ''%Y''\<rparr>"
  from last_180_prec_args_Inr [OF D v b] have 1: "last_180_prec_args r = Inr A"
    by (simp add: A_def)
  from minus_months_6_calendar [OF v] minus_months_6 [OF v]
  have 2: "calendar_months_before 6 D (months_before 6 D)" by simp
  have 3: "params (a_lat A) (a_long A) (a_start_date A) (a_end_date A) (a_date_filter A)
           = Inr \<lparr>latitude = InitialLatitude r, longitude = InitialLongitude r,
                  q_start = year4 (year (months_before 6 D)), q_end = year4 (year D)\<rparr>"
    by (simp add: A_def params_def zero_pad_year4)
  have 4: "a_start_date A = Some (months_before 6 D)" "a_end_date A = Some D"
    "a_base_uri A = last_180_prec_base_uri"
    by (simp_all add: A_def)
  from D 1 2 3 4
  show "\<exists>D A. FireDiscoveryDateTime r = Some D \<and>
            last_180_prec_args r = Inr A \<and>
            a_start_date A = Some (months_before 6 D) \<and>
            calendar_months_before 6 D (months_before 6 D) \<and>
            a_end_date A = Some D \<and>
            a_base_uri A = last_180_prec_base_uri \<and>
            params (a_lat A) (a_long A) (a_start_date A) (a_end_date A) (a_date_filter A)
              = Inr \<lparr>latitude = InitialLatitude r, longitude = InitialLongitude r,
                     q_start = year4 (year (months_before 6 D)), q_end = year4 (year D)\<rparr>"
    by blast
next
  assume h: "\<forall>k<length fs. historical_answered (net k) (fs ! k)"
  define a where "a = (\<lambda>r :: incident. \<lparr>a_id = id_num r, a_lat = InitialLatitude r,
      a_long = InitialLongitude r,
      a_start_date = map_option (months_before 6) (FireDiscoveryDateTime r),
      a_end_date = FireDiscoveryDateTime r,
      a_base_uri = last_180_prec_base_uri, a_date_filter = ''%Y''\<rparr>)"
  have D: "\<exists>D. FireDiscoveryDateTime r = Some D \<and> valid_timestamp D \<and>
               in_bounds (months_before 6 D)" if "r \<in> set fs" for r
  proof -
    from that filtered_df_Inr [OF assms(1)] have "select_spec r" by simp
    from select_spec_discovery [OF this] assms(2) that show ?thesis by blast
  qed
  have args: "last_180_prec_args r = Inr (a r)" if "r \<in> set fs" for r
  proof -
    from D [OF that] obtain D' where d: "FireDiscoveryDateTime r = Some D'"
      and v: "valid_timestamp D'" and b: "in_bounds (months_before 6 D')"
      by blast
    from last_180_prec_args_Inr [OF d v b] d show ?thesis
      by (simp add: a_def)
  qed
  have call: "answered (a r, get) = historical_answered get r"
    "fetched_rows (a r, get) = historical_rows get r" if "r \<in> set fs" for r get
  proof -
    from D [OF that] obtain D' where d: "FireDiscoveryDateTime r = Some D'"
      by blast
    from historical_call(2) [OF d, of get] d
    show "answered (a r, get) = historical_answered get r"
      by (simp add: a_def)
    from historical_call(3) [OF d, of get] d
    show "fetched_rows (a r, get) = historical_rows get r"
      by (simp add: a_def)
  qed
  define recs where "recs = zip fs (map net [0..<length fs])"
  define calls where "calls = map (\<lambda>p. (a (fst p), snd p)) recs"
  have recs: "recs = map (\<lambda>k. (fs ! k, net k)) [0..<length fs]"
    unfolding recs_def by (rule zip_nth)
  have "\<forall>p\<in>set recs. last_180_prec_args (fst p) = Inr (a (fst p))"
    by (auto simp: recs intro: args)
  from run_records_calls [OF this]
  have loop: "run_records last_180_prec_args recs acc = run_calls calls acc" for acc
    by (simp add: calls_def)
  have calls: "calls = map (\<lambda>k. (a (fs ! k), net k)) [0..<length fs]"
    by (simp add: calls_def recs comp_def)
  have ans: "\<forall>c\<in>set calls. answered c"
  proof
    fix c assume "c \<in> set calls"
    then obtain k where k: "k < length fs" and c: "c = (a (fs ! k), net k)"
      by (auto simp: calls)
    from k have "fs ! k \<in> set fs" by simp
    from call(1) [OF this, of "net k"] h k c show "answered c"
      by simp
  qed
  have f: "map fetched_rows calls = map (\<lambda>k. historical_rows (net k) (fs ! k)) [0..<length fs]"
    unfolding calls map_map
  proof (rule map_cong [OF refl])
    fix k assume "k \<in> set [0..<length fs]"
    then have "fs ! k \<in> set fs" by simp
    from call(2) [OF this, of "net k"]
    show "(fetched_rows \<circ> (\<lambda>k. (a (fs ! k), net k))) k = historical_rows (net k) (fs ! k)"
      by simp
  qed
  from run_calls_rows [OF ans, of DataFrame] obtain T
    where T: "run_calls calls (Some DataFrame) = Inr (Some T)"
      and r: "rows T = rows DataFrame @ concat (map fetched_rows calls)"
    by blast
  from T assms(1) loop have "nasa_last_180_prec_df net df = Inr (Some T)"
    by (simp add: nasa_last_180_prec_df_def recs_def)
  moreover from r f
  have "rows T = concat (map (\<lambda>k. historical_rows (net k) (fs ! k)) [0..<length fs])"
    by (simp add: DataFrame_def)
  ultimately
  show "\<exists>T. nasa_last_180_prec_df net df = Inr (Some T) \<and>
            rows T = concat (map (\<lambda>k. historical_rows (net k) (fs ! k)) [0..<length fs])"
    by blast
qed

lemma ex_fire_fields:
  "FireDiscoveryDateTime ex_fire = Some ex_disc" "id_num ex_fire = 1"
  "InitialLatitude ex_fire = ex_lat" "InitialLongitude ex_fire = ex_long"
  by (simp_all add: ex_fire_def ex_lat_def ex_long_def)

lemma ex_spring_fire_fields:
  "FireDiscoveryDateTime ex_spring_fire = Some ex_spring_disc" "id_num ex_spring_fire = 6"
  "InitialLatitude ex_spring_fire = ex_lat" "InitialLongitude ex_spring_fire = ex_long"
  by (simp_all add: ex_spring_fire_def ex_fire_def ex_lat_def ex_long_def)

lemma historical_request_ex_fire:
  "historical_request ex_fire ex_disc
   = (last_180_prec_base_uri,
      \<lparr>latitude = ex_lat, longitude = ex_long, q_start = ''2020'', q_end = ''2020''\<rparr>)"
  by (simp add: historical_request_def months_before_ex_disc year4_2020 ex_fire_fields
      ex_disc_def [THEN arg_cong, of year] ex_start_def [THEN arg_cong, of year])

lemma historical_request_ex_spring_fire:
  "historical_request ex_spring_fire ex_spring_disc
   = (last_180_prec_base_uri,
      \<lparr>latitude = ex_lat, longitude = ex_long, q_start = ''2020'', q_end = ''2021''\<rparr>)"
  by (simp add: historical_request_def months_before_ex_spring_disc year4_2020 year4_2021
      ex_spring_fire_fields ex_spring_disc_def [THEN arg_cong, of year]
      ex_spring_start_def [THEN arg_cong, of year])

theorem historical_window_witness:
  "filtered_df ex_two_fires = Inr ex_two_fires \<and>
   (\<exists>A. last_180_prec_args ex_spring_fire = Inr A \<and>
        a_start_date A = Some ex_spring_start \<and>
        a_end_date A = Some ex_spring_disc \<and>
        a_base_uri A = last_180_prec_base_uri \<and>
        params (a_lat A) (a_long A) (a_start_date A) (a_end_date A) (a_date_filter A)
          = Inr \<lparr>latitude = ex_lat, longitude = ex_long, q_start = ''2020'', q_end = ''2021''\<rparr>) \<and>
   calendar_months_before 6 ex_spring_disc ex_spring_start \<and>
   ts_ns ex_spring_disc - ts_ns ex_spring_start = timedelta_days 182 \<and>
   (\<exists>T. nasa_last_180_prec_df ex_net_hist ex_two_fires = Inr (Some T) \<and>
        rows T = ex_rows_two 1 @ ex_rows_one 6)"
proof -
  have v: "\<forall>r\<in>set ex_two_fires. \<forall>D. FireDiscoveryDateTime r = Some D
             \<longrightarrow> valid_timestamp D \<and> in_bounds (months_before 6 D)"
    using valid_ex_disc valid_ex_spring_disc in_bounds_ex_starts
    by (simp add: ex_two_fires_def ex_fire_fields ex_spring_fire_fields months_before_ex_disc
        months_before_ex_spring_disc)
  note t = historical_window [OF filtered_df_ex_two_fires v, of ex_net_hist]
  have m: "ex_spring_fire \<in> set ex_two_fires"
    by (simp add: ex_two_fires_def)
  from t m obtain D A where "FireDiscoveryDateTime ex_spring_fire = Some D"
    and A: "last_180_prec_args ex_spring_fire = Inr A"
    and "a_start_date A = Some (months_before 6 D)"
    and "calendar_months_before 6 D (months_before 6 D)"
    and "a_end_date A = Some D"
    and u: "a_base_uri A = last_180_prec_base_uri"
    and "params (a_lat A) (a_long A) (a_start_date A) (a_end_date A) (a_date_filter A)
           = Inr \<lparr>latitude = InitialLatitude ex_spring_fire,
                  longitude = InitialLongitude ex_spring_fire,
                  q_start = year4 (year (months_before 6 D)), q_end = year4 (year D)\<rparr>"
    by blast
  then have 1: "a_start_date A = Some ex_spring_start"
    and 2: "calendar_months_before 6 ex_spring_disc ex_spring_start"
    and 3: "a_end_date A = Some ex_spring_disc"
    and 4: "params (a_lat A) (a_long A) (a_start_date A) (a_end_date A) (a_date_filter A)
            = Inr \<lparr>latitude = ex_lat, longitude = ex_long, q_start = ''2020'', q_end = ''2021''\<rparr>"
    by (simp_all add: ex_spring_fire_fields months_before_ex_spring_disc year4_2020 year4_2021
        ex_spring_disc_def [THEN arg_cong, of year] ex_spring_start_def [THEN arg_cong, of year])
  have 5: "ts_ns ex_spring_disc - ts_ns ex_spring_start = timedelta_days 182"
    unfolding ts_ns_ex_spring_disc ts_ns_ex_spring_start
    by (simp add: timedelta_days_def day_ns_def)
  have a0: "historical_answered (ex_net_hist 0) ex_fire"
    and a1: "historical_answered (ex_net_hist (Suc 0)) ex_spring_fire"
    by (simp_all add: historical_answered_def ex_fire_fields ex_spring_fire_fields
        historical_request_ex_fire historical_request_ex_spring_fire ex_net_hist_def
        usable_ex_bodies)
  have "\<forall>k<length ex_two_fires. historical_answered (ex_net_hist k) (ex_two_fires ! k)"
  proof (intro allI impI)
    fix k assume "k < length ex_two_fires"
    then have "k = 0 \<or> k = Suc 0"
      by (auto simp: ex_two_fires_def)
    with a0 a1 show "historical_answered (ex_net_hist k) (ex_two_fires ! k)"
      by (auto simp: ex_two_fires_def)
  qed
  with t obtain T where T: "nasa_last_180_prec_df ex_net_hist ex_two_fires = Inr (Some T)"
    and r: "rows T = concat (map (\<lambda>k. historical_rows (ex_net_hist k) (ex_two_fires ! k))
                               [0..<length ex_two_fires])"
    by blast
  have r0: "historical_rows (ex_net_hist 0) ex_fire = ex_rows_two 1"
    and r1: "historical_rows (ex_net_hist (Suc 0)) ex_spring_fire = ex_rows_one 6"
    by (simp_all add: historical_rows_def ex_fire_fields ex_spring_fire_fields
        historical_request_ex_fire historical_request_ex_spring_fire ex_net_hist_def
        response_rows_ex_body_two_rows response_rows_ex_body_one_row)
  from r r0 r1 have "rows T = ex_rows_two 1 @ ex_rows_one 6"
    by (simp add: ex_two_fires_def upt_rec)
  with T filtered_df_ex_two_fires A 1 2 3 4 5 u show ?thesis
    by blast
qed

text \<open>
  The claim as stated fails for a record whose discovery date lies in the first six
  months a Timestamp can hold. A record discovered on 1 December 1677 and controlled on
  15 January 1678 passes the filter, so it is a record of the campaign; the day six
  calendar months before its discovery, 1 June 1677, is no Timestamp, the subtraction
  raises OutOfBoundsDatetime, and the loop ends before the record's request is made.
\<close>

theorem early_discovery_counterexample:
  "filtered_df [ex_early_fire] = Inr [ex_early_fire] \<and>
   FireDiscoveryDateTime ex_early_fire = Some ex_early_disc \<and>
   valid_timestamp ex_early_disc \<and> in_bounds ex_early_disc \<and>
   calendar_months_before 6 ex_early_disc ex_early_start \<and>
   in_bounds ex_early_start = False \<and>
   last_180_prec_args ex_early_fire = Inl OutOfBoundsDatetime \<and>
   nasa_last_180_prec_df ex_net_ok [ex_early_fire] = Inl OutOfBoundsDatetime"
proof -
  have d: "ts_ns ex_early_disc = 612482 * day_ns"
    by (simp add: ts_ns_def ex_early_disc_def ymd2ord_def days_before_month_def
        days_before_year_def days_in_month_def is_leap_def upt_rec)
  have c: "ts_ns ex_early_ctrl = 612527 * day_ns"
    by (simp add: ts_ns_def ex_early_ctrl_def ymd2ord_def days_before_month_def
        days_before_year_def)
  have s: "ts_ns ex_early_start = 612299 * day_ns"
    by (simp add: ts_ns_def ex_early_start_def ymd2ord_def days_before_month_def
        days_before_year_def days_in_month_def is_leap_def upt_rec)
  have m: "minus_months ex_early_disc 6 = ex_early_start"
    by (simp add: minus_months_def ex_early_disc_def ex_early_start_def Let_def
        days_in_month_def)
  have f: "filtered_df [ex_early_fire] = Inr [ex_early_fire]"
    by (simp add: filtered_df_conv select_spec_def beyond_timedelta_def ex_early_fire_def
        ex_fire_def d c day_ns_def)
  have e: "FireDiscoveryDateTime ex_early_fire = Some ex_early_disc"
    by (simp add: ex_early_fire_def)
  have v: "valid_timestamp ex_early_disc"
    by (simp add: valid_timestamp_def ex_early_disc_def days_in_month_def)
  have b: "in_bounds ex_early_disc"
    by (simp add: in_bounds_def d day_ns_def)
  have k: "calendar_months_before 6 ex_early_disc ex_early_start"
    by (simp add: calendar_months_before_def ex_early_disc_def ex_early_start_def
        days_in_month_def)
  have o: "in_bounds ex_early_start = False"
    by (simp add: in_bounds_def s day_ns_def)
  have a: "last_180_prec_args ex_early_fire = Inl OutOfBoundsDatetime"
    by (simp add: last_180_prec_args_def sub_DateOffset_months_def e m o)
  with f have "nasa_last_180_prec_df ex_net_ok [ex_early_fire] = Inl OutOfBoundsDatetime"
    by (simp add: nasa_last_180_prec_df_def)
  with f e v b k o a show ?thesis by simp
qed

section \<open>Inner joins\<close>

lemma match_pairs_Nil [simp]: "match_pairs kl kr [] rs = []"
  by (simp add: match_pairs_def)

lemma match_pairs_Cons:
  "match_pairs kl kr (l # ls) rs
   = map (Pair l) (filter (\<lambda>r. kl l = kr r) rs) @ match_pairs kl kr ls rs"
  by (simp add: match_pairs_def)

lemma match_pairs_mem:
  "(l, r) \<in> set (match_pairs kl kr ls rs) \<longleftrightarrow> l \<in> set ls \<and> r \<in> set rs \<and> kl l = kr r"
  by (auto simp: match_pairs_def)

lemma length_filter_key_le_1:
  "distinct (map k rs) \<Longrightarrow> length (filter (\<lambda>r. v = k r) rs) \<le> 1"
proof (induction rs)
  case Nil
  then show ?case by simp
next
  case (Cons r rs)
  show ?case
  proof (cases "v = k r")
    case True
    with Cons.prems have "filter (\<lambda>r. v = k r) rs = []"
      by (auto simp: filter_empty_conv)
    with True show ?thesis by simp
  next
    case False
    with Cons show ?thesis by simp
  qed
qed

lemma length_match_pairs_le_left:
  assumes "distinct (map kr rs)"
  shows "length (match_pairs kl kr ls rs) \<le> length ls"
proof (induction ls)
  case Nil
  show ?case by simp
next
  case (Cons l ls)
  from length_filter_key_le_1 [OF assms, of "kl l"] Cons.IH show ?case
    by (simp add: match_pairs_Cons)
qed

lemma length_filter_disjoint:
  "(\<And>x. x \<in> set xs \<Longrightarrow> \<not> (P x \<and> Q x)) \<Longrightarrow>
   length (filter P xs) + length (filter Q xs) = length (filter (\<lambda>x. P x \<or> Q x) xs)"
  by (induction xs) auto

lemma length_match_pairs_le_keys:
  assumes "distinct (map kl ls)"
  shows "length (match_pairs kl kr ls rs) \<le> length (filter (\<lambda>r. kr r \<in> kl ` set ls) rs)"
  using assms
proof (induction ls)
  case Nil
  show ?case by simp
next
  case (Cons l ls)
  from Cons.prems have new: "kl l \<notin> kl ` set ls" and d: "distinct (map kl ls)"
    by simp_all
  have "length (match_pairs kl kr (l # ls) rs)
        = length (filter (\<lambda>r. kl l = kr r) rs) + length (match_pairs kl kr ls rs)"
    by (simp add: match_pairs_Cons)
  also from Cons.IH [OF d]
  have "\<dots> \<le> length (filter (\<lambda>r. kl l = kr r) rs) + length (filter (\<lambda>r. kr r \<in> kl ` set ls) rs)"
    by simp
  also from new
  have "\<dots> = length (filter (\<lambda>r. kl l = kr r \<or> kr r \<in> kl ` set ls) rs)"
    by (intro length_filter_disjoint) auto
  also have "\<dots> = length (filter (\<lambda>r. kr r \<in> kl ` set (l # ls)) rs)"
    by (rule arg_cong [where f = length], rule filter_cong) auto
  finally show ?case .
qed

lemma length_match_pairs_le_right:
  assumes "distinct (map kl ls)"
  shows "length (match_pairs kl kr ls rs) \<le> length rs"
  using length_match_pairs_le_keys [OF assms, of kr rs] length_filter_le [of _ rs]
  by (rule order_trans)

text \<open>A column with distinct values on one side keeps distinct values through the join.\<close>

lemma distinct_match_pairs_fst:
  assumes "distinct (map g ls)" and "distinct (map kr rs)"
  shows "distinct (map (\<lambda>p. g (fst p)) (match_pairs kl kr ls rs))"
  using assms(1)
proof (induction ls)
  case Nil
  show ?case by simp
next
  case (Cons l ls)
  from Cons.prems have new: "g l \<notin> g ` set ls" and d: "distinct (map g ls)"
    by simp_all
  have one: "length (filter (\<lambda>r. kl l = kr r) rs) \<le> 1"
    by (rule length_filter_key_le_1 [OF assms(2)])
  have here: "map (\<lambda>p. g (fst p)) (map (Pair l) (filter (\<lambda>r. kl l = kr r) rs))
              = replicate (length (filter (\<lambda>r. kl l = kr r) rs)) (g l)"
    by (simp add: map_replicate_const comp_def)
  from one have rep: "distinct (replicate (length (filter (\<lambda>r. kl l = kr r) rs)) (g l))"
    by (cases "filter (\<lambda>r. kl l = kr r) rs") (auto simp: le_Suc_eq)
  have notin: "g l \<notin> set (map (\<lambda>p. g (fst p)) (match_pairs kl kr ls rs))"
  proof
    assume "g l \<in> set (map (\<lambda>p. g (fst p)) (match_pairs kl kr ls rs))"
    then obtain p where "p \<in> set (match_pairs kl kr ls rs)" and "g l = g (fst p)"
      by auto
    moreover obtain a b where "p = (a, b)" by (cases p)
    ultimately have "fst p \<in> set ls" and "g l = g (fst p)"
      by (simp_all add: match_pairs_mem)
    with new show False by auto
  qed
  then have "set (replicate (length (filter (\<lambda>r. kl l = kr r) rs)) (g l))
             \<inter> set (map (\<lambda>p. g (fst p)) (match_pairs kl kr ls rs)) = {}"
    by (auto simp: set_replicate_conv_if)
  with rep Cons.IH [OF d] show ?case
    by (simp add: match_pairs_Cons here del: map_map)
qed

lemma distinct_match_pairs_snd:
  assumes "distinct (map g rs)" and "distinct (map kl ls)"
  shows "distinct (map (\<lambda>p. g (snd p)) (match_pairs kl kr ls rs))"
  using assms(2)
proof (induction ls)
  case Nil
  show ?case by simp
next
  case (Cons l ls)
  from Cons.prems have new: "kl l \<notin> kl ` set ls" and d: "distinct (map kl ls)"
    by simp_all
  from assms(1) have inj: "inj_on g (set rs)"
    by (simp add: distinct_map)
  have here: "map (\<lambda>p. g (snd p)) (map (Pair l) (filter (\<lambda>r. kl l = kr r) rs))
              = map g (filter (\<lambda>r. kl l = kr r) rs)"
    by (simp add: comp_def)
  from assms(1) have a: "distinct (map g (filter (\<lambda>r. kl l = kr r) rs))"
    by (rule distinct_map_filter)
  have b: "set (map g (filter (\<lambda>r. kl l = kr r) rs))
           \<inter> set (map (\<lambda>p. g (snd p)) (match_pairs kl kr ls rs)) = {}"
  proof -
    have "False" if r: "r \<in> set rs" "kl l = kr r"
      and p: "p \<in> set (match_pairs kl kr ls rs)" and eq: "g r = g (snd p)" for r p
    proof -
      obtain a b where "p = (a, b)" by (cases p)
      with p have l': "fst p \<in> set ls" and r': "snd p \<in> set rs"
        and k: "kl (fst p) = kr (snd p)"
        by (simp_all add: match_pairs_mem)
      from inj eq r(1) r' have "r = snd p" by (rule inj_onD)
      with r(2) k have "kl l = kl (fst p)" by simp
      with new l' show False by auto
    qed
    then show ?thesis by auto
  qed
  from a b Cons.IH [OF d] show ?case
    by (simp add: match_pairs_Cons here del: map_map)
qed

text \<open>The rows of a join, by the matching pairs.\<close>

lemma rows_merge:
  assumes "merge left right left_on right_on = Inr m"
  shows "rows m = map (\<lambda>p. merged_row left right left_on right_on (fst p) (snd p))
                    (match_pairs (\<lambda>l. cell_at l left_on) (\<lambda>r. cell_at r right_on)
                       (rows left) (rows right))"
  using assms
  by (auto simp: merge_def Let_def match_pairs_def map_concat comp_def split: if_splits
      intro!: arg_cong [where f = concat])

lemma columns_merge:
  assumes "merge left right left_on right_on = Inr m"
  shows "columns m = map (left_name (columns right) left_on right_on) (columns left)
                     @ map (right_name (columns left)) (right_kept (columns right) left_on right_on)"
    and "left_on \<in> set (columns left)" and "right_on \<in> set (columns right)"
  using assms by (auto simp: merge_def Let_def split: if_splits)

text \<open>Reading a column of a joined row: which side it comes from.\<close>

lemma left_name_eq:
  assumes "\<not> suffix ''_x'' k"
  shows "left_name rc lo ro c = k \<longleftrightarrow> c = k \<and> left_name rc lo ro k = k"
proof -
  have "c @ ''_x'' \<noteq> k"
    using assms by (auto simp: suffix_def)
  then show ?thesis
    by (auto simp: left_name_def)
qed

lemma right_name_eq:
  assumes "\<not> suffix ''_y'' k"
  shows "right_name lc c = k \<longleftrightarrow> c = k \<and> right_name lc k = k"
proof -
  have "c @ ''_y'' \<noteq> k"
    using assms by (auto simp: suffix_def)
  then show ?thesis
    by (auto simp: right_name_def)
qed

lemma map_of_renamed:
  assumes "\<And>c. f c = k \<longleftrightarrow> c = k \<and> f k = k"
  shows "map_of (map (\<lambda>c. (f c, v c)) cs) k = (if k \<in> set cs \<and> f k = k then Some (v k) else None)"
proof (induction cs)
  case Nil
  show ?case by simp
next
  case (Cons c cs)
  show ?case
  proof (cases "f c = k")
    case True
    with assms [of c] show ?thesis by simp
  next
    case False
    with assms [of c] Cons.IH show ?thesis by auto
  qed
qed

lemma mem_renamed:
  assumes "\<And>c. f c = k \<longleftrightarrow> c = k \<and> f k = k"
  shows "k \<in> set (map f cs) \<longleftrightarrow> k \<in> set cs \<and> f k = k"
proof -
  have "k \<in> set (map f cs) \<longleftrightarrow> (\<exists>c\<in>set cs. f c = k)"
    by auto
  also have "\<dots> \<longleftrightarrow> k \<in> set cs \<and> f k = k"
  proof
    assume "\<exists>c\<in>set cs. f c = k"
    then obtain c where "c \<in> set cs" and "f c = k" ..
    with assms [of c] show "k \<in> set cs \<and> f k = k" by simp
  next
    assume "k \<in> set cs \<and> f k = k"
    then show "\<exists>c\<in>set cs. f c = k" by (intro bexI [of _ k]) simp_all
  qed
  finally show ?thesis .
qed

lemma cell_at_merged_row:
  assumes "\<not> suffix ''_x'' k" and "\<not> suffix ''_y'' k"
  shows "cell_at (merged_row left right lo ro l r) k
         = (if k \<in> set (columns left) \<and> left_name (columns right) lo ro k = k then cell_at l k
            else if k \<in> set (right_kept (columns right) lo ro) \<and> right_name (columns left) k = k
            then cell_at r k else NaN)"
proof -
  let ?L = "map (\<lambda>c. (left_name (columns right) lo ro c, cell_at l c)) (columns left)"
  let ?R = "map (\<lambda>c. (right_name (columns left) c, cell_at r c))
              (right_kept (columns right) lo ro)"
  have L: "map_of ?L k = (if k \<in> set (columns left) \<and> left_name (columns right) lo ro k = k
                          then Some (cell_at l k) else None)"
    by (rule map_of_renamed [OF left_name_eq [OF assms(1)]])
  have R: "map_of ?R k = (if k \<in> set (right_kept (columns right) lo ro)
                             \<and> right_name (columns left) k = k
                          then Some (cell_at r k) else None)"
    by (rule map_of_renamed [OF right_name_eq [OF assms(2)]])
  have M: "map_of (merged_row left right lo ro l r) k
           = (case map_of ?L k of None \<Rightarrow> map_of ?R k | Some v \<Rightarrow> Some v)"
    by (simp add: merged_row_def map_add_def)
  have "cell_at (merged_row left right lo ro l r) k
        = (case map_of (merged_row left right lo ro l r) k of None \<Rightarrow> NaN | Some v \<Rightarrow> v)"
    by (simp add: cell_at_def)
  then show ?thesis
    by (simp add: M L R)
qed

lemma mem_columns_merge:
  assumes "merge left right lo ro = Inr m" and "\<not> suffix ''_x'' k" and "\<not> suffix ''_y'' k"
  shows "k \<in> set (columns m)
         \<longleftrightarrow> (k \<in> set (columns left) \<and> left_name (columns right) lo ro k = k)
           \<or> (k \<in> set (right_kept (columns right) lo ro) \<and> right_name (columns left) k = k)"
  unfolding columns_merge(1) [OF assms(1)] set_append Un_iff
    mem_renamed [where f = "left_name (columns right) lo ro", OF left_name_eq [OF assms(2)]]
    mem_renamed [where f = "right_name (columns left)", OF right_name_eq [OF assms(3)]]
  by (rule refl)

lemma id_not_suffixed: "\<not> suffix ''_x'' ''id''" "\<not> suffix ''_y'' ''id''"
  by (simp_all add: suffix_to_prefix)

text \<open>The three shapes of join the notebook makes, as far as the column \<open>id\<close> goes.\<close>

lemma id_after_merge_on_shared_key:
  assumes m: "merge left right u u = Inr d" and u: "u \<noteq> ''id''"
    and i: "''id'' \<in> set (columns d)"
  shows "(''id'' \<in> set (columns left)) \<noteq> (''id'' \<in> set (columns right))"
    and "cell_at (merged_row left right u u l r) ''id''
         = (if ''id'' \<in> set (columns left) then cell_at l ''id'' else cell_at r ''id'')"
proof -
  from i u show x: "(''id'' \<in> set (columns left)) \<noteq> (''id'' \<in> set (columns right))"
    unfolding mem_columns_merge [OF m id_not_suffixed]
    by (auto simp: left_name_def right_name_def right_kept_def)
  from x u show "cell_at (merged_row left right u u l r) ''id''
         = (if ''id'' \<in> set (columns left) then cell_at l ''id'' else cell_at r ''id'')"
    unfolding cell_at_merged_row [OF id_not_suffixed]
    by (auto simp: left_name_def right_name_def right_kept_def)
qed

lemma id_after_merge_on_id:
  assumes m: "merge left right ''id'' ''id'' = Inr d"
  shows "cell_at (merged_row left right ''id'' ''id'' l r) ''id'' = cell_at l ''id''"
    and "''id'' \<in> set (columns d)"
proof -
  from columns_merge(2) [OF m] show "cell_at (merged_row left right ''id'' ''id'' l r) ''id'' = cell_at l ''id''"
    unfolding cell_at_merged_row [OF id_not_suffixed]
    by (simp add: left_name_def)
  from columns_merge(2) [OF m] show "''id'' \<in> set (columns d)"
    unfolding mem_columns_merge [OF m id_not_suffixed]
    by (simp add: left_name_def)
qed

lemma id_after_merge_with_landcover:
  assumes m: "merge left right ''id'' ''fire_id'' = Inr d"
    and i: "''id'' \<in> set (columns d)"
  shows "cell_at (merged_row left right ''id'' ''fire_id'' l r) ''id'' = cell_at l ''id''"
proof -
  from columns_merge(2) [OF m] have l: "''id'' \<in> set (columns left)" .
  with i have "''id'' \<notin> set (columns right)"
    unfolding mem_columns_merge [OF m id_not_suffixed]
    by (auto simp: left_name_def right_name_def right_kept_def)
  with l show ?thesis
    unfolding cell_at_merged_row [OF id_not_suffixed]
    by (simp add: left_name_def)
qed

lemma id_after_merge_with_weather:
  assumes m: "merge left right ''fire_id'' ''id'' = Inr d"
    and i: "''id'' \<in> set (columns d)"
  shows "cell_at (merged_row left right ''fire_id'' ''id'' l r) ''id'' = cell_at r ''id''"
proof -
  from columns_merge(3) [OF m] have r: "''id'' \<in> set (columns right)" .
  with i have "''id'' \<notin> set (columns left)"
    unfolding mem_columns_merge [OF m id_not_suffixed]
    by (auto simp: left_name_def right_name_def right_kept_def)
  with r show ?thesis
    unfolding cell_at_merged_row [OF id_not_suffixed]
    by (simp add: left_name_def right_name_def right_kept_def)
qed

lemma column_values_merge:
  assumes "merge left right lo ro = Inr d"
    and "\<And>l r. cell_at (merged_row left right lo ro l r) k = g l r"
  shows "column_values d k
         = map (\<lambda>p. g (fst p) (snd p))
             (match_pairs (\<lambda>l. cell_at l lo) (\<lambda>r. cell_at r ro) (rows left) (rows right))"
  by (simp add: column_values_def rows_merge [OF assms(1)] assms(2))

lemma length_rows_merge:
  assumes "merge left right lo ro = Inr d"
  shows "distinct (column_values right ro) \<Longrightarrow> length (rows d) \<le> length (rows left)"
    and "distinct (column_values left lo) \<Longrightarrow> length (rows d) \<le> length (rows right)"
  by (simp_all add: rows_merge [OF assms] column_values_def length_match_pairs_le_left
      length_match_pairs_le_right)

section \<open>Dropping columns and setting the index\<close>

lemma map_of_filter_keys:
  "k \<notin> S \<Longrightarrow> map_of (filter (\<lambda>p. fst p \<notin> S) r) k = map_of r k"
  by (induction r) auto

lemma id_not_in_cols: "''id'' \<notin> set cols"
  by (simp add: cols_def)

lemma drop_and_set_index_Inr:
  assumes "drop_and_set_index d labels = Inr m" and "''id'' \<notin> set labels"
  shows "columns m = filter (\<lambda>c. c \<notin> set labels \<and> c \<noteq> ''id'') (columns d)"
    and "index_name m = Some ''id''"
    and "index m = column_values d ''id''"
    and "length (rows m) = length (rows d)"
    and "''id'' \<in> set (columns d)"
    and "\<forall>c\<in>set labels. c \<in> set (columns d)"
proof -
  define d' where "d' = d\<lparr>columns := filter (\<lambda>c. c \<notin> set labels) (columns d),
                           rows := map (filter (\<lambda>p. fst p \<notin> set labels)) (rows d)\<rparr>"
  from assms(1) have ok: "\<not> list_ex (\<lambda>c. c \<notin> set (columns d)) labels"
    by (auto simp: drop_and_set_index_def drop_columns_def split: if_splits)
  then have dc: "drop_columns d labels = Inr d'"
    by (simp add: drop_columns_def d'_def)
  with assms(1) have si: "set_index d' ''id'' = Inr m"
    by (simp add: drop_and_set_index_def)
  then have i: "''id'' \<in> set (columns d')"
    by (auto simp: set_index_def split: if_splits)
  then have "set_index d' ''id''
             = Inr (d'\<lparr>columns := filter (\<lambda>c. c \<noteq> ''id'') (columns d'),
                        index_name := Some ''id'',
                        index := map (\<lambda>r. cell_at r ''id'') (rows d'),
                        rows := map (filter (\<lambda>p. fst p \<noteq> ''id'')) (rows d')\<rparr>)"
    by (simp add: set_index_def)
  with si have m: "m = d'\<lparr>columns := filter (\<lambda>c. c \<noteq> ''id'') (columns d'),
                          index_name := Some ''id'',
                          index := map (\<lambda>r. cell_at r ''id'') (rows d'),
                          rows := map (filter (\<lambda>p. fst p \<noteq> ''id'')) (rows d')\<rparr>"
    by simp
  show "columns m = filter (\<lambda>c. c \<notin> set labels \<and> c \<noteq> ''id'') (columns d)"
    by (simp add: m d'_def conj_commute)
  show "index_name m = Some ''id''"
    by (simp add: m)
  show "index m = column_values d ''id''"
    by (simp add: m d'_def column_values_def cell_at_def map_of_filter_keys [OF assms(2)])
  show "length (rows m) = length (rows d)"
    by (simp add: m d'_def)
  from i show "''id'' \<in> set (columns d)"
    by (simp add: d'_def)
  from ok show "\<forall>c\<in>set labels. c \<in> set (columns d)"
    by (simp add: list_ex_iff)
qed

section \<open>Evaluating the example tables\<close>

lemma ex_master_dataset:
  "master_dataset ex_wildfires ex_landcover ex_historical_precip ex_weather
   = Inr \<lparr>columns = [''snow_sum'', ''DiscoveryAcres'', ''temp_2m_max'', ''landcover''],
          index_name = Some ''id'', index = [IntV 1],
          rows = [[(''snow_sum'', FltV 3), (''DiscoveryAcres'', FltV 5),
                   (''temp_2m_max'', FltV 31), (''landcover'', StrV ''forest'')]]\<rparr>"
  by code_simp

lemma ex_master_dataset_allfires:
  "master_dataset_allfires ex_wildfires ex_landcover ex_weather_rain
   = Inr \<lparr>columns = [''DiscoveryAcres'', ''temp_2m_max'', ''landcover''],
          index_name = Some ''id'', index = [IntV 1, IntV 3],
          rows = [[(''DiscoveryAcres'', FltV 5), (''temp_2m_max'', FltV 31),
                   (''landcover'', StrV ''forest'')],
                  [(''DiscoveryAcres'', FltV 1), (''temp_2m_max'', FltV 25),
                   (''landcover'', StrV ''shrub'')]]\<rparr>"
  by code_simp

lemma ex_master_dataset_csv:
  "master_dataset_csv ex_wildfires ex_landcover ex_historical_precip ex_weather
   = Inr ex_master_file"
  by (simp add: master_dataset_csv_def ex_master_dataset to_csv_def cell_at_def
      ex_master_file_def)

lemma ex_master_dataset_allfires_csv:
  "master_dataset_allfires_csv ex_wildfires ex_landcover ex_weather_rain
   = Inr ex_master_allfires_file"
  by (simp add: master_dataset_allfires_csv_def ex_master_dataset_allfires to_csv_def cell_at_def
      ex_master_allfires_file_def)

lemma ex_keyed:
  "keyed_by ex_historical_precip ''UniqueFireIdentifier''"
  "keyed_by ex_wildfires ''UniqueFireIdentifier''"
  "keyed_by ex_historical_precip ''id''"
  "keyed_by ex_wildfires ''fire_id''"
  "keyed_by ex_weather ''id''"
  "keyed_by ex_weather_rain ''id''"
  "keyed_by ex_landcover ''fire_id''"
  by (simp_all add: keyed_by_def column_values_def cell_at_def ex_historical_precip_def
      ex_wildfires_def ex_weather_def ex_weather_rain_def ex_weather_rows_def ex_landcover_def)

section \<open>The projection\<close>

text \<open>
  C4, as amended: the projection removes every listed column when all listed names are
  columns of the table, and then makes the column \<open>id\<close> the index (the kept columns keep
  their values); when a listed name is not a column of the table it raises KeyError.
\<close>

theorem strict_drop_then_index:
  "((\<exists>c\<in>set labels. c \<notin> set (columns t)) \<longrightarrow> drop_and_set_index t labels = Inl KeyError) \<and>
   ((\<forall>c\<in>set labels. c \<in> set (columns t)) \<and> ''id'' \<in> set (columns t) \<and> ''id'' \<notin> set labels \<longrightarrow>
      (\<exists>t'. drop_and_set_index t labels = Inr t' \<and>
            columns t' = filter (\<lambda>c. c \<notin> set labels \<and> c \<noteq> ''id'') (columns t) \<and>
            index_name t' = Some ''id'' \<and>
            index t' = column_values t ''id'' \<and>
            length (rows t') = length (rows t) \<and>
            (\<forall>c\<in>set (columns t'). column_values t' c = column_values t c)))"
proof (intro conjI impI)
  assume "\<exists>c\<in>set labels. c \<notin> set (columns t)"
  then show "drop_and_set_index t labels = Inl KeyError"
    by (simp add: drop_and_set_index_def drop_columns_def list_ex_iff)
next
  assume a: "(\<forall>c\<in>set labels. c \<in> set (columns t)) \<and> ''id'' \<in> set (columns t) \<and> ''id'' \<notin> set labels"
  then have "\<not> list_ex (\<lambda>c. c \<notin> set (columns t)) labels"
    by (simp add: list_ex_iff)
  with a obtain t' where t': "drop_and_set_index t labels = Inr t'"
    by (simp add: drop_and_set_index_def drop_columns_def set_index_def)
  from a have n: "''id'' \<notin> set labels" by simp
  note P = drop_and_set_index_Inr [OF t' n]
  have "column_values t' c = column_values t c" if "c \<in> set (columns t')" for c
  proof -
    from that P(1) have c: "c \<notin> set labels \<and> c \<noteq> ''id''" by simp
    have key: "map_of (filter (\<lambda>p. fst p \<notin> set labels \<and> fst p \<noteq> ''id'') r) c = map_of r c"
      for r :: row
      using c by (induction r) auto
    from t' a have "rows t' = map (filter (\<lambda>p. fst p \<noteq> ''id''))
                               (map (filter (\<lambda>p. fst p \<notin> set labels)) (rows t))"
      by (auto simp: drop_and_set_index_def drop_columns_def set_index_def list_ex_iff
          split: if_splits)
    then show ?thesis
      by (simp add: column_values_def cell_at_def key conj_commute)
  qed
  with t' P(1-4)
  show "\<exists>t'. drop_and_set_index t labels = Inr t' \<and>
            columns t' = filter (\<lambda>c. c \<notin> set labels \<and> c \<noteq> ''id'') (columns t) \<and>
            index_name t' = Some ''id'' \<and>
            index t' = column_values t ''id'' \<and>
            length (rows t') = length (rows t) \<and>
            (\<forall>c\<in>set (columns t'). column_values t' c = column_values t c)"
    by blast
qed

theorem strict_drop_then_index_witness:
  "\<exists>t'. drop_and_set_index ex_small [''X''] = Inr t' \<and>
        columns t' = [''landcover''] \<and> index_name t' = Some ''id'' \<and>
        index t' = [IntV 7, IntV 9] \<and>
        column_values t' ''landcover'' = [StrV ''forest'', StrV ''shrub'']"
proof -
  have h: "(\<forall>c\<in>set [''X'']. c \<in> set (columns ex_small)) \<and> ''id'' \<in> set (columns ex_small)
           \<and> ''id'' \<notin> set [''X'']"
    by (simp add: ex_small_def)
  from strict_drop_then_index [of "[''X'']" ex_small] h obtain t'
    where t': "drop_and_set_index ex_small [''X''] = Inr t'"
      and c: "columns t' = filter (\<lambda>c. c \<notin> set [''X''] \<and> c \<noteq> ''id'') (columns ex_small)"
      and n: "index_name t' = Some ''id''"
      and i: "index t' = column_values ex_small ''id''"
      and v: "\<forall>c\<in>set (columns t'). column_values t' c = column_values ex_small c"
    by blast
  from c have c': "columns t' = [''landcover'']"
    by (simp add: ex_small_def)
  from i have i': "index t' = [IntV 7, IntV 9]"
    by (simp add: ex_small_def column_values_def cell_at_def)
  from v c' have "column_values t' ''landcover'' = column_values ex_small ''landcover''"
    by simp
  then have "column_values t' ''landcover'' = [StrV ''forest'', StrV ''shrub'']"
    by (simp add: ex_small_def column_values_def cell_at_def)
  with t' c' n i' show ?thesis by blast
qed

text \<open>
  The claim as stated fails where a listed name is not a column: pandas' \<open>drop\<close> runs
  with its default \<open>errors='raise'\<close>, so the projection is not tolerant.
\<close>

theorem tolerant_drop_counterexample:
  "''rain_sum'' \<notin> set (columns ex_small) \<and>
   drop_and_set_index ex_small [''X'', ''rain_sum''] = Inl KeyError \<and>
   master_dataset_allfires ex_wildfires ex_landcover ex_weather = Inl KeyError"
proof -
  have "master_dataset_allfires ex_wildfires ex_landcover ex_weather = Inl KeyError"
    by code_simp
  then show ?thesis
    by (simp add: ex_small_def drop_and_set_index_def drop_columns_def)
qed

section \<open>The exported master tables\<close>

lemma to_csv_no_index:
  assumes "length (index m) = length (rows m)"
  shows "to_csv m False = \<lparr>header = columns m,
                            records = map (\<lambda>r. map (cell_at r) (columns m)) (rows m)\<rparr>"
proof -
  have "map (\<lambda>(i, r). map (cell_at r) (columns m)) (zip (index m) (rows m))
        = map (\<lambda>r. map (cell_at r) (columns m)) (map snd (zip (index m) (rows m)))"
    by (simp add: case_prod_unfold comp_def)
  also from assms have "map snd (zip (index m) (rows m)) = rows m"
    by (rule map_snd_zip)
  finally show ?thesis
    by (simp add: to_csv_def)
qed

lemma export_of_projection:
  assumes "drop_and_set_index d cols = Inr m"
  shows "index_name m = Some ''id'' \<and> index m = column_values d ''id'' \<and>
         header (to_csv m False) = columns m \<and> ''id'' \<notin> set (header (to_csv m False)) \<and>
         records (to_csv m False) = map (\<lambda>r. map (cell_at r) (columns m)) (rows m)"
proof -
  note P = drop_and_set_index_Inr [OF assms id_not_in_cols]
  from P(3,4) have "length (index m) = length (rows m)"
    by (simp add: column_values_def)
  from to_csv_no_index [OF this] P(1,2,3) show ?thesis
    by simp
qed

text \<open>
  C3, as amended: in memory both master tables are indexed by \<open>id\<close>, but both are
  written with \<open>index = False\<close>: the file has a header row with the names of the remaining
  columns and one row of their cells per table row, and neither holds the identifier.
\<close>

theorem export_without_index:
  "(master_dataset_csv wildfires landcover historical_precip weather = Inr f \<longrightarrow>
      (\<exists>m. master_dataset wildfires landcover historical_precip weather = Inr m \<and>
           index_name m = Some ''id'' \<and>
           header f = columns m \<and> ''id'' \<notin> set (header f) \<and>
           records f = map (\<lambda>r. map (cell_at r) (columns m)) (rows m))) \<and>
   (master_dataset_allfires_csv wildfires' landcover' weather' = Inr f' \<longrightarrow>
      (\<exists>m. master_dataset_allfires wildfires' landcover' weather' = Inr m \<and>
           index_name m = Some ''id'' \<and>
           header f' = columns m \<and> ''id'' \<notin> set (header f') \<and>
           records f' = map (\<lambda>r. map (cell_at r) (columns m)) (rows m)))"
proof (intro conjI impI)
  assume "master_dataset_csv wildfires landcover historical_precip weather = Inr f"
  then obtain m where m: "master_dataset wildfires landcover historical_precip weather = Inr m"
    and f: "f = to_csv m False"
    by (auto simp: master_dataset_csv_def split: sum.splits)
  from m obtain d where "drop_and_set_index d cols = Inr m"
    by (auto simp: master_dataset_def split: sum.splits)
  from export_of_projection [OF this] m f
  show "\<exists>m. master_dataset wildfires landcover historical_precip weather = Inr m \<and>
           index_name m = Some ''id'' \<and>
           header f = columns m \<and> ''id'' \<notin> set (header f) \<and>
           records f = map (\<lambda>r. map (cell_at r) (columns m)) (rows m)"
    by blast
next
  assume "master_dataset_allfires_csv wildfires' landcover' weather' = Inr f'"
  then obtain m where m: "master_dataset_allfires wildfires' landcover' weather' = Inr m"
    and f: "f' = to_csv m False"
    by (auto simp: master_dataset_allfires_csv_def split: sum.splits)
  from m obtain d where "drop_and_set_index d cols = Inr m"
    by (auto simp: master_dataset_allfires_def split: sum.splits)
  from export_of_projection [OF this] m f
  show "\<exists>m. master_dataset_allfires wildfires' landcover' weather' = Inr m \<and>
           index_name m = Some ''id'' \<and>
           header f' = columns m \<and> ''id'' \<notin> set (header f') \<and>
           records f' = map (\<lambda>r. map (cell_at r) (columns m)) (rows m)"
    by blast
qed

theorem export_without_index_witness:
  "(\<exists>m. master_dataset ex_wildfires ex_landcover ex_historical_precip ex_weather = Inr m \<and>
        index_name m = Some ''id'' \<and> index m = [IntV 1] \<and>
        columns m = header ex_master_file \<and> ''id'' \<notin> set (header ex_master_file)) \<and>
   (\<exists>m. master_dataset_allfires ex_wildfires ex_landcover ex_weather_rain = Inr m \<and>
        index_name m = Some ''id'' \<and> index m = [IntV 1, IntV 3] \<and>
        columns m = header ex_master_allfires_file \<and>
        ''id'' \<notin> set (header ex_master_allfires_file))"
proof -
  note t = export_without_index [of ex_wildfires ex_landcover ex_historical_precip ex_weather
      ex_master_file ex_wildfires ex_landcover ex_weather_rain ex_master_allfires_file]
  from t ex_master_dataset_csv obtain m
    where m: "master_dataset ex_wildfires ex_landcover ex_historical_precip ex_weather = Inr m"
      and n: "index_name m = Some ''id''"
      and c: "header ex_master_file = columns m"
      and h: "''id'' \<notin> set (header ex_master_file)"
    by blast
  from t ex_master_dataset_allfires_csv obtain m'
    where m': "master_dataset_allfires ex_wildfires ex_landcover ex_weather_rain = Inr m'"
      and n': "index_name m' = Some ''id''"
      and c': "header ex_master_allfires_file = columns m'"
      and h': "''id'' \<notin> set (header ex_master_allfires_file)"
    by blast
  from m ex_master_dataset have i: "index m = [IntV 1]" by auto
  from m' ex_master_dataset_allfires have i': "index m' = [IntV 1, IntV 3]" by auto
  from m n i c h have "\<exists>m. master_dataset ex_wildfires ex_landcover ex_historical_precip ex_weather
        = Inr m \<and> index_name m = Some ''id'' \<and> index m = [IntV 1] \<and>
        columns m = header ex_master_file \<and> ''id'' \<notin> set (header ex_master_file)"
    by simp
  moreover from m' n' i' c' h'
  have "\<exists>m. master_dataset_allfires ex_wildfires ex_landcover ex_weather_rain = Inr m \<and>
        index_name m = Some ''id'' \<and> index m = [IntV 1, IntV 3] \<and>
        columns m = header ex_master_allfires_file \<and>
        ''id'' \<notin> set (header ex_master_allfires_file)"
    by simp
  ultimately show ?thesis by blast
qed

text \<open>
  The claim as stated fails on the example tables: the identifiers of the master rows
  are 1 (filtered) and 1, 3 (all fires), and the exported files have no field for them,
  neither in the header nor in the rows.
\<close>

theorem export_has_no_id_counterexample:
  "master_dataset_csv ex_wildfires ex_landcover ex_historical_precip ex_weather
     = Inr ex_master_file \<and>
   ''id'' \<notin> set (header ex_master_file) \<and>
   IntV 1 \<notin> set (concat (records ex_master_file)) \<and>
   master_dataset_allfires_csv ex_wildfires ex_landcover ex_weather_rain
     = Inr ex_master_allfires_file \<and>
   ''id'' \<notin> set (header ex_master_allfires_file) \<and>
   IntV 1 \<notin> set (concat (records ex_master_allfires_file)) \<and>
   IntV 3 \<notin> set (concat (records ex_master_allfires_file))"
  by (simp add: ex_master_dataset_csv ex_master_dataset_allfires_csv ex_master_file_def
      ex_master_allfires_file_def)

section \<open>Join exclusivity\<close>

text \<open>The filtered path: the identifiers and the number of rows of \<open>data2\<close>.\<close>

lemma data2_ids:
  assumes d: "data2 wildfires landcover historical_precip weather = Inr d"
    and i: "''id'' \<in> set (columns d)"
  shows "\<forall>k\<in>set (column_values d ''id'').
           k \<in> set (column_values weather ''id'') \<and>
           k \<in> set (column_values landcover ''fire_id'') \<and>
           (\<exists>h\<in>set (rows historical_precip). \<exists>w\<in>set (rows wildfires).
              cell_at h ''UniqueFireIdentifier'' = cell_at w ''UniqueFireIdentifier'' \<and>
              k = (if ''id'' \<in> set (columns historical_precip) then cell_at h ''id''
                   else cell_at w ''id''))"
    and "keyed_by historical_precip ''UniqueFireIdentifier'' \<Longrightarrow>
         keyed_by wildfires ''UniqueFireIdentifier'' \<Longrightarrow>
         keyed_by (if ''id'' \<in> set (columns historical_precip) then historical_precip
                   else wildfires) ''id'' \<Longrightarrow>
         keyed_by weather ''id'' \<Longrightarrow>
         keyed_by landcover ''fire_id'' \<Longrightarrow>
         length (rows d) \<le> length (rows historical_precip) \<and>
         length (rows d) \<le> length (rows wildfires) \<and>
         length (rows d) \<le> length (rows weather) \<and>
         length (rows d) \<le> length (rows landcover)"
proof -
  from d obtain data data1
    where m0: "merge historical_precip wildfires ''UniqueFireIdentifier'' ''UniqueFireIdentifier''
               = Inr data"
      and m1: "merge data weather ''id'' ''id'' = Inr data1"
      and m2: "merge data1 landcover ''id'' ''fire_id'' = Inr d"
    by (auto simp: data2_def split: sum.splits)
  have i0: "''id'' \<in> set (columns data)"
    by (rule columns_merge(2) [OF m1])
  have u: "''UniqueFireIdentifier'' \<noteq> ''id''"
    by simp
  let ?src = "\<lambda>h w. if ''id'' \<in> set (columns historical_precip) then cell_at h ''id''
                     else cell_at w ''id''"
  let ?P0 = "match_pairs (\<lambda>l. cell_at l ''UniqueFireIdentifier'')
               (\<lambda>r. cell_at r ''UniqueFireIdentifier'') (rows historical_precip) (rows wildfires)"
  let ?P1 = "match_pairs (\<lambda>l. cell_at l ''id'') (\<lambda>r. cell_at r ''id'') (rows data) (rows weather)"
  let ?P2 = "match_pairs (\<lambda>l. cell_at l ''id'') (\<lambda>r. cell_at r ''fire_id'') (rows data1)
               (rows landcover)"
  have v0: "column_values data ''id'' = map (\<lambda>p. ?src (fst p) (snd p)) ?P0"
    by (rule column_values_merge [OF m0, where g = ?src])
       (rule id_after_merge_on_shared_key(2) [OF m0 u i0])
  have v1: "column_values data1 ''id'' = map (\<lambda>p. cell_at (fst p) ''id'') ?P1"
    by (rule column_values_merge [OF m1, where g = "\<lambda>l r. cell_at l ''id''"])
       (rule id_after_merge_on_id(1) [OF m1])
  have v2: "column_values d ''id'' = map (\<lambda>p. cell_at (fst p) ''id'') ?P2"
    by (rule column_values_merge [OF m2, where g = "\<lambda>l r. cell_at l ''id''"])
       (rule id_after_merge_with_landcover [OF m2 i])
  show "\<forall>k\<in>set (column_values d ''id'').
           k \<in> set (column_values weather ''id'') \<and>
           k \<in> set (column_values landcover ''fire_id'') \<and>
           (\<exists>h\<in>set (rows historical_precip). \<exists>w\<in>set (rows wildfires).
              cell_at h ''UniqueFireIdentifier'' = cell_at w ''UniqueFireIdentifier'' \<and>
              k = ?src h w)"
  proof
    fix k assume "k \<in> set (column_values d ''id'')"
    with v2 obtain p2 where p2: "p2 \<in> set ?P2" and k2: "k = cell_at (fst p2) ''id''"
      by auto
    obtain a2 b2 where "p2 = (a2, b2)" by (cases p2)
    with p2 k2 have a2: "a2 \<in> set (rows data1)" and b2: "b2 \<in> set (rows landcover)"
      and e2: "cell_at a2 ''id'' = cell_at b2 ''fire_id''" and k2': "k = cell_at a2 ''id''"
      by (simp_all add: match_pairs_mem)
    from b2 e2 k2' have lc: "k \<in> set (column_values landcover ''fire_id'')"
      by (auto simp: column_values_def)
    from a2 k2' have "k \<in> set (column_values data1 ''id'')"
      by (auto simp: column_values_def)
    with v1 obtain p1 where p1: "p1 \<in> set ?P1" and k1: "k = cell_at (fst p1) ''id''"
      by auto
    obtain a1 b1 where "p1 = (a1, b1)" by (cases p1)
    with p1 k1 have a1: "a1 \<in> set (rows data)" and b1: "b1 \<in> set (rows weather)"
      and e1: "cell_at a1 ''id'' = cell_at b1 ''id''" and k1': "k = cell_at a1 ''id''"
      by (simp_all add: match_pairs_mem)
    from b1 e1 k1' have we: "k \<in> set (column_values weather ''id'')"
      by (auto simp: column_values_def)
    from a1 k1' have "k \<in> set (column_values data ''id'')"
      by (auto simp: column_values_def)
    then have "k \<in> (\<lambda>p. ?src (fst p) (snd p)) ` set ?P0"
      unfolding v0 set_map .
    then obtain p0 where p0: "p0 \<in> set ?P0" and k0: "k = ?src (fst p0) (snd p0)"
      by blast
    obtain h w where "p0 = (h, w)" by (cases p0)
    with p0 k0 have "h \<in> set (rows historical_precip)" and "w \<in> set (rows wildfires)"
      and "cell_at h ''UniqueFireIdentifier'' = cell_at w ''UniqueFireIdentifier''"
      and "k = ?src h w"
      by (simp_all add: match_pairs_mem)
    with we lc show "k \<in> set (column_values weather ''id'') \<and>
           k \<in> set (column_values landcover ''fire_id'') \<and>
           (\<exists>h\<in>set (rows historical_precip). \<exists>w\<in>set (rows wildfires).
              cell_at h ''UniqueFireIdentifier'' = cell_at w ''UniqueFireIdentifier'' \<and>
              k = ?src h w)"
      by blast
  qed
  assume kh: "keyed_by historical_precip ''UniqueFireIdentifier''"
    and kw: "keyed_by wildfires ''UniqueFireIdentifier''"
    and ki: "keyed_by (if ''id'' \<in> set (columns historical_precip) then historical_precip
                       else wildfires) ''id''"
    and ke: "keyed_by weather ''id''"
    and kl: "keyed_by landcover ''fire_id''"
  have d0: "distinct (column_values data ''id'')"
  proof (cases "''id'' \<in> set (columns historical_precip)")
    case True
    with ki kw have "distinct (map (\<lambda>p. cell_at (fst p) ''id'') ?P0)"
      by (intro distinct_match_pairs_fst) (simp_all add: keyed_by_def column_values_def)
    with True v0 show ?thesis by simp
  next
    case False
    with ki kh have "distinct (map (\<lambda>p. cell_at (snd p) ''id'') ?P0)"
      by (intro distinct_match_pairs_snd) (simp_all add: keyed_by_def column_values_def)
    with False v0 show ?thesis by simp
  qed
  from d0 ke have d1: "distinct (column_values data1 ''id'')"
    unfolding v1
    by (intro distinct_match_pairs_fst) (simp_all add: keyed_by_def column_values_def)
  from length_rows_merge [OF m0] kh kw
  have l0: "length (rows data) \<le> length (rows historical_precip)"
    "length (rows data) \<le> length (rows wildfires)"
    by (simp_all add: keyed_by_def)
  from length_rows_merge [OF m1] ke d0
  have l1: "length (rows data1) \<le> length (rows data)"
    "length (rows data1) \<le> length (rows weather)"
    by (simp_all add: keyed_by_def)
  from length_rows_merge [OF m2] kl d1
  have l2: "length (rows d) \<le> length (rows data1)"
    "length (rows d) \<le> length (rows landcover)"
    by (simp_all add: keyed_by_def)
  from l0 l1 l2
  show "length (rows d) \<le> length (rows historical_precip) \<and>
         length (rows d) \<le> length (rows wildfires) \<and>
         length (rows d) \<le> length (rows weather) \<and>
         length (rows d) \<le> length (rows landcover)"
    by linarith
qed

text \<open>The all-fires path: the identifiers and the number of rows of \<open>data_2\<close>.\<close>

lemma data_2_ids:
  assumes d: "data_2 wildfires landcover weather = Inr d"
    and i: "''id'' \<in> set (columns d)"
  shows "\<forall>k\<in>set (column_values d ''id'').
           k \<in> set (column_values wildfires ''fire_id'') \<and>
           k \<in> set (column_values weather ''id'') \<and>
           k \<in> set (column_values landcover ''fire_id'')"
    and "keyed_by wildfires ''fire_id'' \<Longrightarrow>
         keyed_by weather ''id'' \<Longrightarrow>
         keyed_by landcover ''fire_id'' \<Longrightarrow>
         length (rows d) \<le> length (rows wildfires) \<and>
         length (rows d) \<le> length (rows weather) \<and>
         length (rows d) \<le> length (rows landcover)"
proof -
  from d obtain data_1
    where m1: "merge wildfires weather ''fire_id'' ''id'' = Inr data_1"
      and m2: "merge data_1 landcover ''id'' ''fire_id'' = Inr d"
    by (auto simp: data_2_def split: sum.splits)
  have i1: "''id'' \<in> set (columns data_1)"
    by (rule columns_merge(2) [OF m2])
  let ?P1 = "match_pairs (\<lambda>l. cell_at l ''fire_id'') (\<lambda>r. cell_at r ''id'') (rows wildfires)
               (rows weather)"
  let ?P2 = "match_pairs (\<lambda>l. cell_at l ''id'') (\<lambda>r. cell_at r ''fire_id'') (rows data_1)
               (rows landcover)"
  have v1: "column_values data_1 ''id'' = map (\<lambda>p. cell_at (snd p) ''id'') ?P1"
    by (rule column_values_merge [OF m1, where g = "\<lambda>l r. cell_at r ''id''"])
       (rule id_after_merge_with_weather [OF m1 i1])
  have v2: "column_values d ''id'' = map (\<lambda>p. cell_at (fst p) ''id'') ?P2"
    by (rule column_values_merge [OF m2, where g = "\<lambda>l r. cell_at l ''id''"])
       (rule id_after_merge_with_landcover [OF m2 i])
  show "\<forall>k\<in>set (column_values d ''id'').
           k \<in> set (column_values wildfires ''fire_id'') \<and>
           k \<in> set (column_values weather ''id'') \<and>
           k \<in> set (column_values landcover ''fire_id'')"
  proof
    fix k assume "k \<in> set (column_values d ''id'')"
    with v2 obtain p2 where p2: "p2 \<in> set ?P2" and k2: "k = cell_at (fst p2) ''id''"
      by auto
    obtain a2 b2 where "p2 = (a2, b2)" by (cases p2)
    with p2 k2 have a2: "a2 \<in> set (rows data_1)" and b2: "b2 \<in> set (rows landcover)"
      and e2: "cell_at a2 ''id'' = cell_at b2 ''fire_id''" and k2': "k = cell_at a2 ''id''"
      by (simp_all add: match_pairs_mem)
    from b2 e2 k2' have lc: "k \<in> set (column_values landcover ''fire_id'')"
      by (auto simp: column_values_def)
    from a2 k2' have "k \<in> set (column_values data_1 ''id'')"
      by (auto simp: column_values_def)
    with v1 obtain p1 where p1: "p1 \<in> set ?P1" and k1: "k = cell_at (snd p1) ''id''"
      by auto
    obtain a1 b1 where "p1 = (a1, b1)" by (cases p1)
    with p1 k1 have a1: "a1 \<in> set (rows wildfires)" and b1: "b1 \<in> set (rows weather)"
      and e1: "cell_at a1 ''fire_id'' = cell_at b1 ''id''" and k1': "k = cell_at b1 ''id''"
      by (simp_all add: match_pairs_mem)
    from b1 k1' have "k \<in> set (column_values weather ''id'')"
      by (auto simp: column_values_def)
    moreover from e1 k1' have "k = cell_at a1 ''fire_id''"
      by simp
    with a1 have "k \<in> set (column_values wildfires ''fire_id'')"
      by (auto simp: column_values_def)
    ultimately show "k \<in> set (column_values wildfires ''fire_id'') \<and>
           k \<in> set (column_values weather ''id'') \<and>
           k \<in> set (column_values landcover ''fire_id'')"
      using lc by simp
  qed
  assume kw: "keyed_by wildfires ''fire_id''"
    and ke: "keyed_by weather ''id''"
    and kl: "keyed_by landcover ''fire_id''"
  from ke kw have d1: "distinct (column_values data_1 ''id'')"
    unfolding v1
    by (intro distinct_match_pairs_snd) (simp_all add: keyed_by_def column_values_def)
  from length_rows_merge [OF m1] ke kw
  have l1: "length (rows data_1) \<le> length (rows wildfires)"
    "length (rows data_1) \<le> length (rows weather)"
    by (simp_all add: keyed_by_def)
  from length_rows_merge [OF m2] kl d1
  have l2: "length (rows d) \<le> length (rows data_1)"
    "length (rows d) \<le> length (rows landcover)"
    by (simp_all add: keyed_by_def)
  from l1 l2
  show "length (rows d) \<le> length (rows wildfires) \<and>
         length (rows d) \<le> length (rows weather) \<and>
         length (rows d) \<le> length (rows landcover)"
    by linarith
qed

text \<open>A join makes no cell of its own: every cell of the result is a cell of a source row.\<close>

lemma table_cells_mem:
  "v \<in> set (table_cells df) \<longleftrightarrow> (\<exists>r\<in>set (rows df). \<exists>c\<in>set (columns df). v = cell_at r c)"
  by (auto simp: table_cells_def)

lemma fst_merged_row:
  "map fst (merged_row left right lo ro l r)
   = map (left_name (columns right) lo ro) (columns left)
     @ map (right_name (columns left)) (right_kept (columns right) lo ro)"
  by (simp add: merged_row_def comp_def)

lemma snd_merged_row:
  assumes "(c, v) \<in> set (merged_row left right lo ro l r)"
  shows "(\<exists>c0\<in>set (columns left). v = cell_at l c0) \<or> (\<exists>c0\<in>set (columns right). v = cell_at r c0)"
  using assms by (auto simp: merged_row_def right_kept_def)

lemma cell_at_present:
  assumes "c \<in> set (map fst al)"
  shows "\<exists>v. (c, v) \<in> set al \<and> cell_at al c = v"
proof -
  from assms obtain v where "map_of al c = Some v"
    by (cases "map_of al c") (auto simp: map_of_eq_None_iff)
  then show ?thesis
    by (auto simp: cell_at_def dest: map_of_SomeD)
qed

lemma merge_cells:
  assumes m: "merge left right lo ro = Inr d"
  shows "set (table_cells d) \<subseteq> set (table_cells left) \<union> set (table_cells right)"
proof
  fix v assume "v \<in> set (table_cells d)"
  then obtain row c where row: "row \<in> set (rows d)" and c: "c \<in> set (columns d)"
    and v: "v = cell_at row c"
    by (auto simp: table_cells_mem)
  from row obtain p where p: "p \<in> set (match_pairs (\<lambda>l. cell_at l lo) (\<lambda>r. cell_at r ro)
                                          (rows left) (rows right))"
    and r: "row = merged_row left right lo ro (fst p) (snd p)"
    unfolding rows_merge [OF m] by auto
  obtain l r' where lr: "p = (l, r')" by (cases p)
  with p have l: "l \<in> set (rows left)" and r': "r' \<in> set (rows right)"
    by (simp_all add: match_pairs_mem)
  from c have "c \<in> set (map fst row)"
    unfolding r fst_merged_row columns_merge(1) [OF m] .
  from cell_at_present [OF this] v have "(c, v) \<in> set row"
    by auto
  with r lr have "(c, v) \<in> set (merged_row left right lo ro l r')"
    by simp
  from snd_merged_row [OF this] l r' show "v \<in> set (table_cells left) \<union> set (table_cells right)"
    by (auto simp: table_cells_mem)
qed

lemma drop_and_set_index_cells:
  assumes p: "drop_and_set_index d labels = Inr m"
  shows "set (table_cells m) \<subseteq> set (table_cells d)"
proof
  fix v assume "v \<in> set (table_cells m)"
  then obtain row c where row: "row \<in> set (rows m)" and c: "c \<in> set (columns m)"
    and v: "v = cell_at row c"
    by (auto simp: table_cells_mem)
  define d' where "d' = d\<lparr>columns := filter (\<lambda>c. c \<notin> set labels) (columns d),
                           rows := map (filter (\<lambda>p. fst p \<notin> set labels)) (rows d)\<rparr>"
  from p have ok: "\<not> list_ex (\<lambda>c. c \<notin> set (columns d)) labels"
    by (auto simp: drop_and_set_index_def drop_columns_def split: if_splits)
  then have "drop_columns d labels = Inr d'"
    by (simp add: drop_columns_def d'_def)
  with p have si: "set_index d' ''id'' = Inr m"
    by (simp add: drop_and_set_index_def)
  then have i: "''id'' \<in> set (columns d')"
    by (auto simp: set_index_def split: if_splits)
  with si have cm: "columns m = filter (\<lambda>c. c \<noteq> ''id'') (columns d')"
    and rm: "rows m = map (filter (\<lambda>p. fst p \<noteq> ''id'')) (rows d')"
    by (auto simp: set_index_def)
  from c cm have c': "c \<notin> set labels \<and> c \<noteq> ''id''" and cd: "c \<in> set (columns d)"
    by (simp_all add: d'_def)
  have key: "map_of (filter (\<lambda>p. fst p \<notin> set labels \<and> fst p \<noteq> ''id'') r) c = map_of r c"
    for r :: row
    using c' by (induction r) auto
  from row rm obtain r0 where r0: "r0 \<in> set (rows d)"
    and "row = filter (\<lambda>p. fst p \<noteq> ''id'') (filter (\<lambda>p. fst p \<notin> set labels) r0)"
    by (auto simp: d'_def)
  with v have "v = cell_at r0 c"
    by (simp add: cell_at_def key conj_commute)
  with r0 cd show "v \<in> set (table_cells d)"
    by (auto simp: table_cells_mem)
qed

lemma master_dataset_cells:
  assumes "master_dataset wildfires landcover historical_precip weather = Inr m"
  shows "set (table_cells m) \<subseteq> set (table_cells historical_precip) \<union> set (table_cells wildfires)
           \<union> set (table_cells weather) \<union> set (table_cells landcover)"
proof -
  from assms obtain d where d: "data2 wildfires landcover historical_precip weather = Inr d"
    and p: "drop_and_set_index d cols = Inr m"
    by (auto simp: master_dataset_def split: sum.splits)
  from d obtain data data1
    where m0: "merge historical_precip wildfires ''UniqueFireIdentifier'' ''UniqueFireIdentifier''
               = Inr data"
      and m1: "merge data weather ''id'' ''id'' = Inr data1"
      and m2: "merge data1 landcover ''id'' ''fire_id'' = Inr d"
    by (auto simp: data2_def split: sum.splits)
  from drop_and_set_index_cells [OF p] merge_cells [OF m2] merge_cells [OF m1] merge_cells [OF m0]
  show ?thesis by blast
qed

lemma master_dataset_allfires_cells:
  assumes "master_dataset_allfires wildfires landcover weather = Inr m"
  shows "set (table_cells m) \<subseteq> set (table_cells wildfires) \<union> set (table_cells weather)
           \<union> set (table_cells landcover)"
proof -
  from assms obtain d where d: "data_2 wildfires landcover weather = Inr d"
    and p: "drop_and_set_index d cols = Inr m"
    by (auto simp: master_dataset_allfires_def split: sum.splits)
  from d obtain data_1
    where m1: "merge wildfires weather ''fire_id'' ''id'' = Inr data_1"
      and m2: "merge data_1 landcover ''id'' ''fire_id'' = Inr d"
    by (auto simp: data_2_def split: sum.splits)
  from drop_and_set_index_cells [OF p] merge_cells [OF m2] merge_cells [OF m1]
  show ?thesis by blast
qed

text \<open>
  C5, as amended: every row of a master table stems from rows of all of the table's
  source tables that matched on the join columns. On the all-fires path its identifier
  occurs in the wildfire, the weather and the land-cover table. On the filtered path its
  identifier occurs in the weather and the land-cover table and in the table that
  supplies the column \<open>id\<close> to the first join (the precipitation table when it has one),
  and it belongs to a precipitation row and a wildfire row with the same unique fire
  identifier: that join does not compare numeric identifiers, so the identifier need not
  occur in the wildfire table. Every cell of a master table is a cell of a source table,
  so the joins bring in no missing value of their own; and when every source table is
  keyed by its join column the master table has at most as many rows as the smallest of
  them.
\<close>

theorem inner_join_exclusivity:
  "(master_dataset wildfires landcover historical_precip weather = Inr m \<longrightarrow>
      (\<forall>k\<in>set (index m).
          k \<in> set (column_values weather ''id'') \<and>
          k \<in> set (column_values landcover ''fire_id'') \<and>
          k \<in> set (column_values (if ''id'' \<in> set (columns historical_precip)
                                    then historical_precip else wildfires) ''id'') \<and>
          (\<exists>h\<in>set (rows historical_precip). \<exists>w\<in>set (rows wildfires).
             cell_at h ''UniqueFireIdentifier'' = cell_at w ''UniqueFireIdentifier'' \<and>
             k = (if ''id'' \<in> set (columns historical_precip) then cell_at h ''id''
                  else cell_at w ''id''))) \<and>
      set (table_cells m) \<subseteq> set (table_cells historical_precip) \<union> set (table_cells wildfires)
                              \<union> set (table_cells weather) \<union> set (table_cells landcover) \<and>
      (keyed_by historical_precip ''UniqueFireIdentifier'' \<and>
       keyed_by wildfires ''UniqueFireIdentifier'' \<and>
       keyed_by (if ''id'' \<in> set (columns historical_precip) then historical_precip
                 else wildfires) ''id'' \<and>
       keyed_by weather ''id'' \<and> keyed_by landcover ''fire_id'' \<longrightarrow>
         length (rows m) \<le> Min {length (rows historical_precip), length (rows wildfires),
                                  length (rows weather), length (rows landcover)})) \<and>
   (master_dataset_allfires wildfires' landcover' weather' = Inr m' \<longrightarrow>
      (\<forall>k\<in>set (index m').
          k \<in> set (column_values wildfires' ''fire_id'') \<and>
          k \<in> set (column_values weather' ''id'') \<and>
          k \<in> set (column_values landcover' ''fire_id'')) \<and>
      set (table_cells m') \<subseteq> set (table_cells wildfires') \<union> set (table_cells weather')
                               \<union> set (table_cells landcover') \<and>
      (keyed_by wildfires' ''fire_id'' \<and> keyed_by weather' ''id'' \<and>
       keyed_by landcover' ''fire_id'' \<longrightarrow>
         length (rows m') \<le> Min {length (rows wildfires'), length (rows weather'),
                                   length (rows landcover')}))"
proof (intro conjI impI)
  assume "master_dataset wildfires landcover historical_precip weather = Inr m"
  then show "set (table_cells m) \<subseteq> set (table_cells historical_precip) \<union> set (table_cells wildfires)
                              \<union> set (table_cells weather) \<union> set (table_cells landcover)"
    by (rule master_dataset_cells)
next
  assume "master_dataset_allfires wildfires' landcover' weather' = Inr m'"
  then show "set (table_cells m') \<subseteq> set (table_cells wildfires') \<union> set (table_cells weather')
                               \<union> set (table_cells landcover')"
    by (rule master_dataset_allfires_cells)
next
  assume "master_dataset wildfires landcover historical_precip weather = Inr m"
  then obtain d where d: "data2 wildfires landcover historical_precip weather = Inr d"
    and p: "drop_and_set_index d cols = Inr m"
    by (auto simp: master_dataset_def split: sum.splits)
  note P = drop_and_set_index_Inr [OF p id_not_in_cols]
  from data2_ids(1) [OF d P(5)] P(3)
  have base: "\<forall>k\<in>set (index m).
          k \<in> set (column_values weather ''id'') \<and>
          k \<in> set (column_values landcover ''fire_id'') \<and>
          (\<exists>h\<in>set (rows historical_precip). \<exists>w\<in>set (rows wildfires).
             cell_at h ''UniqueFireIdentifier'' = cell_at w ''UniqueFireIdentifier'' \<and>
             k = (if ''id'' \<in> set (columns historical_precip) then cell_at h ''id''
                  else cell_at w ''id''))"
    by simp
  show "\<forall>k\<in>set (index m).
          k \<in> set (column_values weather ''id'') \<and>
          k \<in> set (column_values landcover ''fire_id'') \<and>
          k \<in> set (column_values (if ''id'' \<in> set (columns historical_precip)
                                    then historical_precip else wildfires) ''id'') \<and>
          (\<exists>h\<in>set (rows historical_precip). \<exists>w\<in>set (rows wildfires).
             cell_at h ''UniqueFireIdentifier'' = cell_at w ''UniqueFireIdentifier'' \<and>
             k = (if ''id'' \<in> set (columns historical_precip) then cell_at h ''id''
                  else cell_at w ''id''))"
  proof
    fix k assume "k \<in> set (index m)"
    with base have we: "k \<in> set (column_values weather ''id'')"
      and lc: "k \<in> set (column_values landcover ''fire_id'')"
      and ex: "\<exists>h\<in>set (rows historical_precip). \<exists>w\<in>set (rows wildfires).
             cell_at h ''UniqueFireIdentifier'' = cell_at w ''UniqueFireIdentifier'' \<and>
             k = (if ''id'' \<in> set (columns historical_precip) then cell_at h ''id''
                  else cell_at w ''id'')"
      by blast+
    from ex obtain h w where h: "h \<in> set (rows historical_precip)"
      and w: "w \<in> set (rows wildfires)"
      and k: "k = (if ''id'' \<in> set (columns historical_precip) then cell_at h ''id''
                   else cell_at w ''id'')"
      by blast
    have "k \<in> set (column_values (if ''id'' \<in> set (columns historical_precip)
                                    then historical_precip else wildfires) ''id'')"
    proof (cases "''id'' \<in> set (columns historical_precip)")
      case True
      with k h show ?thesis
        unfolding column_values_def by (simp only: if_True set_map) (rule imageI)
    next
      case False
      with k w show ?thesis
        unfolding column_values_def by (simp only: if_False set_map) (rule imageI)
    qed
    with we lc ex
    show "k \<in> set (column_values weather ''id'') \<and>
          k \<in> set (column_values landcover ''fire_id'') \<and>
          k \<in> set (column_values (if ''id'' \<in> set (columns historical_precip)
                                    then historical_precip else wildfires) ''id'') \<and>
          (\<exists>h\<in>set (rows historical_precip). \<exists>w\<in>set (rows wildfires).
             cell_at h ''UniqueFireIdentifier'' = cell_at w ''UniqueFireIdentifier'' \<and>
             k = (if ''id'' \<in> set (columns historical_precip) then cell_at h ''id''
                  else cell_at w ''id''))"
      by blast
  qed
  assume "keyed_by historical_precip ''UniqueFireIdentifier'' \<and>
       keyed_by wildfires ''UniqueFireIdentifier'' \<and>
       keyed_by (if ''id'' \<in> set (columns historical_precip) then historical_precip
                 else wildfires) ''id'' \<and>
       keyed_by weather ''id'' \<and> keyed_by landcover ''fire_id''"
  with data2_ids(2) [OF d P(5)] P(4)
  show "length (rows m) \<le> Min {length (rows historical_precip), length (rows wildfires),
                                  length (rows weather), length (rows landcover)}"
    by simp
next
  assume "master_dataset_allfires wildfires' landcover' weather' = Inr m'"
  then obtain d where d: "data_2 wildfires' landcover' weather' = Inr d"
    and p: "drop_and_set_index d cols = Inr m'"
    by (auto simp: master_dataset_allfires_def split: sum.splits)
  note P = drop_and_set_index_Inr [OF p id_not_in_cols]
  from data_2_ids(1) [OF d P(5)] P(3)
  show "\<forall>k\<in>set (index m').
          k \<in> set (column_values wildfires' ''fire_id'') \<and>
          k \<in> set (column_values weather' ''id'') \<and>
          k \<in> set (column_values landcover' ''fire_id'')"
    by simp
  assume "keyed_by wildfires' ''fire_id'' \<and> keyed_by weather' ''id'' \<and>
       keyed_by landcover' ''fire_id''"
  with data_2_ids(2) [OF d P(5)] P(4)
  show "length (rows m') \<le> Min {length (rows wildfires'), length (rows weather'),
                                   length (rows landcover')}"
    by simp
qed

theorem inner_join_exclusivity_witness:
  "(\<exists>m. master_dataset ex_wildfires ex_landcover ex_historical_precip ex_weather = Inr m \<and>
        index m = [IntV 1] \<and>
        IntV 1 \<in> set (column_values ex_weather ''id'') \<and>
        IntV 1 \<in> set (column_values ex_landcover ''fire_id'') \<and>
        IntV 1 \<in> set (column_values ex_historical_precip ''id'') \<and>
        length (rows m) \<le> Min {length (rows ex_historical_precip), length (rows ex_wildfires),
                                 length (rows ex_weather), length (rows ex_landcover)}) \<and>
   (\<exists>m. master_dataset_allfires ex_wildfires ex_landcover ex_weather_rain = Inr m \<and>
        index m = [IntV 1, IntV 3] \<and>
        IntV 3 \<in> set (column_values ex_wildfires ''fire_id'') \<and>
        length (rows m) \<le> Min {length (rows ex_wildfires), length (rows ex_weather_rain),
                                 length (rows ex_landcover)})"
proof -
  define m where
    "m = \<lparr>columns = [''snow_sum'', ''DiscoveryAcres'', ''temp_2m_max'', ''landcover''],
          index_name = Some ''id'', index = [IntV 1],
          rows = [[(''snow_sum'', FltV 3), (''DiscoveryAcres'', FltV 5),
                   (''temp_2m_max'', FltV 31), (''landcover'', StrV ''forest'')]]\<rparr>"
  define m' where
    "m' = \<lparr>columns = [''DiscoveryAcres'', ''temp_2m_max'', ''landcover''],
          index_name = Some ''id'', index = [IntV 1, IntV 3],
          rows = [[(''DiscoveryAcres'', FltV 5), (''temp_2m_max'', FltV 31),
                   (''landcover'', StrV ''forest'')],
                  [(''DiscoveryAcres'', FltV 1), (''temp_2m_max'', FltV 25),
                   (''landcover'', StrV ''shrub'')]]\<rparr>"
  have e: "master_dataset ex_wildfires ex_landcover ex_historical_precip ex_weather = Inr m"
    unfolding m_def by (rule ex_master_dataset)
  have e': "master_dataset_allfires ex_wildfires ex_landcover ex_weather_rain = Inr m'"
    unfolding m'_def by (rule ex_master_dataset_allfires)
  have s: "''id'' \<in> set (columns ex_historical_precip)"
    by (simp add: ex_historical_precip_def)
  note t = inner_join_exclusivity [of ex_wildfires ex_landcover ex_historical_precip ex_weather m
      ex_wildfires ex_landcover ex_weather_rain m']
  have i: "index m = [IntV 1]" and i': "index m' = [IntV 1, IntV 3]"
    by (simp_all add: m_def m'_def)
  from t e i have "IntV 1 \<in> set (column_values ex_weather ''id'')"
    and "IntV 1 \<in> set (column_values ex_landcover ''fire_id'')"
    by simp_all
  moreover from t e i s have "IntV 1 \<in> set (column_values ex_historical_precip ''id'')"
    by simp
  moreover from t e s ex_keyed
  have "length (rows m) \<le> Min {length (rows ex_historical_precip), length (rows ex_wildfires),
                                 length (rows ex_weather), length (rows ex_landcover)}"
    by simp
  moreover from t e' i' have "IntV 3 \<in> set (column_values ex_wildfires ''fire_id'')"
    by simp
  moreover from t e' ex_keyed
  have "length (rows m') \<le> Min {length (rows ex_wildfires), length (rows ex_weather_rain),
                                 length (rows ex_landcover)}"
    by simp
  ultimately show ?thesis
    using e e' i i' by blast
qed

text \<open>
  The claim as stated fails on the filtered path: the precipitation table is joined to
  the wildfire table on the unique fire identifier alone, and the column \<open>id\<close> of the
  result is the precipitation table's. Where the two tables number the same fire
  differently, the master table holds an identifier that is nowhere in the wildfire
  table.
\<close>

theorem foreign_identifier_counterexample:
  "master_dataset ex_wildfires ex_landcover_99 ex_historical_precip_99 ex_weather_99
   = Inr \<lparr>columns = [''snow_sum'', ''DiscoveryAcres'', ''temp_2m_max'', ''landcover''],
          index_name = Some ''id'', index = [IntV 99],
          rows = [[(''snow_sum'', FltV 3), (''DiscoveryAcres'', FltV 5),
                   (''temp_2m_max'', FltV 31), (''landcover'', StrV ''forest'')]]\<rparr> \<and>
   column_values ex_wildfires ''fire_id'' = [IntV 1, IntV 2, IntV 3] \<and>
   IntV 99 \<notin> set (table_cells ex_wildfires)"
proof -
  have "master_dataset ex_wildfires ex_landcover_99 ex_historical_precip_99 ex_weather_99
   = Inr \<lparr>columns = [''snow_sum'', ''DiscoveryAcres'', ''temp_2m_max'', ''landcover''],
          index_name = Some ''id'', index = [IntV 99],
          rows = [[(''snow_sum'', FltV 3), (''DiscoveryAcres'', FltV 5),
                   (''temp_2m_max'', FltV 31), (''landcover'', StrV ''forest'')]]\<rparr>"
    by code_simp
  moreover have "column_values ex_wildfires ''fire_id'' = [IntV 1, IntV 2, IntV 3]"
    by (simp add: ex_wildfires_def column_values_def cell_at_def)
  moreover have "IntV 99 \<notin> set (table_cells ex_wildfires)"
    by code_simp
  ultimately show ?thesis by blast
qed

end
